(* ===== verification/Prelude.thy ===== *)
theory Prelude
  imports Complex_Main
begin

text \<open>
  Shared vocabulary of the product-inventory development: the collections of
  facts the component theories register their evaluation and invariant rules
  in, the result type used for every fallible operation, and generic lemmas on
  keyed lists (a database table is a list of rows keyed by a column), on
  association-list abstractions of such lists and on rational rounding.
\<close>

named_theorems model_defs
  "definitions of the model unfolded when a handler is evaluated on a concrete input"

named_theorems inv_simps
  "rules that decide the table invariant of a modified table"

text \<open>
  Every operation of the program that can raise is modelled with a sum type:
  \<open>Inl\<close> is the exception, \<open>Inr\<close> the returned value.
\<close>

type_synonym ('e, 'a) result = "'e + 'a"

text \<open>
  A list of processes each of which may claim a key: no two processes claim the
  same one.
\<close>

definition distinct_claims :: "('a \<Rightarrow> 'b option) \<Rightarrow> 'a list \<Rightarrow> bool" where
  "distinct_claims f xs \<longleftrightarrow>
     (\<forall>j < length xs. \<forall>k < length xs. j \<noteq> k \<longrightarrow> f (xs ! j) \<noteq> None \<longrightarrow> f (xs ! j) \<noteq> f (xs ! k))"

subsection \<open>Pairs\<close>

lemma fst_eq_pair: "fst p = a \<Longrightarrow> p = (a, snd p)"
  by (cases p) simp

subsection \<open>Lists keyed by a column\<close>

text \<open>
  A table is a list of rows, and a key column is a function from rows to keys.
  The key column is unique when the list of keys is distinct.
\<close>

lemma find_key_Some_mem:
  "find P xs = Some x \<Longrightarrow> x \<in> set xs \<and> P x"
  by (auto simp: find_Some_iff)

lemma find_key_None:
  "find P xs = None \<longleftrightarrow> (\<forall>x \<in> set xs. \<not> P x)"
  by (auto simp: find_None_iff)

lemma find_key_unique:
  assumes "distinct (map f xs)" and "x \<in> set xs"
  shows "find (\<lambda>r. f r = f x) xs = Some x"
  using assms
proof (induction xs)
  case Nil
  then show ?case by simp
next
  case (Cons y ys)
  then show ?case by (auto simp: image_iff)
qed

lemma find_key_append_fresh:
  "(\<forall>y \<in> set xs. f y \<noteq> k) \<Longrightarrow> f x = k \<Longrightarrow> find (\<lambda>r. f r = k) (xs @ [x]) = Some x"
  by (induction xs) auto

lemma find_key_filter_out:
  "find (\<lambda>r. f r = k) (filter (\<lambda>r. f r \<noteq> k) xs) = None"
  by (simp add: find_None_iff)

lemma distinct_map_replace_key:
  assumes "distinct (map f xs)" and "f y = k"
  shows "distinct (map f (map (\<lambda>r. if f r = k then y else r) xs))"
proof -
  have "map f (map (\<lambda>r. if f r = k then y else r) xs) = map f xs"
    by (induction xs) (simp_all add: assms(2))
  with assms(1) show ?thesis by (simp only:)
qed

lemma map_replace_key_other:
  "f y = k \<Longrightarrow> map g (map (\<lambda>r. if f r = k then y else r) xs) =
     map (\<lambda>r. if f r = k then g y else g r) xs"
  by (induction xs) auto

lemma set_replace_key:
  "x \<in> set (map (\<lambda>r. if f r = k then y else r) xs) \<Longrightarrow> x = y \<or> x \<in> set xs"
  by auto

lemma replace_key_eq_replace_elem:
  assumes "distinct (map f xs)" and "y \<in> set xs"
  shows "map (\<lambda>x. if f x = f y then z else x) xs = map (\<lambda>x. if x = y then z else x) xs"
proof (rule map_cong [OF refl])
  fix x assume "x \<in> set xs"
  with assms have "f x = f y \<longleftrightarrow> x = y"
    by (metis distinct_map inj_on_eq_iff)
  then show "(if f x = f y then z else x) = (if x = y then z else x)" by simp
qed

lemma map_replace_elem_same:
  "g z = g y \<Longrightarrow> map g (map (\<lambda>x. if x = y then z else x) xs) = map g xs"
  by (induction xs) auto

lemma set_replace_elem:
  "set (map (\<lambda>x. if x = y then z else x) xs) \<subseteq> insert z (set xs)"
  by auto

lemma distinct_claims_update:
  assumes d: "distinct_claims f xs" and i: "i < length xs"
    and new: "f x = f (xs ! i) \<or> f x = None \<or> (\<forall>k < length xs. f (xs ! k) \<noteq> f x)"
  shows "distinct_claims f (xs[i := x])"
  unfolding distinct_claims_def
proof (intro allI impI)
  fix j k assume j: "j < length (xs[i := x])" and k: "k < length (xs[i := x])" and jk: "j \<noteq> k"
    and n: "f (xs[i := x] ! j) \<noteq> None"
  have d': "\<And>j k. j < length xs \<Longrightarrow> k < length xs \<Longrightarrow> j \<noteq> k \<Longrightarrow> f (xs ! j) \<noteq> None \<Longrightarrow> f (xs ! j) \<noteq> f (xs ! k)"
    using d by (simp add: distinct_claims_def)
  show "f (xs[i := x] ! j) \<noteq> f (xs[i := x] ! k)"
    using i j k jk n new d' [of j k] d' [of i k] d' [of j i] by (auto simp: nth_list_update)
qed

subsection \<open>Association-list abstraction of a keyed list\<close>

text \<open>
  The abstract view of a table is a finite map from the key to the rest of the
  row. The three lemmas below are the map-level meaning of an insertion at the
  end, of a replacement by key and of a deletion by key.
\<close>

lemma map_of_keyed_snoc:
  "map_of (map (\<lambda>r. (f r, g r)) (xs @ [x])) =
     (if f x \<in> f ` set xs then map_of (map (\<lambda>r. (f r, g r)) xs)
      else (map_of (map (\<lambda>r. (f r, g r)) xs))(f x \<mapsto> g x))"
  by (induction xs) (auto simp: fun_eq_iff)

lemma map_of_keyed_filter:
  "map_of (map (\<lambda>r. (f r, g r)) (filter (\<lambda>r. f r \<noteq> k) xs)) =
     (map_of (map (\<lambda>r. (f r, g r)) xs))(k := None)"
  by (induction xs) (auto simp: fun_eq_iff)

lemma map_of_keyed_replace:
  assumes "f y = k"
  shows "map_of (map (\<lambda>r. (f r, g r)) (map (\<lambda>r. if f r = k then y else r) xs)) =
     (if k \<in> f ` set xs then (map_of (map (\<lambda>r. (f r, g r)) xs))(k \<mapsto> g y)
      else map_of (map (\<lambda>r. (f r, g r)) xs))"
  using assms by (induction xs) (auto simp: fun_eq_iff)

lemma map_of_keyed_find:
  "map_of (map (\<lambda>r. (f r, g r)) xs) k = map_option g (find (\<lambda>r. f r = k) xs)"
  by (induction xs) auto

subsection \<open>Rationals\<close>

text \<open>
  The simplifier does not evaluate the floor of a rational quotient of
  numerals by itself; this rule does, so that rounded prices of concrete
  requests evaluate by \<open>simp\<close>.
\<close>

lemma floor_numeral_div_rat [simp]:
  "\<lfloor>(numeral a / numeral b :: rat)\<rfloor> = numeral a div numeral b"
  using floor_divide_of_int_eq [of "numeral a" "numeral b", where 'a = rat] by simp

lemma floor_int_plus_half [simp]: "\<lfloor>(of_int k + 1 / 2 :: rat)\<rfloor> = k"
  by (simp add: floor_eq_iff)

text \<open>Counting the elements of a list that satisfy a predicate, across an update.\<close>

lemma length_filter_update:
  "i < length xs \<Longrightarrow>
     length (filter P (xs[i := x])) + (if P (xs ! i) then 1 else 0) =
     length (filter P xs) + (if P x then 1 else 0)"
proof (induction xs arbitrary: i)
  case (Cons y ys)
  then show ?case by (cases i) auto
qed simp

lemma floor_half [simp]: "\<lfloor>(1 / 2 :: rat)\<rfloor> = 0"
  by (simp add: floor_eq_iff)

lemma find_map_option: "find P (map f xs) = map_option f (find (P \<circ> f) xs)"
  by (induction xs) auto

end
