(* ===== verification/Schemas.thy ===== *)
theory Schemas
  imports Prelude
begin

text \<open>
  Payload contracts of \<^verbatim>\<open>src/schemas.py\<close>: the pydantic models
  \<^verbatim>\<open>ProductCreate\<close> and \<^verbatim>\<open>ProductUpdate\<close> with their field constraints and
  the \<^verbatim>\<open>validate_product_name\<close> validator, and Python's \<^verbatim>\<open>str.strip\<close> that
  the validator calls. A JSON body is modelled here after JSON decoding and
  type coercion, which are in theory \<open>Wire\<close>: each field is omitted, an
  explicit \<^verbatim>\<open>null\<close>, or a value of the field's type. Strings are lists of code points below 256 (Latin-1), so that
  \<open>length\<close> is Python's \<^verbatim>\<open>len\<close>; prices are exact rationals.
\<close>

subsection \<open>Python's \<^verbatim>\<open>str.isspace\<close> and \<^verbatim>\<open>str.strip\<close>\<close>

text \<open>
  The code points below 256 for which CPython's \<^verbatim>\<open>str.isspace\<close> holds: the
  ASCII controls TAB to CR, the separators FS, GS, RS, US, the space, NEL and
  NO-BREAK SPACE.
\<close>

definition py_isspace :: "char \<Rightarrow> bool" where
  "py_isspace c \<longleftrightarrow>
     (let n = (of_char c :: nat)
      in (9 \<le> n \<and> n \<le> 13) \<or> (28 \<le> n \<and> n \<le> 32) \<or> n = 133 \<or> n = 160)"

text \<open>
  \<^verbatim>\<open>s.strip()\<close> drops the longest whitespace prefix and then the longest
  whitespace suffix.
\<close>

definition py_strip :: "string \<Rightarrow> string" where
  "py_strip s = rev (dropWhile py_isspace (rev (dropWhile py_isspace s)))"

subsection \<open>JSON fields and validation errors\<close>

text \<open>
  The three states a field of a JSON object can be in. pydantic distinguishes
  them only through the field's default and its \<^verbatim>\<open>Optional\<close> type.
\<close>

datatype 'a json_field = Omitted | Null | Val 'a

text \<open>
  pydantic's error types, one constructor per error the two models can raise:
  \<^verbatim>\<open>missing\<close>, a type error for \<^verbatim>\<open>null\<close> in a non-optional field,
  \<^verbatim>\<open>string_too_short\<close>, \<^verbatim>\<open>string_too_long\<close>, \<^verbatim>\<open>greater_than\<close>,
  \<^verbatim>\<open>greater_than_equal\<close> and the \<^verbatim>\<open>value_error\<close> of a validator that raised
  \<^verbatim>\<open>ValueError\<close>; and the errors of lax type coercion (theory \<open>Wire\<close>):
  \<^verbatim>\<open>int_from_float\<close> for a float with a fractional part in an integer field,
  \<^verbatim>\<open>int_parsing\<close> and \<^verbatim>\<open>float_parsing\<close> for a string that is not a number.
  Every \<^verbatim>\<open>*_type\<close> error of pydantic (\<^verbatim>\<open>string_type\<close>, \<^verbatim>\<open>float_type\<close>,
  \<^verbatim>\<open>int_type\<close>, \<^verbatim>\<open>model_type\<close>) is \<open>Wrong_Type\<close>.
\<close>

datatype verr =
    Missing
  | Wrong_Type
  | String_Too_Short
  | String_Too_Long
  | Greater_Than
  | Greater_Equal
  | Value_Error
  | Int_From_Float
  | Int_Parsing
  | Float_Parsing

type_synonym field_errors = "(string \<times> verr) list"

subsection \<open>\<^verbatim>\<open>ProductCreate\<close>\<close>

record ProductCreate_json =
  cj_product_name :: "string json_field"
  cj_price :: "rat json_field"
  cj_stock_quantity :: "int json_field"

record ProductCreate =
  pc_product_name :: string
  pc_price :: rat
  pc_stock_quantity :: int

text \<open>The \<^verbatim>\<open>field_validator\<close> of \<^verbatim>\<open>product_name\<close> (schemas.py, lines 11 to 16).\<close>

definition validate_product_name :: "string \<Rightarrow> (verr, string) result" where
  "validate_product_name value =
     (if py_strip value = [] then Inl Value_Error else Inr (py_strip value))"

text \<open>
  \<^verbatim>\<open>product_name: str = Field(..., min_length=2, max_length=100)\<close>. The
  length constraints belong to the field's core schema and are checked first;
  the validator runs in pydantic's default \<^verbatim>\<open>after\<close> mode, only on a value
  that passed them, and its result is the field's value.
\<close>

definition check_product_name :: "string json_field \<Rightarrow> (verr, string) result" where
  "check_product_name f =
     (case f of
        Omitted \<Rightarrow> Inl Missing
      | Null \<Rightarrow> Inl Wrong_Type
      | Val s \<Rightarrow>
          if length s < 2 then Inl String_Too_Short
          else if 100 < length s then Inl String_Too_Long
          else validate_product_name s)"

text \<open>\<^verbatim>\<open>price: float = Field(..., gt=0)\<close>\<close>

definition check_price :: "rat json_field \<Rightarrow> (verr, rat) result" where
  "check_price f =
     (case f of
        Omitted \<Rightarrow> Inl Missing
      | Null \<Rightarrow> Inl Wrong_Type
      | Val p \<Rightarrow> if 0 < p then Inr p else Inl Greater_Than)"

text \<open>\<^verbatim>\<open>stock_quantity: int = Field(..., ge=0)\<close>\<close>

definition check_stock_quantity :: "int json_field \<Rightarrow> (verr, int) result" where
  "check_stock_quantity f =
     (case f of
        Omitted \<Rightarrow> Inl Missing
      | Null \<Rightarrow> Inl Wrong_Type
      | Val n \<Rightarrow> if 0 \<le> n then Inr n else Inl Greater_Equal)"

definition field_error :: "string \<Rightarrow> (verr, 'a) result \<Rightarrow> field_errors" where
  "field_error loc r = (case r of Inl e \<Rightarrow> [(loc, e)] | Inr _ \<Rightarrow> [])"

text \<open>
  Model validation checks every field in declaration order and reports the
  errors of all of them together; it builds the model only when none failed.
\<close>

definition ProductCreate_validate :: "ProductCreate_json \<Rightarrow> (field_errors, ProductCreate) result" where
  "ProductCreate_validate j =
     (case (check_product_name (cj_product_name j), check_price (cj_price j),
            check_stock_quantity (cj_stock_quantity j)) of
        (Inr n, Inr p, Inr s) \<Rightarrow>
          Inr \<lparr>pc_product_name = n, pc_price = p, pc_stock_quantity = s\<rparr>
      | (rn, rp, rs) \<Rightarrow>
          Inl (field_error ''product_name'' rn @ field_error ''price'' rp
               @ field_error ''stock_quantity'' rs))"

subsection \<open>\<^verbatim>\<open>ProductUpdate\<close>\<close>

record ProductUpdate_json =
  uj_price :: "rat json_field"
  uj_stock_quantity :: "int json_field"

record ProductUpdate =
  pu_price :: "rat option"
  pu_stock_quantity :: "int option"

text \<open>
  \<^verbatim>\<open>price: Optional[float] = Field(None, gt=0)\<close>: an omitted field takes the
  default \<^verbatim>\<open>None\<close>; an explicit \<^verbatim>\<open>null\<close> is admitted by \<^verbatim>\<open>Optional\<close>
  and the constraint is not applied to it.
\<close>

definition check_opt_price :: "rat json_field \<Rightarrow> (verr, rat option) result" where
  "check_opt_price f =
     (case f of
        Omitted \<Rightarrow> Inr None
      | Null \<Rightarrow> Inr None
      | Val p \<Rightarrow> if 0 < p then Inr (Some p) else Inl Greater_Than)"

definition check_opt_stock_quantity :: "int json_field \<Rightarrow> (verr, int option) result" where
  "check_opt_stock_quantity f =
     (case f of
        Omitted \<Rightarrow> Inr None
      | Null \<Rightarrow> Inr None
      | Val n \<Rightarrow> if 0 \<le> n then Inr (Some n) else Inl Greater_Equal)"

definition ProductUpdate_validate :: "ProductUpdate_json \<Rightarrow> (field_errors, ProductUpdate) result" where
  "ProductUpdate_validate j =
     (case (check_opt_price (uj_price j), check_opt_stock_quantity (uj_stock_quantity j)) of
        (Inr p, Inr s) \<Rightarrow> Inr \<lparr>pu_price = p, pu_stock_quantity = s\<rparr>
      | (rp, rs) \<Rightarrow> Inl (field_error ''price'' rp @ field_error ''stock_quantity'' rs))"

subsection \<open>\<^verbatim>\<open>ProductResponse\<close>\<close>

text \<open>
  The outbound representation (schemas.py, lines 24 to 31). It is built from
  the ORM row by \<^verbatim>\<open>from_attributes\<close>; that conversion is in the handlers'
  theory, which knows the row type.
\<close>

record ProductResponse =
  resp_id :: int
  resp_product_name :: string
  resp_price :: rat
  resp_stock_quantity :: int

lemmas schema_defs [model_defs] =
  py_strip_def validate_product_name_def check_product_name_def check_price_def
  check_stock_quantity_def field_error_def ProductCreate_validate_def
  check_opt_price_def check_opt_stock_quantity_def ProductUpdate_validate_def

subsection \<open>Properties of \<^verbatim>\<open>str.strip\<close>\<close>

lemma dropWhile_keep_hd:
  "xs = [] \<or> \<not> P (hd xs) \<Longrightarrow> dropWhile P xs = xs"
  by (cases xs) auto

lemma last_dropWhile:
  "dropWhile P xs \<noteq> [] \<Longrightarrow> last (dropWhile P xs) = last xs"
  by (induction xs) auto

lemma py_strip_ends:
  "py_strip s \<noteq> [] \<Longrightarrow>
     \<not> py_isspace (hd (py_strip s)) \<and> \<not> py_isspace (last (py_strip s))"
proof -
  let ?d = "dropWhile py_isspace s"
  let ?e = "dropWhile py_isspace (rev ?d)"
  assume ne: "py_strip s \<noteq> []"
  then have e: "?e \<noteq> []" by (simp add: py_strip_def)
  have d: "?d \<noteq> []"
  proof
    assume "?d = []"
    with e show False by simp
  qed
  have "last (py_strip s) = hd ?e"
    using e by (simp add: py_strip_def last_rev)
  moreover have "\<not> py_isspace (hd ?e)"
    using e hd_dropWhile by blast
  moreover have "hd (py_strip s) = hd ?d"
    using e d by (simp add: py_strip_def hd_rev last_dropWhile last_rev)
  moreover have "\<not> py_isspace (hd ?d)"
    using d hd_dropWhile by blast
  ultimately show ?thesis by simp
qed

lemma py_strip_decomp:
  "\<exists>a b. s = a @ py_strip s @ b \<and> (\<forall>c \<in> set a. py_isspace c) \<and> (\<forall>c \<in> set b. py_isspace c)"
proof -
  let ?d = "dropWhile py_isspace s"
  let ?a = "takeWhile py_isspace s"
  let ?b = "rev (takeWhile py_isspace (rev ?d))"
  have "rev ?d = takeWhile py_isspace (rev ?d) @ dropWhile py_isspace (rev ?d)"
    by simp
  then have "?d = rev (dropWhile py_isspace (rev ?d)) @ ?b"
    by (metis rev_append rev_rev_ident)
  then have "?d = py_strip s @ ?b" by (simp only: py_strip_def)
  then have "s = ?a @ py_strip s @ ?b"
    by (metis takeWhile_dropWhile_id)
  moreover have "\<forall>c \<in> set ?a. py_isspace c" by (auto dest: set_takeWhileD)
  moreover have "\<forall>c \<in> set ?b. py_isspace c" by (auto dest: set_takeWhileD)
  ultimately show ?thesis by blast
qed

lemma py_strip_length: "length (py_strip s) \<le> length s"
proof -
  obtain a b where "s = a @ py_strip s @ b"
    using py_strip_decomp by blast
  then have "length s = length a + length (py_strip s) + length b"
    by (metis length_append add.assoc)
  then show ?thesis by simp
qed

text \<open>
  \<^verbatim>\<open>str.strip\<close> removes exactly surrounding whitespace: the input is
  the result with a whitespace prefix and a whitespace suffix around it, and a
  non-empty result neither starts nor ends with whitespace.
\<close>

lemma py_strip_spec:
  "\<exists>a b. s = a @ py_strip s @ b \<and> (\<forall>c \<in> set a. py_isspace c) \<and> (\<forall>c \<in> set b. py_isspace c) \<and>
     (py_strip s = [] \<or> \<not> py_isspace (hd (py_strip s)) \<and> \<not> py_isspace (last (py_strip s)))"
  using py_strip_decomp [of s] py_strip_ends [of s] by blast

lemma py_strip_strip [simp]: "py_strip (py_strip s) = py_strip s"
proof (cases "py_strip s = []")
  case True
  then show ?thesis by (simp add: py_strip_def [of "[]"])
next
  case False
  have "\<not> py_isspace (hd (py_strip s))" and "\<not> py_isspace (last (py_strip s))"
    using py_strip_ends [OF False] by auto
  then have "dropWhile py_isspace (py_strip s) = py_strip s"
    and "dropWhile py_isspace (rev (py_strip s)) = rev (py_strip s)"
    by (simp_all add: dropWhile_keep_hd hd_rev)
  then show ?thesis by (simp only: py_strip_def [of "py_strip s"] rev_rev_ident)
qed

subsection \<open>Properties of the validators\<close>

lemma ProductCreate_validate_Inr:
  "ProductCreate_validate j = Inr p \<longleftrightarrow>
     check_product_name (cj_product_name j) = Inr (pc_product_name p) \<and>
     check_price (cj_price j) = Inr (pc_price p) \<and>
     check_stock_quantity (cj_stock_quantity j) = Inr (pc_stock_quantity p)"
  by (auto simp: ProductCreate_validate_def split: sum.splits)

lemma check_product_name_Inr:
  "check_product_name f = Inr n \<longleftrightarrow>
     (\<exists>s. f = Val s \<and> 2 \<le> length s \<and> length s \<le> 100 \<and> py_strip s \<noteq> [] \<and> n = py_strip s)"
  by (auto simp: check_product_name_def validate_product_name_def
      split: json_field.splits if_splits)

lemma ProductCreate_validate_Inl_price:
  "check_price (cj_price j) = Inl e \<Longrightarrow>
     \<exists>errs. ProductCreate_validate j = Inl errs \<and> (''price'', e) \<in> set errs"
  by (auto simp: ProductCreate_validate_def field_error_def split: sum.splits)

lemma ProductCreate_validate_Inl_stock:
  "check_stock_quantity (cj_stock_quantity j) = Inl e \<Longrightarrow>
     \<exists>errs. ProductCreate_validate j = Inl errs \<and> (''stock_quantity'', e) \<in> set errs"
  by (auto simp: ProductCreate_validate_def field_error_def split: sum.splits)

lemma ProductCreate_validate_sound_rule:
  assumes "ProductCreate_validate j = Inr p"
  shows "0 < pc_price p \<and> 0 \<le> pc_stock_quantity p \<and> pc_product_name p \<noteq> [] \<and>
     py_strip (pc_product_name p) = pc_product_name p \<and> length (pc_product_name p) \<le> 100"
proof -
  from assms have n: "check_product_name (cj_product_name j) = Inr (pc_product_name p)"
    and pr: "check_price (cj_price j) = Inr (pc_price p)"
    and st: "check_stock_quantity (cj_stock_quantity j) = Inr (pc_stock_quantity p)"
    by (simp_all add: ProductCreate_validate_Inr)
  from n obtain s where "length s \<le> 100" "py_strip s \<noteq> []" "pc_product_name p = py_strip s"
    by (auto simp: check_product_name_Inr)
  moreover have "length (py_strip s) \<le> length s" by (rule py_strip_length)
  ultimately show ?thesis using pr st
    by (auto simp: check_price_def check_stock_quantity_def split: json_field.splits if_splits)
qed

text \<open>
  C12. What a validated creation payload guarantees to the handler: the price
  and stock are the values sent, the price positive and the stock
  non-negative; the name is the sent name stripped, non-empty, already
  stripped and at most 100 code points long, and the sent name was 2 to 100
  code points long.
\<close>

theorem ProductCreate_validate_sound:
  assumes "ProductCreate_validate j = Inr p"
  shows "cj_price j = Val (pc_price p) \<and> 0 < pc_price p \<and>
     cj_stock_quantity j = Val (pc_stock_quantity p) \<and> 0 \<le> pc_stock_quantity p \<and>
     (\<exists>s. cj_product_name j = Val s \<and> 2 \<le> length s \<and> length s \<le> 100 \<and>
          pc_product_name p = py_strip s) \<and>
     pc_product_name p \<noteq> [] \<and> py_strip (pc_product_name p) = pc_product_name p \<and>
     length (pc_product_name p) \<le> 100"
proof -
  from assms have n: "check_product_name (cj_product_name j) = Inr (pc_product_name p)"
    and pr: "check_price (cj_price j) = Inr (pc_price p)"
    and st: "check_stock_quantity (cj_stock_quantity j) = Inr (pc_stock_quantity p)"
    by (simp_all add: ProductCreate_validate_Inr)
  from n have "\<exists>s. cj_product_name j = Val s \<and> 2 \<le> length s \<and> length s \<le> 100 \<and>
      pc_product_name p = py_strip s"
    by (auto simp: check_product_name_Inr)
  moreover from pr st have "cj_price j = Val (pc_price p)" "cj_stock_quantity j = Val (pc_stock_quantity p)"
    by (auto simp: check_price_def check_stock_quantity_def split: json_field.splits if_splits)
  ultimately show ?thesis using ProductCreate_validate_sound_rule [OF assms] by blast
qed

theorem ProductCreate_validate_sound_witness:
  "ProductCreate_validate \<lparr>cj_product_name = Val '' Widget '', cj_price = Val (999 / 100),
       cj_stock_quantity = Val 10\<rparr>
     = Inr \<lparr>pc_product_name = ''Widget'', pc_price = 999 / 100, pc_stock_quantity = 10\<rparr> \<and>
   0 < (999 / 100 :: rat) \<and> 0 \<le> (10 :: int) \<and>
   (\<exists>s. Val '' Widget '' = Val s \<and> 2 \<le> length s \<and> length s \<le> 100 \<and> ''Widget'' = py_strip s) \<and>
   ''Widget'' \<noteq> [] \<and> py_strip ''Widget'' = ''Widget'' \<and> length ''Widget'' \<le> 100"
proof -
  have v: "ProductCreate_validate \<lparr>cj_product_name = Val '' Widget '', cj_price = Val (999 / 100),
       cj_stock_quantity = Val 10\<rparr>
     = Inr \<lparr>pc_product_name = ''Widget'', pc_price = 999 / 100, pc_stock_quantity = 10\<rparr>"
    by (simp add: model_defs py_isspace_def)
  have ps: "py_strip '' Widget '' = ''Widget''" by (simp add: py_strip_def py_isspace_def)
  show ?thesis using ProductCreate_validate_sound [OF v] v by (simp add: ps)
qed

text \<open>
  The length limits of \<^verbatim>\<open>product_name\<close> are checked on the name as sent,
  before the validator strips it: a name that is one code point long after
  stripping is accepted and becomes the stored name, although the payload
  contract asks for 2 to 100 code points after trimming.
\<close>

theorem ProductCreate_accepts_one_char_name:
  "ProductCreate_validate \<lparr>cj_product_name = Val '' a '', cj_price = Val 1, cj_stock_quantity = Val 1\<rparr>
     = Inr \<lparr>pc_product_name = ''a'', pc_price = 1, pc_stock_quantity = 1\<rparr> \<and> length ''a'' = 1"
  by (simp add: model_defs py_isspace_def)

text \<open>
  C14. In an update payload an explicit \<^verbatim>\<open>null\<close> validates exactly like an
  omitted field, for either field: the contract's requirement that omission be
  distinguishable from an explicit null is not met.
\<close>

theorem ProductUpdate_null_is_omitted:
  "ProductUpdate_validate (j\<lparr>uj_price := Null\<rparr>) = ProductUpdate_validate (j\<lparr>uj_price := Omitted\<rparr>) \<and>
   ProductUpdate_validate (j\<lparr>uj_stock_quantity := Null\<rparr>) =
     ProductUpdate_validate (j\<lparr>uj_stock_quantity := Omitted\<rparr>)"
  by (simp add: ProductUpdate_validate_def check_opt_price_def check_opt_stock_quantity_def)

lemma ProductUpdate_validate_Inr:
  "ProductUpdate_validate j = Inr u \<Longrightarrow>
     (\<forall>p. pu_price u = Some p \<longrightarrow> 0 < p) \<and> (\<forall>n. pu_stock_quantity u = Some n \<longrightarrow> 0 \<le> n)"
  by (auto simp: ProductUpdate_validate_def check_opt_price_def check_opt_stock_quantity_def
      split: sum.splits json_field.splits if_splits)


lemma ProductUpdate_validate_fields:
  "ProductUpdate_validate j = Inr u \<Longrightarrow>
     pu_price u = (case uj_price j of Val v \<Rightarrow> Some v | _ \<Rightarrow> None) \<and>
     pu_stock_quantity u = (case uj_stock_quantity j of Val n \<Rightarrow> Some n | _ \<Rightarrow> None)"
  by (auto simp: ProductUpdate_validate_def check_opt_price_def check_opt_stock_quantity_def
      split: sum.splits json_field.splits if_splits)

end
