(* ===== verification/Models.thy ===== *)
theory Models
  imports Prelude
begin

text \<open>
  The record schema of \<^verbatim>\<open>src/models.py\<close> and the storage operations the
  handlers of \<^verbatim>\<open>src/main.py\<close> perform on it through the SQLAlchemy session.
  A row is the record \<open>Product\<close>; the table is the list of its rows in heap
  order together with the next value of the \<^verbatim>\<open>SERIAL\<close> sequence that numbers
  them. The column types are coerced as PostgreSQL coerces an inserted or
  updated value (\<^verbatim>\<open>String(100)\<close>, \<^verbatim>\<open>Numeric(10, 2)\<close>, \<^verbatim>\<open>Integer\<close>), and the
  table's constraints (primary key, unique name, the two check constraints) are
  checked on every write, with the driver's exception as the error value. The
  lemmas show that every write keeps the storage invariant whatever the
  application sends, and pin down the numeric coercions.
\<close>

subsection \<open>Errors of the database driver\<close>

text \<open>
  The constraints of the table, by the names PostgreSQL gives them, and the two
  exception classes of the driver that a write can raise: \<^verbatim>\<open>DataError\<close> for a
  value that does not fit its column (or an exhausted sequence), and
  \<^verbatim>\<open>IntegrityError\<close> for a violated constraint.
\<close>

datatype constraint_name =
    products_pkey
  | products_product_name_key
  | price_non_negative
  | stock_non_negative

datatype db_error = DataError | IntegrityError constraint_name

subsection \<open>Column types\<close>

definition int4_min :: int where
  "int4_min = - (2 ^ 31)"

definition int4_max :: int where
  "int4_max = 2 ^ 31 - 1"

text \<open>\<^verbatim>\<open>Integer\<close> is PostgreSQL's 32-bit \<^verbatim>\<open>integer\<close>: an out-of-range value is an error.\<close>

definition coerce_int4 :: "int \<Rightarrow> (db_error, int) result" where
  "coerce_int4 n = (if int4_min \<le> n \<and> n \<le> int4_max then Inr n else Inl DataError)"

text \<open>
  \<^verbatim>\<open>Numeric(p, s)\<close> rounds to \<open>s\<close> fractional digits, half away from zero,
  and rejects a rounded value with more than \<open>p - s\<close> integral digits.
\<close>

definition numeric_round :: "nat \<Rightarrow> rat \<Rightarrow> rat" where
  "numeric_round scale x = sgn x * of_int \<lfloor>\<bar>x\<bar> * 10 ^ scale + 1 / 2\<rfloor> / 10 ^ scale"

definition coerce_numeric :: "nat \<Rightarrow> nat \<Rightarrow> rat \<Rightarrow> (db_error, rat) result" where
  "coerce_numeric precision scale x =
     (let r = numeric_round scale x
      in if 10 ^ (precision - scale) \<le> \<bar>r\<bar> then Inl DataError else Inr r)"

text \<open>
  \<^verbatim>\<open>String(n)\<close> is \<^verbatim>\<open>varchar(n)\<close>: a longer value is an error, unless the
  excess characters are all spaces, which are then cut off.
\<close>

definition coerce_varchar :: "nat \<Rightarrow> string \<Rightarrow> (db_error, string) result" where
  "coerce_varchar n s =
     (if length s \<le> n then Inr s
      else if list_all (\<lambda>c. c = CHR '' '') (drop n s) then Inr (take n s)
      else Inl DataError)"

subsection \<open>The \<^verbatim>\<open>products\<close> table\<close>

record Product =
  id' :: int
  product_name :: string
  price :: rat
  stock_quantity :: int

record products_table =
  rows :: "Product list"
  seq_next :: int

text \<open>\<^verbatim>\<open>Base.metadata.create_all\<close> creates the table empty, its sequence at 1.\<close>

definition empty_table :: products_table where
  "empty_table = \<lparr>rows = [], seq_next = 1\<rparr>"

text \<open>
  The values of the two mutable columns as stored: \<^verbatim>\<open>price\<close> as
  \<^verbatim>\<open>Numeric(10, 2)\<close>, \<^verbatim>\<open>stock_quantity\<close> as \<^verbatim>\<open>Integer\<close>.
\<close>

definition coerce_price_stock :: "rat \<Rightarrow> int \<Rightarrow> (db_error, rat \<times> int) result" where
  "coerce_price_stock p s =
     (case coerce_numeric 10 2 p of
        Inl e \<Rightarrow> Inl e
      | Inr p' \<Rightarrow> (case coerce_int4 s of Inl e \<Rightarrow> Inl e | Inr s' \<Rightarrow> Inr (p', s')))"

text \<open>
  The constraints of a written row against the other rows of the table: the
  two \<^verbatim>\<open>CheckConstraint\<close>s, the primary key and \<^verbatim>\<open>unique=True\<close> on the name.
  The check constraints are tested first, in the order of their names, then
  the unique indexes.
\<close>

definition check_row :: "Product \<Rightarrow> Product list \<Rightarrow> (db_error, unit) result" where
  "check_row r others =
     (if price r < 0 then Inl (IntegrityError price_non_negative)
      else if stock_quantity r < 0 then Inl (IntegrityError stock_non_negative)
      else if id' r \<in> set (map id' others) then Inl (IntegrityError products_pkey)
      else if product_name r \<in> set (map product_name others)
        then Inl (IntegrityError products_product_name_key)
      else Inr ())"

subsection \<open>Queries and writes\<close>

text \<open>
  \<^verbatim>\<open>db.query(Product).filter(...).first()\<close> for the two filters of the handlers.
  \<^verbatim>\<open>first()\<close> returns some matching row; the unique constraints leave at most
  one.
\<close>

definition query_by_name :: "string \<Rightarrow> products_table \<Rightarrow> Product option" where
  "query_by_name n t = find (\<lambda>r. product_name r = n) (rows t)"

definition query_by_id :: "int \<Rightarrow> products_table \<Rightarrow> Product option" where
  "query_by_id i t = find (\<lambda>r. id' r = i) (rows t)"

text \<open>
  \<^verbatim>\<open>db.add(new_product); db.commit(); db.refresh(new_product)\<close>. The flush
  issues one \<^verbatim>\<open>INSERT ... RETURNING id\<close> with the values inlined: a value that
  does not fit its column fails while the statement is planned, before the
  sequence is read; an exhausted sequence fails in \<^verbatim>\<open>nextval\<close>; a violated
  constraint fails after \<^verbatim>\<open>nextval\<close>, whose increment survives the rollback.
  The refresh reads the stored row back.
\<close>

definition insert_product ::
  "string \<Rightarrow> rat \<Rightarrow> int \<Rightarrow> products_table \<Rightarrow> (db_error, Product) result \<times> products_table" where
  "insert_product n p s t =
     (case coerce_varchar 100 n of
        Inl e \<Rightarrow> (Inl e, t)
      | Inr n' \<Rightarrow>
          (case coerce_price_stock p s of
             Inl e \<Rightarrow> (Inl e, t)
           | Inr (p', s') \<Rightarrow>
               if int4_max < seq_next t then (Inl DataError, t)
               else
                 (let r = \<lparr>id' = seq_next t, product_name = n', price = p', stock_quantity = s'\<rparr>;
                      t' = t\<lparr>seq_next := seq_next t + 1\<rparr>
                  in case check_row r (rows t) of
                       Inl e \<Rightarrow> (Inl e, t')
                     | Inr _ \<Rightarrow> (Inr r, t'\<lparr>rows := rows t @ [r]\<rparr>))))"

text \<open>
  \<^verbatim>\<open>db.commit(); db.refresh(product)\<close> after the handler assigned the new
  price and stock to the loaded row \<open>old\<close>. An object with no changed attribute
  is not flushed; otherwise one \<^verbatim>\<open>UPDATE ... WHERE id = ...\<close> writes the two
  columns, coerced and checked against the other rows.
\<close>

definition update_product_row ::
  "Product \<Rightarrow> rat \<Rightarrow> int \<Rightarrow> products_table \<Rightarrow> (db_error, Product) result \<times> products_table" where
  "update_product_row old p s t =
     (if p = price old \<and> s = stock_quantity old then (Inr old, t)
      else
        (case coerce_price_stock p s of
           Inl e \<Rightarrow> (Inl e, t)
         | Inr (p', s') \<Rightarrow>
             (let r = old\<lparr>price := p', stock_quantity := s'\<rparr>
              in case check_row r (filter (\<lambda>x. id' x \<noteq> id' old) (rows t)) of
                   Inl e \<Rightarrow> (Inl e, t)
                 | Inr _ \<Rightarrow> (Inr r, t\<lparr>rows := map (\<lambda>x. if id' x = id' old then r else x) (rows t)\<rparr>))))"

text \<open>\<^verbatim>\<open>db.delete(product); db.commit()\<close>: \<^verbatim>\<open>DELETE ... WHERE id = ...\<close>.\<close>

definition delete_product_row :: "int \<Rightarrow> products_table \<Rightarrow> products_table" where
  "delete_product_row i t = t\<lparr>rows := filter (\<lambda>x. id' x \<noteq> i) (rows t)\<rparr>"

subsection \<open>The storage invariant\<close>

text \<open>
  What PostgreSQL keeps true of every committed state: unique ids and names,
  the check constraints, every value within its column type, and ids drawn from
  the sequence below its next value.
\<close>

definition row_ok :: "Product \<Rightarrow> bool" where
  "row_ok r \<longleftrightarrow>
     1 \<le> id' r \<and> length (product_name r) \<le> 100 \<and>
     0 \<le> price r \<and> numeric_round 2 (price r) = price r \<and> \<bar>price r\<bar> < 10 ^ 8 \<and>
     0 \<le> stock_quantity r \<and> stock_quantity r \<le> int4_max"

definition table_inv :: "products_table \<Rightarrow> bool" where
  "table_inv t \<longleftrightarrow>
     distinct (map id' (rows t)) \<and> distinct (map product_name (rows t)) \<and>
     (\<forall>r \<in> set (rows t). row_ok r \<and> id' r < seq_next t) \<and>
     1 \<le> seq_next t \<and> seq_next t \<le> int4_max + 1"

lemmas models_defs [model_defs] =
  int4_min_def int4_max_def coerce_int4_def numeric_round_def coerce_numeric_def
  coerce_varchar_def empty_table_def coerce_price_stock_def check_row_def
  query_by_name_def query_by_id_def insert_product_def update_product_row_def
  delete_product_row_def


subsection \<open>Column coercions\<close>

lemma numeric_round_zero [simp]: "numeric_round s 0 = 0"
  by (simp add: numeric_round_def)

lemma numeric_round_nonneg:
  assumes "0 \<le> x"
  shows "0 \<le> numeric_round s x"
proof -
  have "0 \<le> \<lfloor>\<bar>x\<bar> * 10 ^ s + 1 / 2\<rfloor>" by simp
  moreover have "0 \<le> sgn x" using assms by (cases "x = 0") simp_all
  ultimately show ?thesis by (simp add: numeric_round_def)
qed

lemma numeric_round_idem: "numeric_round s (numeric_round s x) = numeric_round s x"
proof (cases "x = 0")
  case True
  then show ?thesis by simp
next
  case False
  define k where "k = \<lfloor>\<bar>x\<bar> * 10 ^ s + 1 / 2\<rfloor>"
  have k0: "0 \<le> k" unfolding k_def by simp
  have r: "numeric_round s x = sgn x * of_int k / 10 ^ s"
    by (simp add: numeric_round_def k_def)
  have abs_r: "\<bar>numeric_round s x\<bar> = of_int k / 10 ^ s"
    using False k0 by (simp add: r abs_mult abs_sgn_eq)
  have fl: "\<lfloor>\<bar>numeric_round s x\<bar> * 10 ^ s + 1 / 2\<rfloor> = k"
    by (simp add: abs_r)
  show ?thesis
  proof (cases "k = 0")
    case True
    then show ?thesis by (simp add: r)
  next
    case False
    with k0 have sg: "sgn (numeric_round s x) = sgn x"
      by (simp add: r sgn_mult)
    have "numeric_round s (numeric_round s x) =
        sgn (numeric_round s x) * of_int \<lfloor>\<bar>numeric_round s x\<bar> * 10 ^ s + 1 / 2\<rfloor> / 10 ^ s"
      by (fact numeric_round_def)
    also have "\<dots> = sgn x * of_int k / 10 ^ s"
      by (simp only: sg fl)
    finally show ?thesis by (simp only: r)
  qed
qed


lemma coerce_numeric_Inr:
  "coerce_numeric prec sc x = Inr r \<longleftrightarrow>
     r = numeric_round sc x \<and> \<bar>numeric_round sc x\<bar> < 10 ^ (prec - sc)"
  by (auto simp: coerce_numeric_def Let_def not_le split: if_splits)

lemma coerce_int4_Inr:
  "coerce_int4 n = Inr m \<longleftrightarrow> m = n \<and> int4_min \<le> n \<and> n \<le> int4_max"
  by (auto simp: coerce_int4_def split: if_splits)

lemma coerce_price_stock_Inr:
  "coerce_price_stock p s = Inr (p', s') \<longleftrightarrow>
     p' = numeric_round 2 p \<and> \<bar>numeric_round 2 p\<bar> < 10 ^ 8 \<and>
     s' = s \<and> int4_min \<le> s \<and> s \<le> int4_max"
  by (auto simp: coerce_price_stock_def coerce_numeric_def coerce_int4_def Let_def
      split: sum.splits if_splits)

lemma coerce_varchar_length: "coerce_varchar n s = Inr s' \<Longrightarrow> length s' \<le> n"
  by (auto simp: coerce_varchar_def split: if_splits)

lemma coerce_varchar_fits: "length s \<le> n \<Longrightarrow> coerce_varchar n s = Inr s"
  by (simp add: coerce_varchar_def)

lemma coercion_errors:
  "coerce_varchar n s = Inl e \<Longrightarrow> e = DataError"
  "coerce_price_stock p q = Inl e \<Longrightarrow> e = DataError"
  by (auto simp: coerce_varchar_def coerce_price_stock_def coerce_numeric_def coerce_int4_def Let_def
      split: if_splits sum.splits)

lemma check_row_Inr:
  "check_row r others = Inr u \<longleftrightarrow>
     0 \<le> price r \<and> 0 \<le> stock_quantity r \<and> id' r \<notin> id' ` set others \<and>
     product_name r \<notin> product_name ` set others"
  by (auto simp: check_row_def split: if_splits)

subsection \<open>Every write keeps the storage invariant\<close>

lemma table_inv_seq_bump [inv_simps]:
  "table_inv t \<Longrightarrow> seq_next t \<le> int4_max \<Longrightarrow> table_inv (t\<lparr>seq_next := seq_next t + 1\<rparr>)"
  by (auto simp: table_inv_def)

lemma table_inv_snoc [inv_simps]:
  assumes "table_inv t" and "row_ok r" and "id' r = seq_next t" and "seq_next t \<le> int4_max"
    and "product_name r \<notin> product_name ` set (rows t)"
  shows "table_inv \<lparr>rows = rows t @ [r], seq_next = seq_next t + 1\<rparr>"
proof -
  have "id' r \<notin> id' ` set (rows t)"
    using assms(1,3) by (auto simp: table_inv_def)
  then show ?thesis using assms by (auto simp: table_inv_def)
qed

lemma insert_product_Inr:
  "insert_product n p s t = (Inr r, t') \<longleftrightarrow>
     (\<exists>n'. coerce_varchar 100 n = Inr n' \<and>
       coerce_price_stock p s = Inr (price r, stock_quantity r) \<and>
       seq_next t \<le> int4_max \<and>
       r = \<lparr>id' = seq_next t, product_name = n', price = price r, stock_quantity = stock_quantity r\<rparr> \<and>
       check_row r (rows t) = Inr () \<and>
       t' = \<lparr>rows = rows t @ [r], seq_next = seq_next t + 1\<rparr>)"
  by (auto simp: insert_product_def Let_def not_less split: sum.splits if_splits)

lemma insert_product_Inr_row:
  "insert_product n p s t = (Inr r, t') \<Longrightarrow>
     id' r = seq_next t \<and> rows t' = rows t @ [r] \<and> coerce_varchar 100 n = Inr (product_name r) \<and>
     price r = numeric_round 2 p \<and> stock_quantity r = s"
  by (auto simp: insert_product_def Let_def coerce_price_stock_Inr split: sum.splits if_splits)

lemma insert_product_Inl:
  "insert_product n p s t = (Inl e, t') \<Longrightarrow> rows t' = rows t \<and> (t' = t \<or> t' = t\<lparr>seq_next := seq_next t + 1\<rparr> \<and> seq_next t \<le> int4_max)"
  by (auto simp: insert_product_def Let_def not_less split: sum.splits if_splits)

lemma table_inv_insert:
  assumes "table_inv t"
  shows "table_inv (snd (insert_product n p s t))"
proof (cases "insert_product n p s t")
  case (Pair res t')
  show ?thesis
  proof (cases res)
    case (Inl e)
    with Pair have "t' = t \<or> t' = t\<lparr>seq_next := seq_next t + 1\<rparr> \<and> seq_next t \<le> int4_max"
      using insert_product_Inl by blast
    with Pair assms show ?thesis by (auto intro: table_inv_seq_bump)
  next
    case (Inr r)
    with Pair obtain n' where n': "coerce_varchar 100 n = Inr n'"
      and ps: "coerce_price_stock p s = Inr (price r, stock_quantity r)"
      and sq: "seq_next t \<le> int4_max"
      and r: "r = \<lparr>id' = seq_next t, product_name = n', price = price r, stock_quantity = stock_quantity r\<rparr>"
      and ck: "check_row r (rows t) = Inr ()"
      and t': "t' = \<lparr>rows = rows t @ [r], seq_next = seq_next t + 1\<rparr>"
      by (auto simp: insert_product_Inr)
    have len: "length (product_name r) \<le> 100"
      using coerce_varchar_length [OF n'] r by (metis Product.select_convs(2))
    have "1 \<le> seq_next t" using assms by (simp add: table_inv_def)
    then have "row_ok r"
      using ps ck len r
      by (auto simp: row_ok_def coerce_price_stock_Inr check_row_Inr numeric_round_idem)
    moreover have "product_name r \<notin> product_name ` set (rows t)"
      using ck by (simp add: check_row_Inr)
    moreover have "id' r = seq_next t" using r by (metis Product.select_convs(1))
    ultimately show ?thesis
      using Pair t' assms sq table_inv_snoc by simp
  qed
qed

lemma update_product_row_Inl:
  "update_product_row old p s t = (Inl e, t') \<Longrightarrow> t' = t"
  by (auto simp: update_product_row_def Let_def split: sum.splits if_splits)

lemma update_product_row_Inr:
  "update_product_row old p s t = (Inr r, t') \<longleftrightarrow>
     (p = price old \<and> s = stock_quantity old \<and> r = old \<and> t' = t) \<or>
     (\<not> (p = price old \<and> s = stock_quantity old) \<and>
      coerce_price_stock p s = Inr (price r, stock_quantity r) \<and>
      r = old\<lparr>price := price r, stock_quantity := stock_quantity r\<rparr> \<and>
      check_row r (filter (\<lambda>x. id' x \<noteq> id' old) (rows t)) = Inr () \<and>
      t' = t\<lparr>rows := map (\<lambda>x. if id' x = id' old then r else x) (rows t)\<rparr>)"
  by (auto simp: update_product_row_def Let_def split: sum.splits if_splits)

lemma table_inv_replace_row [inv_simps]:
  assumes "table_inv t" and "old \<in> set (rows t)" and "row_ok r"
    and "id' r = id' old" and "product_name r = product_name old"
  shows "table_inv (t\<lparr>rows := map (\<lambda>x. if id' x = id' old then r else x) (rows t)\<rparr>)"
proof -
  have d: "distinct (map id' (rows t))" using assms(1) by (simp add: table_inv_def)
  let ?rs = "map (\<lambda>x. if x = old then r else x) (rows t)"
  have eq: "map (\<lambda>x. if id' x = id' old then r else x) (rows t) = ?rs"
    using replace_key_eq_replace_elem [OF d assms(2)] .
  have "map id' ?rs = map id' (rows t)" and "map product_name ?rs = map product_name (rows t)"
    using assms(4,5) by (simp_all only: map_replace_elem_same)
  then have dI: "distinct (map id' ?rs)" and dN: "distinct (map product_name ?rs)"
    using assms(1) by (simp_all only: table_inv_def)
  have "set ?rs \<subseteq> insert r (set (rows t))" by (rule set_replace_elem)
  moreover have "id' r < seq_next t" using assms(1,2,4) by (auto simp: table_inv_def)
  ultimately have ok: "\<forall>x \<in> set ?rs. row_ok x \<and> id' x < seq_next t"
    using assms(1,3) by (auto simp: table_inv_def)
  show ?thesis
    unfolding eq using dI dN ok assms(1) by (simp add: table_inv_def)
qed

lemma table_inv_update:
  assumes "table_inv t" and "old \<in> set (rows t)"
  shows "table_inv (snd (update_product_row old p s t))"
proof (cases "update_product_row old p s t")
  case (Pair res t')
  show ?thesis
  proof (cases res)
    case (Inl e)
    with Pair have "update_product_row old p s t = (Inl e, t')" by simp
    then have "t' = t" by (rule update_product_row_Inl)
    with Pair assms show ?thesis by simp
  next
    case (Inr r)
    show ?thesis
    proof (cases "p = price old \<and> s = stock_quantity old")
      case True
      from Pair Inr True have "t' = t" by (auto simp: update_product_row_Inr)
      with Pair assms show ?thesis by simp
    next
      case False
      with Pair Inr have ps: "coerce_price_stock p s = Inr (price r, stock_quantity r)"
        and r: "r = old\<lparr>price := price r, stock_quantity := stock_quantity r\<rparr>"
        and ck: "check_row r (filter (\<lambda>x. id' x \<noteq> id' old) (rows t)) = Inr ()"
        and t': "t' = t\<lparr>rows := map (\<lambda>x. if id' x = id' old then r else x) (rows t)\<rparr>"
        by (auto simp: update_product_row_Inr)
      have old_ok: "row_ok old" using assms by (simp add: table_inv_def)
      have ids: "id' r = id' old" and names: "product_name r = product_name old"
        by (subst r, simp)+
      have "row_ok r"
        using old_ok ps ck ids names
        by (auto simp: row_ok_def coerce_price_stock_Inr check_row_Inr numeric_round_idem)
      from assms \<open>row_ok r\<close> ids names have "table_inv t'"
        unfolding t' by (rule table_inv_replace_row)
      with Pair show ?thesis by simp
    qed
  qed
qed

lemma table_inv_delete:
  "table_inv t \<Longrightarrow> table_inv (delete_product_row i t)"
  by (auto simp: table_inv_def delete_product_row_def distinct_map_filter)

lemma numeric_round_small:
  assumes "\<bar>x\<bar> * 10 ^ s < 1 / 2"
  shows "numeric_round s x = 0"
proof -
  have "\<lfloor>\<bar>x\<bar> * 10 ^ s + 1 / 2\<rfloor> = 0" using assms by (simp add: floor_eq_iff)
  then show ?thesis by (simp add: numeric_round_def)
qed

lemma numeric_round_error:
  "\<bar>x - numeric_round s x\<bar> \<le> 1 / (2 * 10 ^ s)"
proof -
  define a where "a = \<bar>x\<bar> * 10 ^ s"
  define k where "k = \<lfloor>a + 1 / 2\<rfloor>"
  have lo: "a - 1 / 2 < of_int k" and hi: "of_int k \<le> a + 1 / 2"
    unfolding k_def by linarith+
  have "\<bar>\<bar>x\<bar> - of_int k / 10 ^ s\<bar> = \<bar>a - of_int k\<bar> / 10 ^ s"
    by (simp add: a_def field_simps abs_divide [symmetric])
  also have "\<dots> \<le> (1 / 2) / 10 ^ s"
  proof (rule divide_right_mono)
    show "\<bar>a - of_int k\<bar> \<le> 1 / 2" unfolding abs_le_iff using lo hi by linarith
  qed simp
  finally have b: "\<bar>\<bar>x\<bar> - of_int k / 10 ^ s\<bar> \<le> 1 / (2 * 10 ^ s)" by simp
  have "x - numeric_round s x = sgn x * (\<bar>x\<bar> - of_int k / 10 ^ s)"
    by (simp add: numeric_round_def k_def a_def algebra_simps abs_mult_sgn)
  then have "\<bar>x - numeric_round s x\<bar> \<le> \<bar>\<bar>x\<bar> - of_int k / 10 ^ s\<bar>"
    by (simp add: abs_mult abs_sgn_eq mult_le_cancel_right1)
  with b show ?thesis by linarith
qed

lemma coerce_numeric_10_2_stored:
  assumes "coerce_numeric 10 2 x = Inr r"
  shows "numeric_round 2 r = r \<and> \<bar>r\<bar> < 10 ^ 8 \<and> \<bar>x - r\<bar> \<le> 1 / 200"
proof -
  from assms have r: "r = numeric_round 2 x" and b: "\<bar>numeric_round 2 x\<bar> < 10 ^ 8"
    by (simp_all add: coerce_numeric_Inr)
  have "\<bar>x - numeric_round 2 x\<bar> \<le> 1 / (2 * 10 ^ 2)" by (rule numeric_round_error)
  with r b show ?thesis by (simp add: numeric_round_idem)
qed

text \<open>
  C8. The storage layer keeps its invariant by itself: whatever values the
  application passes, a committed insert, update of a stored row or delete
  leaves ids and names unique, the check constraints true and every value
  within its column type.
\<close>

theorem storage_writes_keep_inv:
  assumes "table_inv t" and "old \<in> set (rows t)"
  shows "table_inv (snd (insert_product n p s t)) \<and>
    table_inv (snd (update_product_row old p s t)) \<and>
    table_inv (delete_product_row i t)"
  using assms table_inv_insert table_inv_update table_inv_delete by blast

theorem storage_writes_keep_inv_witness:
  "table_inv \<lparr>rows = [\<lparr>id' = 1, product_name = ''W'', price = 1, stock_quantity = 2\<rparr>], seq_next = 2\<rparr> \<and>
   \<lparr>id' = 1, product_name = ''W'', price = 1, stock_quantity = 2\<rparr> \<in>
      set (rows \<lparr>rows = [\<lparr>id' = 1, product_name = ''W'', price = 1, stock_quantity = 2\<rparr>], seq_next = 2\<rparr>) \<and>
   table_inv (snd (insert_product ''W'' (-5) (-1)
      \<lparr>rows = [\<lparr>id' = 1, product_name = ''W'', price = 1, stock_quantity = 2\<rparr>], seq_next = 2\<rparr>)) \<and>
   table_inv (snd (update_product_row \<lparr>id' = 1, product_name = ''W'', price = 1, stock_quantity = 2\<rparr>
      (-3) 7 \<lparr>rows = [\<lparr>id' = 1, product_name = ''W'', price = 1, stock_quantity = 2\<rparr>], seq_next = 2\<rparr>)) \<and>
   table_inv (delete_product_row 1 \<lparr>rows = [\<lparr>id' = 1, product_name = ''W'', price = 1, stock_quantity = 2\<rparr>], seq_next = 2\<rparr>)"
proof -
  have inv: "table_inv \<lparr>rows = [\<lparr>id' = 1, product_name = ''W'', price = 1, stock_quantity = 2\<rparr>], seq_next = 2\<rparr>"
    by (simp add: table_inv_def row_ok_def numeric_round_def int4_max_def)
  have mem: "\<lparr>id' = 1, product_name = ''W'', price = 1, stock_quantity = 2\<rparr> \<in>
      set (rows \<lparr>rows = [\<lparr>id' = 1, product_name = ''W'', price = 1, stock_quantity = 2\<rparr>], seq_next = 2\<rparr>)"
    by simp
  show ?thesis
    using storage_writes_keep_inv [OF inv mem, of "''W''" "-5" "-1"]
      storage_writes_keep_inv [OF inv mem, of _ "-3" 7 1] inv mem
    by blast
qed

text \<open>
  C16. What the price column, declared \<^verbatim>\<open>Numeric(10, 2)\<close>, stores: the
  price of a row that an insert or an update writes is its own rounding to
  two decimals (so writing it again stores it unchanged), below \<open>10\<^sup>8\<close>
  in magnitude, and within half a cent of the price sent.
\<close>

theorem stored_price_bounds:
  assumes "table_inv t" and "old \<in> set (rows t)"
  shows "(insert_product n p s t = (Inr r, t') \<longrightarrow>
            numeric_round 2 (price r) = price r \<and> \<bar>price r\<bar> < 10 ^ 8 \<and> \<bar>p - price r\<bar> \<le> 1 / 200) \<and>
         (update_product_row old p s t = (Inr r', t'') \<longrightarrow>
            numeric_round 2 (price r') = price r' \<and> \<bar>price r'\<bar> < 10 ^ 8 \<and> \<bar>p - price r'\<bar> \<le> 1 / 200)"
proof (rule conjI; rule impI)
  assume "insert_product n p s t = (Inr r, t')"
  then have "coerce_numeric 10 2 p = Inr (price r)"
    by (auto simp: insert_product_Inr coerce_price_stock_def split: sum.splits)
  then show "numeric_round 2 (price r) = price r \<and> \<bar>price r\<bar> < 10 ^ 8 \<and> \<bar>p - price r\<bar> \<le> 1 / 200"
    by (rule coerce_numeric_10_2_stored)
next
  assume u: "update_product_row old p s t = (Inr r', t'')"
  have ok: "row_ok old" using assms by (simp add: table_inv_def)
  show "numeric_round 2 (price r') = price r' \<and> \<bar>price r'\<bar> < 10 ^ 8 \<and> \<bar>p - price r'\<bar> \<le> 1 / 200"
  proof (cases "p = price old \<and> s = stock_quantity old")
    case True
    with u ok show ?thesis by (auto simp: update_product_row_Inr row_ok_def)
  next
    case False
    with u have "coerce_numeric 10 2 p = Inr (price r')"
      by (auto simp: update_product_row_Inr coerce_price_stock_def split: sum.splits)
    then show ?thesis by (rule coerce_numeric_10_2_stored)
  qed
qed

theorem stored_price_bounds_witness:
  "table_inv \<lparr>rows = [\<lparr>id' = 1, product_name = ''W'', price = 1, stock_quantity = 2\<rparr>], seq_next = 2\<rparr> \<and> \<lparr>id' = 1, product_name = ''W'', price = 1, stock_quantity = 2\<rparr> \<in> set (rows \<lparr>rows = [\<lparr>id' = 1, product_name = ''W'', price = 1, stock_quantity = 2\<rparr>], seq_next = 2\<rparr>) \<and>
   insert_product ''X'' (9991 / 1000) 5 \<lparr>rows = [\<lparr>id' = 1, product_name = ''W'', price = 1, stock_quantity = 2\<rparr>], seq_next = 2\<rparr> = (Inr \<lparr>id' = 2, product_name = ''X'', price = 999 / 100, stock_quantity = 5\<rparr>, \<lparr>rows = [\<lparr>id' = 1, product_name = ''W'', price = 1, stock_quantity = 2\<rparr>, \<lparr>id' = 2, product_name = ''X'', price = 999 / 100, stock_quantity = 5\<rparr>], seq_next = 3\<rparr>) \<and>
   update_product_row \<lparr>id' = 1, product_name = ''W'', price = 1, stock_quantity = 2\<rparr> (9991 / 1000) 5 \<lparr>rows = [\<lparr>id' = 1, product_name = ''W'', price = 1, stock_quantity = 2\<rparr>], seq_next = 2\<rparr> = (Inr \<lparr>id' = 1, product_name = ''W'', price = 999 / 100, stock_quantity = 5\<rparr>, \<lparr>rows = [\<lparr>id' = 1, product_name = ''W'', price = 999 / 100, stock_quantity = 5\<rparr>], seq_next = 2\<rparr>) \<and>
   numeric_round 2 (999 / 100) = (999 / 100 :: rat) \<and> \<bar>999 / 100 :: rat\<bar> < 10 ^ 8 \<and>
   \<bar>9991 / 1000 - 999 / 100 :: rat\<bar> \<le> 1 / 200"
proof -
  have inv: "table_inv \<lparr>rows = [\<lparr>id' = 1, product_name = ''W'', price = 1, stock_quantity = 2\<rparr>], seq_next = 2\<rparr>"
    by (simp add: table_inv_def row_ok_def numeric_round_def int4_max_def)
  have mem: "\<lparr>id' = 1, product_name = ''W'', price = 1, stock_quantity = 2\<rparr> \<in> set (rows \<lparr>rows = [\<lparr>id' = 1, product_name = ''W'', price = 1, stock_quantity = 2\<rparr>], seq_next = 2\<rparr>)" by simp
  have i: "insert_product ''X'' (9991 / 1000) 5 \<lparr>rows = [\<lparr>id' = 1, product_name = ''W'', price = 1, stock_quantity = 2\<rparr>], seq_next = 2\<rparr> = (Inr \<lparr>id' = 2, product_name = ''X'', price = 999 / 100, stock_quantity = 5\<rparr>, \<lparr>rows = [\<lparr>id' = 1, product_name = ''W'', price = 1, stock_quantity = 2\<rparr>, \<lparr>id' = 2, product_name = ''X'', price = 999 / 100, stock_quantity = 5\<rparr>], seq_next = 3\<rparr>)"
    by (simp add: model_defs Let_def)
  have u: "update_product_row \<lparr>id' = 1, product_name = ''W'', price = 1, stock_quantity = 2\<rparr> (9991 / 1000) 5 \<lparr>rows = [\<lparr>id' = 1, product_name = ''W'', price = 1, stock_quantity = 2\<rparr>], seq_next = 2\<rparr> = (Inr \<lparr>id' = 1, product_name = ''W'', price = 999 / 100, stock_quantity = 5\<rparr>, \<lparr>rows = [\<lparr>id' = 1, product_name = ''W'', price = 999 / 100, stock_quantity = 5\<rparr>], seq_next = 2\<rparr>)"
    by (simp add: model_defs Let_def)
  show ?thesis
    using stored_price_bounds [OF inv mem, of "''X''" "9991 / 1000" 5 "\<lparr>id' = 2, product_name = ''X'', price = 999 / 100, stock_quantity = 5\<rparr>" "\<lparr>rows = [\<lparr>id' = 1, product_name = ''W'', price = 1, stock_quantity = 2\<rparr>, \<lparr>id' = 2, product_name = ''X'', price = 999 / 100, stock_quantity = 5\<rparr>], seq_next = 3\<rparr>" "\<lparr>id' = 1, product_name = ''W'', price = 999 / 100, stock_quantity = 5\<rparr>" "\<lparr>rows = [\<lparr>id' = 1, product_name = ''W'', price = 999 / 100, stock_quantity = 5\<rparr>], seq_next = 2\<rparr>"] inv i u by simp
qed


end
