(* ===== verification/Handlers.thy ===== *)
theory Handlers
  imports Schemas Models
begin

text \<open>
  The five endpoint functions of \<^verbatim>\<open>src/main.py\<close> and the root route. Each
  endpoint receives its validated payload and the database its session is
  bound to, performs its query and its one commit, and returns a value or
  raises. A raise is an \<open>Inl\<close>: an \<^verbatim>\<open>HTTPException\<close> with status and detail,
  or a driver exception escaping from the commit, which the handlers do not
  catch. The table returned is the committed one: it is the table received
  when the handler raised before or at its commit.
\<close>

datatype handler_error =
    HTTPException nat string
  | RequestValidationError field_errors
  | Driver db_error

type_synonym 'a endpoint_result = "(handler_error, 'a) result \<times> products_table"

text \<open>
  \<^verbatim>\<open>ProductResponse\<close> built from the ORM row with \<^verbatim>\<open>from_attributes\<close>.
\<close>

definition ProductResponse_of :: "Product \<Rightarrow> ProductResponse" where
  "ProductResponse_of p =
     \<lparr>resp_id = id' p, resp_product_name = product_name p, resp_price = price p,
      resp_stock_quantity = stock_quantity p\<rparr>"

text \<open>\<^verbatim>\<open>home()\<close>, the root route.\<close>

definition home :: string where
  "home = ''Product Inventory API Running Successfully''"

text \<open>
  \<^verbatim>\<open>create_product\<close>: look the validated name up; an existing row is a 400;
  otherwise insert the row with the name stripped once more.
\<close>

definition create_product :: "ProductCreate \<Rightarrow> products_table \<Rightarrow> ProductResponse endpoint_result" where
  "create_product product db =
     (case query_by_name (pc_product_name product) db of
        Some existing \<Rightarrow> (Inl (HTTPException 400 ''Product already exists''), db)
      | None \<Rightarrow>
          (case insert_product (py_strip (pc_product_name product)) (pc_price product)
                  (pc_stock_quantity product) db of
             (Inl e, db') \<Rightarrow> (Inl (Driver e), db')
           | (Inr new_product, db') \<Rightarrow> (Inr (ProductResponse_of new_product), db')))"

text \<open>\<^verbatim>\<open>get_products\<close>: \<^verbatim>\<open>db.query(Product).all()\<close>, in the table's order.\<close>

definition get_products :: "products_table \<Rightarrow> ProductResponse list endpoint_result" where
  "get_products db = (Inr (map ProductResponse_of (rows db)), db)"

definition get_product :: "int \<Rightarrow> products_table \<Rightarrow> ProductResponse endpoint_result" where
  "get_product product_id db =
     (case query_by_id product_id db of
        None \<Rightarrow> (Inl (HTTPException 404 ''Product not found''), db)
      | Some product \<Rightarrow> (Inr (ProductResponse_of product), db))"

text \<open>
  \<^verbatim>\<open>update_product\<close>: each field that is not \<^verbatim>\<open>None\<close> is assigned to the
  loaded row; the commit writes the row.
\<close>

definition update_product ::
  "int \<Rightarrow> ProductUpdate \<Rightarrow> products_table \<Rightarrow> ProductResponse endpoint_result" where
  "update_product product_id product_data db =
     (case query_by_id product_id db of
        None \<Rightarrow> (Inl (HTTPException 404 ''Product not found''), db)
      | Some product \<Rightarrow>
          (let p = (case pu_price product_data of None \<Rightarrow> price product | Some v \<Rightarrow> v);
               s = (case pu_stock_quantity product_data of
                      None \<Rightarrow> stock_quantity product | Some v \<Rightarrow> v)
           in case update_product_row product p s db of
                (Inl e, db') \<Rightarrow> (Inl (Driver e), db')
              | (Inr r, db') \<Rightarrow> (Inr (ProductResponse_of r), db')))"

definition delete_product :: "int \<Rightarrow> products_table \<Rightarrow> string endpoint_result" where
  "delete_product product_id db =
     (case query_by_id product_id db of
        None \<Rightarrow> (Inl (HTTPException 404 ''Product not found''), db)
      | Some product \<Rightarrow>
          (Inr ''Product deleted successfully'', delete_product_row (id' product) db))"

text \<open>
  The invariant the application adds to the storage invariant: every stored
  name is stripped, as \<^verbatim>\<open>create_product\<close> stores only stripped names and
  \<^verbatim>\<open>update_product\<close> never writes the name.
\<close>

definition app_inv :: "products_table \<Rightarrow> bool" where
  "app_inv t \<longleftrightarrow> table_inv t \<and> (\<forall>r \<in> set (rows t). py_strip (product_name r) = product_name r)"

text \<open>
  The row a PATCH is meant to leave: each field present in the body as the
  column stores it, the other fields and the name and id as they were.
\<close>

definition patched :: "Product \<Rightarrow> ProductUpdate \<Rightarrow> Product" where
  "patched old u =
     old\<lparr>price := (case pu_price u of None \<Rightarrow> price old | Some v \<Rightarrow> numeric_round 2 v),
         stock_quantity := (case pu_stock_quantity u of None \<Rightarrow> stock_quantity old | Some n \<Rightarrow> n)\<rparr>"

text \<open>
  The outbound representation as the stored row makes it: an id drawn from
  the sequence, the stripped name within \<^verbatim>\<open>String(100)\<close>, the price as
  \<^verbatim>\<open>Numeric(10, 2)\<close> holds it, the stock within \<^verbatim>\<open>Integer\<close>, both
  non-negative.
\<close>

definition ProductResponse_ok :: "ProductResponse \<Rightarrow> bool" where
  "ProductResponse_ok r \<longleftrightarrow>
     1 \<le> resp_id r \<and> resp_id r \<le> int4_max \<and>
     py_strip (resp_product_name r) = resp_product_name r \<and> length (resp_product_name r) \<le> 100 \<and>
     0 \<le> resp_price r \<and> numeric_round 2 (resp_price r) = resp_price r \<and> \<bar>resp_price r\<bar> < 10 ^ 8 \<and>
     0 \<le> resp_stock_quantity r \<and> resp_stock_quantity r \<le> int4_max"

text \<open>A small table used by the examples below: one product, created first.\<close>

abbreviation widget_create :: ProductCreate where
  "widget_create \<equiv> \<lparr>pc_product_name = ''Widget'', pc_price = 999 / 100, pc_stock_quantity = 10\<rparr>"

abbreviation widget_row :: Product where
  "widget_row \<equiv> \<lparr>id' = 1, product_name = ''Widget'', price = 999 / 100, stock_quantity = 10\<rparr>"

abbreviation widget_table :: products_table where
  "widget_table \<equiv> \<lparr>rows = [widget_row], seq_next = 2\<rparr>"

lemmas handlers_defs [model_defs] =
  ProductResponse_of_def home_def create_product_def get_products_def get_product_def
  update_product_def delete_product_def

subsection \<open>Queries and the effect of each handler\<close>

lemma query_by_id_Some:
  "query_by_id i t = Some r \<Longrightarrow> r \<in> set (rows t) \<and> id' r = i"
  by (auto simp: query_by_id_def dest: find_key_Some_mem)

lemma query_by_id_None:
  "query_by_id i t = None \<longleftrightarrow> i \<notin> id' ` set (rows t)"
  by (auto simp: query_by_id_def find_key_None)

lemma query_by_id_row:
  "table_inv t \<Longrightarrow> r \<in> set (rows t) \<Longrightarrow> query_by_id (id' r) t = Some r"
  unfolding query_by_id_def table_inv_def by (blast intro: find_key_unique)

lemma query_by_name_None:
  "query_by_name n t = None \<longleftrightarrow> n \<notin> product_name ` set (rows t)"
  by (auto simp: query_by_name_def find_key_None)

lemma row_ok_price_rounded: "row_ok r \<Longrightarrow> numeric_round 2 (price r) = price r"
  by (simp add: row_ok_def)

lemma table_inv_row_ok: "table_inv t \<Longrightarrow> r \<in> set (rows t) \<Longrightarrow> row_ok r"
  by (simp add: table_inv_def)

lemma coerce_varchar_stripped:
  assumes "coerce_varchar n (py_strip s) = Inr s'"
  shows "s' = py_strip s"
proof (cases "length (py_strip s) \<le> n")
  case True
  with assms show ?thesis by (simp add: coerce_varchar_def)
next
  case False
  with assms have sp: "list_all (\<lambda>c. c = CHR '' '') (drop n (py_strip s))"
    by (auto simp: coerce_varchar_def split: if_splits)
  from False have ne: "drop n (py_strip s) \<noteq> []" and "py_strip s \<noteq> []" by auto
  then have "\<not> py_isspace (last (py_strip s))" using py_strip_ends by blast
  moreover have "last (drop n (py_strip s)) = last (py_strip s)"
    using ne by (simp add: last_drop)
  moreover have "last (drop n (py_strip s)) = CHR '' ''"
    using sp ne last_in_set unfolding list_all_iff by blast
  ultimately have "\<not> py_isspace (CHR '' '')" by simp
  moreover have "py_isspace (CHR '' '')" by (simp add: py_isspace_def)
  ultimately show ?thesis by contradiction
qed

lemma create_product_Inr:
  "create_product p t = (Inr resp, t') \<longleftrightarrow>
     query_by_name (pc_product_name p) t = None \<and>
     (\<exists>r. insert_product (py_strip (pc_product_name p)) (pc_price p) (pc_stock_quantity p) t = (Inr r, t') \<and>
          resp = ProductResponse_of r)"
  by (auto simp: create_product_def split: option.splits sum.splits prod.splits)

lemma create_product_Inl:
  "create_product p t = (Inl e, t') \<Longrightarrow> rows t' = rows t"
  by (auto simp: create_product_def dest: insert_product_Inl split: option.splits sum.splits prod.splits)

lemma replace_row_self:
  "table_inv t \<Longrightarrow> old \<in> set (rows t) \<Longrightarrow>
     map (\<lambda>x. if id' x = id' old then old else x) (rows t) = rows t"
proof -
  assume "table_inv t" and old: "old \<in> set (rows t)"
  then have "distinct (map id' (rows t))" by (simp add: table_inv_def)
  from replace_key_eq_replace_elem [OF this old, of old]
  show ?thesis by (simp add: map_idI)
qed

lemma insert_product_rows:
  "x \<in> set (rows (snd (insert_product n p s t))) \<Longrightarrow>
     x \<in> set (rows t) \<or> coerce_varchar 100 n = Inr (product_name x)"
  by (auto simp: insert_product_def Let_def split: sum.splits if_splits)

lemma create_product_snd:
  "snd (create_product p t) = t \<or>
   snd (create_product p t) =
     snd (insert_product (py_strip (pc_product_name p)) (pc_price p) (pc_stock_quantity p) t)"
  by (auto simp: create_product_def split: option.splits sum.splits prod.splits)

lemma app_inv_insert: "app_inv t \<Longrightarrow> app_inv (snd (insert_product (py_strip n) p s t))"
proof -
  assume inv: "app_inv t"
  let ?t = "snd (insert_product (py_strip n) p s t)"
  have "table_inv ?t" using inv by (simp add: app_inv_def table_inv_insert)
  moreover have "\<forall>x \<in> set (rows ?t). py_strip (product_name x) = product_name x"
  proof
    fix x assume "x \<in> set (rows ?t)"
    then have "x \<in> set (rows t) \<or> coerce_varchar 100 (py_strip n) = Inr (product_name x)"
      by (rule insert_product_rows)
    then show "py_strip (product_name x) = product_name x"
      using inv by (auto simp: app_inv_def dest: coerce_varchar_stripped)
  qed
  ultimately show "app_inv ?t" by (simp add: app_inv_def)
qed

lemma app_inv_create: "app_inv t \<Longrightarrow> app_inv (snd (create_product p t))"
  using create_product_snd [of p t] app_inv_insert by auto

lemma update_product_row_rows:
  "x \<in> set (rows (snd (update_product_row old p s t))) \<Longrightarrow>
     x \<in> set (rows t) \<or> product_name x = product_name old"
  by (auto simp: update_product_row_def Let_def split: sum.splits if_splits)

lemma app_inv_update: "app_inv t \<Longrightarrow> app_inv (snd (update_product i u t))"
proof (cases "query_by_id i t")
  case None
  assume "app_inv t"
  with None show ?thesis by (simp add: update_product_def)
next
  case (Some old)
  assume inv: "app_inv t"
  have old: "old \<in> set (rows t)" using Some by (simp add: query_by_id_Some)
  let ?p = "case pu_price u of None \<Rightarrow> price old | Some v \<Rightarrow> v"
  let ?s = "case pu_stock_quantity u of None \<Rightarrow> stock_quantity old | Some v \<Rightarrow> v"
  let ?t = "snd (update_product_row old ?p ?s t)"
  have eq: "snd (update_product i u t) = ?t"
    using Some by (simp add: update_product_def Let_def split: sum.splits prod.splits)
  have "table_inv ?t" using inv old by (simp add: app_inv_def table_inv_update)
  moreover have "\<forall>x \<in> set (rows ?t). py_strip (product_name x) = product_name x"
    using inv old by (auto simp: app_inv_def dest: update_product_row_rows)
  ultimately show ?thesis by (simp add: app_inv_def eq)
qed

lemma rows_delete_product_row: "set (rows (delete_product_row i t)) \<subseteq> set (rows t)"
  by (auto simp: delete_product_row_def)

lemma app_inv_delete_row: "app_inv t \<Longrightarrow> app_inv (delete_product_row i t)"
  using table_inv_delete rows_delete_product_row by (fastforce simp: app_inv_def)

lemma app_inv_delete: "app_inv t \<Longrightarrow> app_inv (snd (delete_product i t))"
  by (simp add: delete_product_def app_inv_delete_row split: option.splits)

subsection \<open>Properties of the handlers\<close>

lemma widget_table_inv: "app_inv widget_table"
  by (simp add: app_inv_def table_inv_def row_ok_def numeric_round_def int4_max_def py_strip_def py_isspace_def)

lemma empty_table_inv: "app_inv empty_table"
  by (simp add: app_inv_def table_inv_def empty_table_def int4_max_def)

lemma widget_create_eval:
  "create_product widget_create empty_table = (Inr (ProductResponse_of widget_row), widget_table)"
  by (simp add: model_defs py_isspace_def Let_def)

lemma create_product_exhausted: "int4_max < seq_next t \<Longrightarrow> snd (create_product p t) = t"
  by (auto simp: create_product_def insert_product_def dest: coercion_errors split: option.splits sum.splits prod.splits)

lemma update_product_row_ids:
  assumes "old \<in> set (rows t)"
  shows "seq_next (snd (update_product_row old p s t)) = seq_next t \<and>
    id' ` set (rows (snd (update_product_row old p s t))) \<subseteq> id' ` set (rows t)"
  using assms by (auto simp: update_product_row_def Let_def split: sum.splits)

lemma update_product_ids:
  "seq_next (snd (update_product i u t)) = seq_next t \<and>
   id' ` set (rows (snd (update_product i u t))) \<subseteq> id' ` set (rows t)"
proof (cases "query_by_id i t")
  case (Some old)
  then have old: "old \<in> set (rows t)" by (simp add: query_by_id_Some)
  have "snd (update_product i u t) =
      snd (update_product_row old (case pu_price u of None \<Rightarrow> price old | Some v \<Rightarrow> v)
        (case pu_stock_quantity u of None \<Rightarrow> stock_quantity old | Some v \<Rightarrow> v) t)"
    using Some by (simp add: update_product_def Let_def split: sum.splits prod.splits)
  with update_product_row_ids [OF old] show ?thesis by simp
qed (simp add: update_product_def)

text \<open>
  C1. A product created through \<^verbatim>\<open>create_product\<close> is found by
  \<^verbatim>\<open>get_product\<close> under the id returned, with the same representation: the
  stripped name, the price as \<^verbatim>\<open>Numeric(10, 2)\<close> stored it, and the stock sent.
\<close>

theorem create_then_get:
  assumes "create_product p t = (Inr resp, t')"
  shows "get_product (resp_id resp) t' = (Inr resp, t') \<and>
    resp_product_name resp = py_strip (pc_product_name p) \<and>
    resp_price resp = numeric_round 2 (pc_price p) \<and>
    resp_stock_quantity resp = pc_stock_quantity p"
proof -
  from assms obtain r where
    ins: "insert_product (py_strip (pc_product_name p)) (pc_price p) (pc_stock_quantity p) t = (Inr r, t')"
    and resp: "resp = ProductResponse_of r"
    by (auto simp: create_product_Inr)
  from ins obtain n' where n': "coerce_varchar 100 (py_strip (pc_product_name p)) = Inr n'"
    and ps: "coerce_price_stock (pc_price p) (pc_stock_quantity p) = Inr (price r, stock_quantity r)"
    and r: "r = \<lparr>id' = seq_next t, product_name = n', price = price r, stock_quantity = stock_quantity r\<rparr>"
    and ck: "check_row r (rows t) = Inr ()"
    and t': "t' = \<lparr>rows = rows t @ [r], seq_next = seq_next t + 1\<rparr>"
    by (auto simp: insert_product_Inr)
  from ck have nin: "id' r \<notin> id' ` set (rows t)" by (simp add: check_row_Inr)
  have "\<forall>y \<in> set (rows t). id' y \<noteq> id' r"
  proof
    fix y assume "y \<in> set (rows t)"
    then show "id' y \<noteq> id' r" using nin by (metis image_eqI)
  qed
  then have "query_by_id (id' r) t' = Some r"
    by (simp add: query_by_id_def t' find_key_append_fresh)
  moreover have "product_name r = py_strip (pc_product_name p)"
    using coerce_varchar_stripped [OF n'] r by (metis Product.select_convs(2))
  ultimately show ?thesis
    using ps resp by (simp add: get_product_def ProductResponse_of_def coerce_price_stock_Inr)
qed

theorem create_then_get_witness:
  "create_product widget_create empty_table = (Inr (ProductResponse_of widget_row), widget_table) \<and>
   get_product 1 widget_table = (Inr (ProductResponse_of widget_row), widget_table)"
  using create_then_get [OF widget_create_eval] widget_create_eval
  by (simp add: ProductResponse_of_def)

text \<open>
  C2. Creating a product whose name equals, after stripping, the name of a
  stored product fails with the 400 \<^verbatim>\<open>Product already exists\<close> and leaves the
  table unchanged.
\<close>

theorem create_duplicate_conflict:
  assumes "app_inv t" and "ProductCreate_validate j = Inr p" and "cj_product_name j = Val s"
    and "r \<in> set (rows t)" and "py_strip (product_name r) = py_strip s"
  shows "create_product p t = (Inl (HTTPException 400 ''Product already exists''), t)"
proof -
  from assms(2) have "check_product_name (cj_product_name j) = Inr (pc_product_name p)"
    by (simp add: ProductCreate_validate_Inr)
  with assms(3) have "pc_product_name p = py_strip s" by (simp add: check_product_name_Inr)
  also have "\<dots> = product_name r" using assms(1,4,5) by (simp add: app_inv_def)
  finally have "query_by_name (pc_product_name p) t \<noteq> None"
    using assms(4) by (auto simp: query_by_name_None)
  then show ?thesis by (auto simp: create_product_def)
qed

theorem create_duplicate_conflict_witness:
  "ProductCreate_validate \<lparr>cj_product_name = Val '' Widget'', cj_price = Val 3, cj_stock_quantity = Val 0\<rparr>
     = Inr \<lparr>pc_product_name = ''Widget'', pc_price = 3, pc_stock_quantity = 0\<rparr> \<and>
   create_product \<lparr>pc_product_name = ''Widget'', pc_price = 3, pc_stock_quantity = 0\<rparr> widget_table =
     (Inl (HTTPException 400 ''Product already exists''), widget_table)"
proof -
  have v: "ProductCreate_validate \<lparr>cj_product_name = Val '' Widget'', cj_price = Val 3, cj_stock_quantity = Val 0\<rparr>
     = Inr \<lparr>pc_product_name = ''Widget'', pc_price = 3, pc_stock_quantity = 0\<rparr>"
    by (simp add: model_defs py_isspace_def Let_def)
  have s: "py_strip (product_name widget_row) = py_strip '' Widget''"
    by (simp add: py_strip_def py_isspace_def)
  show ?thesis
    using create_duplicate_conflict [OF widget_table_inv v _ _ s] v by simp
qed

text \<open>
  C3. For an id no stored row has, \<^verbatim>\<open>get_product\<close>, \<^verbatim>\<open>update_product\<close>
  and \<^verbatim>\<open>delete_product\<close> all fail with the same 404 \<^verbatim>\<open>Product not found\<close>
  and change nothing.
\<close>

theorem absent_id_not_found:
  assumes "i \<notin> id' ` set (rows t)"
  shows "get_product i t = (Inl (HTTPException 404 ''Product not found''), t) \<and>
    update_product i u t = (Inl (HTTPException 404 ''Product not found''), t) \<and>
    delete_product i t = (Inl (HTTPException 404 ''Product not found''), t)"
proof -
  from assms have "query_by_id i t = None" by (simp add: query_by_id_None)
  then show ?thesis by (simp add: get_product_def update_product_def delete_product_def)
qed

theorem absent_id_not_found_witness:
  "get_product 7 widget_table = (Inl (HTTPException 404 ''Product not found''), widget_table) \<and>
   update_product 7 \<lparr>pu_price = Some 1, pu_stock_quantity = None\<rparr> widget_table =
     (Inl (HTTPException 404 ''Product not found''), widget_table) \<and>
   delete_product 7 widget_table = (Inl (HTTPException 404 ''Product not found''), widget_table)"
  using absent_id_not_found [of 7 widget_table "\<lparr>pu_price = Some 1, pu_stock_quantity = None\<rparr>"] by simp

lemma id_patched [simp]: "id' (patched old u) = id' old"
  by (simp add: patched_def)

lemma update_product_fields:
  assumes inv: "table_inv t" and upd: "update_product i u t = (Inr resp, t')"
  shows "\<exists>old \<in> set (rows t). id' old = i \<and> resp = ProductResponse_of (patched old u) \<and>
    rows t' = map (\<lambda>x. if id' x = i then patched old u else x) (rows t)"
proof -
  obtain old where q: "query_by_id i t = Some old"
    using upd by (auto simp: update_product_def split: option.splits)
  then have old: "old \<in> set (rows t)" and i: "id' old = i" by (simp_all add: query_by_id_Some)
  have rnd: "numeric_round 2 (price old) = price old"
    using inv old by (simp add: table_inv_row_ok row_ok_price_rounded)
  define p where "p = (case pu_price u of None \<Rightarrow> price old | Some v \<Rightarrow> v)"
  define s where "s = (case pu_stock_quantity u of None \<Rightarrow> stock_quantity old | Some v \<Rightarrow> v)"
  have new_eq: "patched old u = old\<lparr>price := numeric_round 2 p, stock_quantity := s\<rparr>"
    by (simp add: patched_def p_def s_def rnd split: option.splits)
  from upd q obtain r where row: "update_product_row old p s t = (Inr r, t')"
    and resp: "resp = ProductResponse_of r"
    by (auto simp: update_product_def p_def s_def Let_def split: sum.splits prod.splits)
  have "r = patched old u \<and> rows t' = map (\<lambda>x. if id' x = i then patched old u else x) (rows t)"
  proof (cases "p = price old \<and> s = stock_quantity old")
    case True
    with row have r_old: "r = old" and t_eq: "t' = t" by (auto simp: update_product_row_Inr)
    from True rnd have new_old: "patched old u = old" by (simp add: new_eq)
    have "map (\<lambda>x. if id' x = i then patched old u else x) (rows t) = rows t"
      unfolding new_old i [symmetric] by (rule replace_row_self [OF inv old])
    then show ?thesis using r_old t_eq new_old by simp
  next
    case False
    with row have ps: "coerce_price_stock p s = Inr (price r, stock_quantity r)"
      and r: "r = old\<lparr>price := price r, stock_quantity := stock_quantity r\<rparr>"
      and t': "t' = t\<lparr>rows := map (\<lambda>x. if id' x = id' old then r else x) (rows t)\<rparr>"
      by (auto simp: update_product_row_Inr)
    from ps have pr: "price r = numeric_round 2 p" and sr: "stock_quantity r = s"
      by (simp_all add: coerce_price_stock_Inr)
    note r
    also have "old\<lparr>price := price r, stock_quantity := stock_quantity r\<rparr> = patched old u"
      by (simp only: pr sr new_eq)
    finally have "r = patched old u" .
    with t' i show ?thesis by simp
  qed

  with old i resp show ?thesis by auto
qed

lemma insert_product_no_integrity:
  assumes inv: "table_inv t" and p: "0 \<le> p" and s: "0 \<le> s"
    and fresh: "py_strip m \<notin> product_name ` set (rows t)"
  shows "fst (insert_product (py_strip m) p s t) \<noteq> Inl (IntegrityError c)"
proof
  assume e: "fst (insert_product (py_strip m) p s t) = Inl (IntegrityError c)"
  have ids: "\<forall>x \<in> set (rows t). id' x < seq_next t" using inv by (simp add: table_inv_def)
  have vc: "\<forall>n'. coerce_varchar 100 (py_strip m) = Inr n' \<longrightarrow> n' = py_strip m"
    using coerce_varchar_stripped by blast
  have "0 \<le> numeric_round 2 p" using p by (rule numeric_round_nonneg)
  with e ids fresh s vc show False
    by (auto simp: insert_product_def Let_def check_row_def coerce_price_stock_Inr
        dest: coerce_varchar_stripped coercion_errors split: sum.splits if_splits prod.splits)
qed

lemma update_product_row_no_integrity:
  assumes inv: "table_inv t" and old: "old \<in> set (rows t)" and p: "0 \<le> p" and s: "0 \<le> s"
  shows "fst (update_product_row old p s t) \<noteq> Inl (IntegrityError c)"
proof
  assume e: "fst (update_product_row old p s t) = Inl (IntegrityError c)"
  have "product_name old \<notin> product_name ` set (filter (\<lambda>x. id' x \<noteq> id' old) (rows t))"
  proof
    assume "product_name old \<in> product_name ` set (filter (\<lambda>x. id' x \<noteq> id' old) (rows t))"
    then obtain x where x: "x \<in> set (rows t)" "id' x \<noteq> id' old" "product_name x = product_name old" by auto
    have "inj_on product_name (set (rows t))" using inv by (simp add: table_inv_def distinct_map)
    with x old show False by (auto dest: inj_onD)
  qed
  moreover have "0 \<le> numeric_round 2 p" using p by (rule numeric_round_nonneg)
  ultimately show False using e s
    by (auto simp: update_product_row_def Let_def check_row_def coerce_price_stock_Inr
        dest: coercion_errors split: sum.splits if_splits prod.splits)
qed

lemma create_product_no_integrity:
  assumes inv: "table_inv t" and "0 \<le> pc_price p" and "0 \<le> pc_stock_quantity p"
    and strip: "py_strip (pc_product_name p) = pc_product_name p"
  shows "fst (create_product p t) \<noteq> Inl (Driver (IntegrityError c))"
proof (cases "query_by_name (pc_product_name p) t")
  case None
  then have "py_strip (pc_product_name p) \<notin> product_name ` set (rows t)"
    by (simp add: query_by_name_None strip)
  from insert_product_no_integrity [OF inv assms(2,3) this, of c] None show ?thesis
    by (auto simp: create_product_def split: sum.splits prod.splits)
qed (simp add: create_product_def)

lemma update_product_no_integrity:
  assumes inv: "table_inv t" and pos: "\<forall>v. pu_price u = Some v \<longrightarrow> 0 < v" "\<forall>n. pu_stock_quantity u = Some n \<longrightarrow> 0 \<le> n"
  shows "fst (update_product i u t) \<noteq> Inl (Driver (IntegrityError c))"
proof (cases "query_by_id i t")
  case (Some old)
  have old: "old \<in> set (rows t)" using Some by (simp add: query_by_id_Some)
  have ok: "row_ok old" using inv old by (rule table_inv_row_ok)
  let ?p = "case pu_price u of None \<Rightarrow> price old | Some v \<Rightarrow> v"
  let ?s = "case pu_stock_quantity u of None \<Rightarrow> stock_quantity old | Some v \<Rightarrow> v"
  have "0 \<le> ?p" "0 \<le> ?s" using pos ok by (auto simp: row_ok_def split: option.splits)
  from update_product_row_no_integrity [OF inv old this, of c] Some show ?thesis
    by (auto simp: update_product_def Let_def split: sum.splits prod.splits)
qed (simp add: update_product_def)

lemma ProductResponse_ok_row:
  "app_inv t \<Longrightarrow> r \<in> set (rows t) \<Longrightarrow> ProductResponse_ok (ProductResponse_of r)"
  by (auto simp: app_inv_def table_inv_def row_ok_def ProductResponse_ok_def ProductResponse_of_def)

lemma handler_replies_rows:
  "create_product p t = (Inr r, t') \<Longrightarrow> r \<in> ProductResponse_of ` set (rows t')"
  "get_product i t = (Inr r, t') \<Longrightarrow> r \<in> ProductResponse_of ` set (rows t')"
  "get_products t = (Inr rs, t') \<Longrightarrow> set rs \<subseteq> ProductResponse_of ` set (rows t')"
  "table_inv t \<Longrightarrow> update_product i u t = (Inr r, t') \<Longrightarrow> r \<in> ProductResponse_of ` set (rows t')"
proof -
  show "create_product p t = (Inr r, t') \<Longrightarrow> r \<in> ProductResponse_of ` set (rows t')"
    by (auto simp: create_product_Inr dest!: insert_product_Inr_row)
  show "get_product i t = (Inr r, t') \<Longrightarrow> r \<in> ProductResponse_of ` set (rows t')"
    by (auto simp: get_product_def split: option.splits dest: query_by_id_Some)
  show "get_products t = (Inr rs, t') \<Longrightarrow> set rs \<subseteq> ProductResponse_of ` set (rows t')"
    by (auto simp: get_products_def)
  assume inv: "table_inv t" and u: "update_product i u t = (Inr r, t')"
  from update_product_fields [OF inv u] obtain old where "old \<in> set (rows t)" "id' old = i"
    and "r = ProductResponse_of (patched old u)"
    and "rows t' = map (\<lambda>x. if id' x = i then patched old u else x) (rows t)"
    by blast
  then show "r \<in> ProductResponse_of ` set (rows t')" by force
qed


text \<open>
  C5. After \<^verbatim>\<open>delete_product\<close> on an id, whether it existed or not,
  \<^verbatim>\<open>get_product\<close> on the same id fails with 404.
\<close>

theorem delete_then_get_not_found:
  "get_product i (snd (delete_product i t)) =
     (Inl (HTTPException 404 ''Product not found''), snd (delete_product i t))"
proof (cases "query_by_id i t")
  case None
  then show ?thesis by (simp add: delete_product_def get_product_def)
next
  case (Some r)
  then have "id' r = i" by (simp add: query_by_id_Some)
  with Some have "snd (delete_product i t) = delete_product_row i t"
    by (simp add: delete_product_def)
  moreover have "query_by_id i (delete_product_row i t) = None"
    by (simp add: query_by_id_def delete_product_row_def find_key_filter_out)
  ultimately show ?thesis by (simp add: get_product_def)
qed

text \<open>
  The insert of a new valid row, and of a row whose name is already stored
  (the constraint \<^verbatim>\<open>products_product_name_key\<close> rejects it after the
  sequence has handed out its id).
\<close>

lemma insert_product_fresh:
  assumes inv: "table_inv t" and p: "0 \<le> p" and s: "0 \<le> s" and n: "length n \<le> 100"
    and fresh: "n \<notin> product_name ` set (rows t)"
    and pr: "\<bar>numeric_round 2 p\<bar> < 10 ^ 8" and st: "s \<le> int4_max" and sq: "seq_next t \<le> int4_max"
  shows "insert_product n p s t =
    (Inr \<lparr>id' = seq_next t, product_name = n, price = numeric_round 2 p, stock_quantity = s\<rparr>,
     \<lparr>rows = rows t @ [\<lparr>id' = seq_next t, product_name = n, price = numeric_round 2 p, stock_quantity = s\<rparr>],
      seq_next = seq_next t + 1\<rparr>)"
proof -
  have "seq_next t \<notin> id' ` set (rows t)" using inv by (auto simp: table_inv_def)
  then have "check_row \<lparr>id' = seq_next t, product_name = n, price = numeric_round 2 p, stock_quantity = s\<rparr> (rows t) = Inr ()"
    using p s fresh numeric_round_nonneg [OF p, of 2] by (simp add: check_row_def)
  moreover have "coerce_price_stock p s = Inr (numeric_round 2 p, s)"
    using pr st s by (simp add: coerce_price_stock_Inr int4_min_def)
  ultimately show ?thesis using n sq by (simp add: insert_product_def coerce_varchar_fits Let_def not_less)
qed

lemma insert_product_dup_name:
  assumes ids: "\<forall>x \<in> set (rows t). id' x < seq_next t" and p: "0 \<le> p" and s: "0 \<le> s" and n: "length n \<le> 100"
    and dup: "n \<in> product_name ` set (rows t)"
    and pr: "\<bar>numeric_round 2 p\<bar> < 10 ^ 8" and st: "s \<le> int4_max" and sq: "seq_next t \<le> int4_max"
  shows "insert_product n p s t = (Inl (IntegrityError products_product_name_key), t\<lparr>seq_next := seq_next t + 1\<rparr>)"
proof -
  have "seq_next t \<notin> id' ` set (rows t)" using ids by auto
  then have "check_row \<lparr>id' = seq_next t, product_name = n, price = numeric_round 2 p, stock_quantity = s\<rparr> (rows t) =
      Inl (IntegrityError products_product_name_key)"
    using p s dup numeric_round_nonneg [OF p, of 2] by (simp add: check_row_def)
  moreover have "coerce_price_stock p s = Inr (numeric_round 2 p, s)"
    using pr st s by (simp add: coerce_price_stock_Inr int4_min_def)
  ultimately show ?thesis using n sq by (simp add: insert_product_def coerce_varchar_fits Let_def not_less)
qed

text \<open>
  C9. A validated creation with a new name, a price and stock that fit their
  columns, and a sequence that is not exhausted succeeds: the row gets the next
  sequence value as id and is appended to the table.
\<close>

theorem create_product_succeeds:
  assumes inv: "table_inv t" and v: "ProductCreate_validate j = Inr p"
    and fresh: "pc_product_name p \<notin> product_name ` set (rows t)"
    and pr: "\<bar>numeric_round 2 (pc_price p)\<bar> < 10 ^ 8" and st: "pc_stock_quantity p \<le> int4_max"
    and sq: "seq_next t \<le> int4_max"
  shows "create_product p t =
    (Inr \<lparr>resp_id = seq_next t, resp_product_name = pc_product_name p,
          resp_price = numeric_round 2 (pc_price p), resp_stock_quantity = pc_stock_quantity p\<rparr>,
     \<lparr>rows = rows t @ [\<lparr>id' = seq_next t, product_name = pc_product_name p,
                         price = numeric_round 2 (pc_price p), stock_quantity = pc_stock_quantity p\<rparr>],
      seq_next = seq_next t + 1\<rparr>)"
proof -
  have sound: "0 < pc_price p \<and> 0 \<le> pc_stock_quantity p \<and>
      py_strip (pc_product_name p) = pc_product_name p \<and> length (pc_product_name p) \<le> 100"
    using ProductCreate_validate_sound_rule [OF v] by simp
  let ?r = "\<lparr>id' = seq_next t, product_name = pc_product_name p,
             price = numeric_round 2 (pc_price p), stock_quantity = pc_stock_quantity p\<rparr>"
  have "seq_next t \<notin> id' ` set (rows t)" using inv by (auto simp: table_inv_def)
  moreover have "0 \<le> numeric_round 2 (pc_price p)"
    using sound by (simp add: numeric_round_nonneg)
  ultimately have "check_row ?r (rows t) = Inr ()"
    using sound fresh by (simp add: check_row_def)
  moreover have "coerce_price_stock (pc_price p) (pc_stock_quantity p) =
      Inr (numeric_round 2 (pc_price p), pc_stock_quantity p)"
    using pr st sound by (simp add: coerce_price_stock_Inr int4_min_def)
  moreover have "coerce_varchar 100 (pc_product_name p) = Inr (pc_product_name p)"
    using sound by (simp add: coerce_varchar_fits)
  moreover have "query_by_name (pc_product_name p) t = None"
    using fresh by (simp add: query_by_name_None)
  ultimately show ?thesis using sq sound
    by (simp add: create_product_def insert_product_def ProductResponse_of_def Let_def not_less)
qed

theorem create_product_succeeds_witness:
  "create_product widget_create empty_table =
     (Inr \<lparr>resp_id = 1, resp_product_name = ''Widget'', resp_price = 999 / 100, resp_stock_quantity = 10\<rparr>,
      widget_table)"
proof -
  have v: "ProductCreate_validate \<lparr>cj_product_name = Val ''Widget'', cj_price = Val (999 / 100),
      cj_stock_quantity = Val 10\<rparr> = Inr widget_create"
    by (simp add: model_defs py_isspace_def)
  have "table_inv empty_table" using empty_table_inv by (simp add: app_inv_def)
  from create_product_succeeds [OF this v] show ?thesis
    by (simp add: empty_table_def numeric_round_def int4_max_def)
qed

text \<open>
  C17. A validated price that rounds to \<open>10\<^sup>8\<close> or more, or a stock above
  the 32-bit range, passes validation but fails in the driver with
  \<^verbatim>\<open>DataError\<close> (an HTTP 500), and nothing is written.
\<close>

theorem create_product_out_of_range:
  assumes v: "ProductCreate_validate j = Inr p"
    and fresh: "pc_product_name p \<notin> product_name ` set (rows t)"
    and big: "10 ^ 8 \<le> \<bar>numeric_round 2 (pc_price p)\<bar> \<or> int4_max < pc_stock_quantity p"
  shows "create_product p t = (Inl (Driver DataError), t)"
proof -
  have sound: "py_strip (pc_product_name p) = pc_product_name p \<and> length (pc_product_name p) \<le> 100"
    using ProductCreate_validate_sound_rule [OF v] by simp
  have "coerce_price_stock (pc_price p) (pc_stock_quantity p) = Inl DataError"
    using big by (auto simp: coerce_price_stock_def coerce_numeric_def coerce_int4_def Let_def)
  moreover have "coerce_varchar 100 (pc_product_name p) = Inr (pc_product_name p)"
    using sound by (simp add: coerce_varchar_fits)
  moreover have "query_by_name (pc_product_name p) t = None"
    using fresh by (simp add: query_by_name_None)
  ultimately show ?thesis using sound
    by (simp add: create_product_def insert_product_def)
qed

theorem create_product_out_of_range_witness:
  "create_product \<lparr>pc_product_name = ''Yacht'', pc_price = 10 ^ 8, pc_stock_quantity = 1\<rparr> widget_table =
     (Inl (Driver DataError), widget_table) \<and>
   create_product \<lparr>pc_product_name = ''Bolt'', pc_price = 1, pc_stock_quantity = 2 ^ 31\<rparr> widget_table =
     (Inl (Driver DataError), widget_table)"
proof -
  have v1: "ProductCreate_validate \<lparr>cj_product_name = Val ''Yacht'', cj_price = Val (10 ^ 8),
      cj_stock_quantity = Val 1\<rparr> = Inr \<lparr>pc_product_name = ''Yacht'', pc_price = 10 ^ 8, pc_stock_quantity = 1\<rparr>"
    by (simp add: model_defs py_isspace_def)
  have v2: "ProductCreate_validate \<lparr>cj_product_name = Val ''Bolt'', cj_price = Val 1,
      cj_stock_quantity = Val (2 ^ 31)\<rparr> = Inr \<lparr>pc_product_name = ''Bolt'', pc_price = 1, pc_stock_quantity = 2 ^ 31\<rparr>"
    by (simp add: model_defs py_isspace_def)
  show ?thesis
    using create_product_out_of_range [OF v1] create_product_out_of_range [OF v2]
    by (simp add: numeric_round_def int4_max_def)
qed

text \<open>
  C18. \<^verbatim>\<open>get_products\<close> lists every stored product once: one entry per row,
  distinct ids, and exactly the entries \<^verbatim>\<open>get_product\<close> returns for their ids.
\<close>

theorem get_products_lists_all:
  assumes inv: "table_inv t"
  shows "\<exists>rs. get_products t = (Inr rs, t) \<and> length rs = length (rows t) \<and>
    distinct (map resp_id rs) \<and> (\<forall>x. x \<in> set rs \<longleftrightarrow> get_product (resp_id x) t = (Inr x, t))"
proof (intro exI conjI allI)
  let ?rs = "map ProductResponse_of (rows t)"
  show "get_products t = (Inr ?rs, t)" by (simp add: get_products_def)
  show "length ?rs = length (rows t)" by simp
  have "map resp_id ?rs = map id' (rows t)" by (simp add: ProductResponse_of_def)
  moreover have "distinct (map id' (rows t))" using inv by (simp add: table_inv_def)
  ultimately show "distinct (map resp_id ?rs)" by (simp only:)
  fix x
  show "x \<in> set ?rs \<longleftrightarrow> get_product (resp_id x) t = (Inr x, t)"
  proof
    assume "x \<in> set ?rs"
    then obtain r where "r \<in> set (rows t)" and "x = ProductResponse_of r" by auto
    with inv show "get_product (resp_id x) t = (Inr x, t)"
      by (simp add: get_product_def query_by_id_row ProductResponse_of_def)
  next
    assume "get_product (resp_id x) t = (Inr x, t)"
    then obtain r where "query_by_id (resp_id x) t = Some r" and "x = ProductResponse_of r"
      by (auto simp: get_product_def split: option.splits)
    then show "x \<in> set ?rs" by (auto dest: query_by_id_Some)
  qed
qed

theorem get_products_lists_all_witness:
  "get_products widget_table = (Inr [ProductResponse_of widget_row], widget_table) \<and>
   get_product 1 widget_table = (Inr (ProductResponse_of widget_row), widget_table)"
proof -
  have "table_inv widget_table" using widget_table_inv by (simp add: app_inv_def)
  from get_products_lists_all [OF this]
  have "get_product (resp_id (ProductResponse_of widget_row)) widget_table =
      (Inr (ProductResponse_of widget_row), widget_table)"
    by (auto simp: get_products_def)
  then show ?thesis by (simp add: get_products_def ProductResponse_of_def)
qed

end
