(* ===== verification/Database.thy ===== *)
theory Database
  imports Models
begin

text \<open>
  The persistence connector: \<^verbatim>\<open>SessionLocal\<close> of \<^verbatim>\<open>src/database.py\<close> and the
  dependency \<^verbatim>\<open>get_db\<close> of \<^verbatim>\<open>src/main.py\<close>, which opens one session per
  request and closes it in a \<^verbatim>\<open>finally\<close> block. The server state is the
  committed table and the number of sessions open on the engine. FastAPI runs
  the generator up to its \<^verbatim>\<open>yield\<close>, calls the endpoint with the session, and
  then either resumes the generator (normal return) or throws the endpoint's
  exception into it; in both cases the \<^verbatim>\<open>finally\<close> block runs. Closing a
  session discards whatever it did not commit: an endpoint here returns the
  table as committed, so nothing uncommitted outlives it.
\<close>

record server =
  store :: products_table
  open_sessions :: nat

text \<open>\<^verbatim>\<open>SessionLocal()\<close>: a new session bound to the engine.\<close>

definition SessionLocal :: "server \<Rightarrow> server" where
  "SessionLocal st = st\<lparr>open_sessions := Suc (open_sessions st)\<rparr>"

text \<open>\<^verbatim>\<open>db.close()\<close>\<close>

definition session_close :: "server \<Rightarrow> server" where
  "session_close st = st\<lparr>open_sessions := open_sessions st - 1\<rparr>"

text \<open>
  The part of \<^verbatim>\<open>get_db\<close> after its \<^verbatim>\<open>yield\<close>: resumed with the endpoint's
  return value, or with its exception thrown in, the generator runs the
  \<^verbatim>\<open>finally\<close> block and then finishes or re-raises the exception.
\<close>

definition get_db_exit :: "('e, 'a) result \<Rightarrow> server \<Rightarrow> ('e, 'a) result \<times> server" where
  "get_db_exit outcome st =
     (case outcome of
        Inl e \<Rightarrow> (Inl e, session_close st)
      | Inr v \<Rightarrow> (Inr v, session_close st))"

text \<open>
  \<^verbatim>\<open>Depends(get_db)\<close> around an endpoint: open the session, run the endpoint
  on the database it is bound to, record what the endpoint committed, exit the
  generator.
\<close>

definition run_with_db ::
  "(products_table \<Rightarrow> ('e, 'a) result \<times> products_table) \<Rightarrow> server \<Rightarrow> ('e, 'a) result \<times> server" where
  "run_with_db endpoint st =
     (let st1 = SessionLocal st;
          (outcome, committed) = endpoint (store st1)
      in get_db_exit outcome (st1\<lparr>store := committed\<rparr>))"

lemmas database_defs [model_defs] = SessionLocal_def session_close_def get_db_exit_def run_with_db_def

lemma run_with_db_eq:
  "run_with_db endpoint st = (fst (endpoint (store st)), st\<lparr>store := snd (endpoint (store st))\<rparr>)"
proof (cases "endpoint (store st)")
  case (Pair outcome committed)
  then show ?thesis
    by (cases outcome) (simp_all add: run_with_db_def get_db_exit_def SessionLocal_def session_close_def)
qed

text \<open>
  C11. The session bracket is transparent: a request served through
  \<^verbatim>\<open>get_db\<close> returns or raises exactly what its endpoint did, leaves exactly
  what the endpoint committed, and releases its session on every exit path, so
  the number of open sessions is what it was before the request.
\<close>

theorem run_with_db_transparent:
  "fst (run_with_db endpoint st) = fst (endpoint (store st)) \<and>
   store (snd (run_with_db endpoint st)) = snd (endpoint (store st)) \<and>
   open_sessions (snd (run_with_db endpoint st)) = open_sessions st"
  by (simp add: run_with_db_eq)

end
