(* ===== verification/Routes.thy ===== *)
theory Routes
  imports Handlers Database
begin

text \<open>
  The FastAPI application of \<^verbatim>\<open>src/main.py\<close>: the six routes, the request
  body validation FastAPI performs before it calls an endpoint, the
  \<^verbatim>\<open>Depends(get_db)\<close> session around every \<^verbatim>\<open>/products\<close> endpoint, and the
  rendering of a result or an exception as a status code and a JSON body. A
  request arrives with its path parameter already an integer and its body as
  typed fields; theory \<open>Wire\<close> derives them from the path string and the
  decoded JSON, and shows that this server is the one clients call.
\<close>

datatype request =
    GET_root
  | POST_products ProductCreate_json
  | GET_products
  | GET_product int
  | PATCH_product int ProductUpdate_json
  | DELETE_product int

text \<open>
  The JSON bodies the application sends: a product, a list of products, a
  \<^verbatim>\<open>{"message": ...}\<close>, a \<^verbatim>\<open>{"detail": ...}\<close> of an \<^verbatim>\<open>HTTPException\<close>, the
  field errors of a validation failure, and the plain 500 of an unhandled
  exception.
\<close>

datatype body =
    Body_Product ProductResponse
  | Body_Products "ProductResponse list"
  | Body_Message string
  | Body_Detail string
  | Body_Validation field_errors
  | Body_Internal_Server_Error

type_synonym response = "nat \<times> body"

definition error_response :: "handler_error \<Rightarrow> response" where
  "error_response e =
     (case e of
        HTTPException code detail \<Rightarrow> (code, Body_Detail detail)
      | RequestValidationError errs \<Rightarrow> (422, Body_Validation errs)
      | Driver _ \<Rightarrow> (500, Body_Internal_Server_Error))"

definition render :: "('a \<Rightarrow> body) \<Rightarrow> (handler_error, 'a) result \<Rightarrow> response" where
  "render ok r = (case r of Inl e \<Rightarrow> error_response e | Inr v \<Rightarrow> (200, ok v))"

text \<open>
  FastAPI validates the body after it has entered the dependencies, so a
  validation error is raised with the session open and closes it like any
  other exception.
\<close>

definition with_body ::
  "('j \<Rightarrow> (field_errors, 'p) result) \<Rightarrow> 'j \<Rightarrow> ('p \<Rightarrow> products_table \<Rightarrow> 'a endpoint_result) \<Rightarrow>
     products_table \<Rightarrow> 'a endpoint_result" where
  "with_body validate j endpoint db =
     (case validate j of
        Inl errs \<Rightarrow> (Inl (RequestValidationError errs), db)
      | Inr payload \<Rightarrow> endpoint payload db)"

definition serve_endpoint ::
  "('a \<Rightarrow> body) \<Rightarrow> (products_table \<Rightarrow> 'a endpoint_result) \<Rightarrow> server \<Rightarrow> response \<times> server" where
  "serve_endpoint ok endpoint st =
     (case run_with_db endpoint st of (r, st') \<Rightarrow> (render ok r, st'))"

definition serve :: "request \<Rightarrow> server \<Rightarrow> response \<times> server" where
  "serve req st =
     (case req of
        GET_root \<Rightarrow> ((200, Body_Message home), st)
      | POST_products j \<Rightarrow>
          serve_endpoint Body_Product (with_body ProductCreate_validate j create_product) st
      | GET_products \<Rightarrow> serve_endpoint Body_Products get_products st
      | GET_product i \<Rightarrow> serve_endpoint Body_Product (get_product i) st
      | PATCH_product i j \<Rightarrow>
          serve_endpoint Body_Product (with_body ProductUpdate_validate j (update_product i)) st
      | DELETE_product i \<Rightarrow> serve_endpoint Body_Message (delete_product i) st)"

text \<open>A sequence of requests served one after the other.\<close>

fun serve_all :: "request list \<Rightarrow> server \<Rightarrow> response list \<times> server" where
  "serve_all [] st = ([], st)"
| "serve_all (req # reqs) st =
     (let (resp, st') = serve req st; (resps, st'') = serve_all reqs st' in (resp # resps, st''))"

text \<open>A body the response model accepts: every product in it is well formed.\<close>

fun body_ok :: "body \<Rightarrow> bool" where
  "body_ok (Body_Product r) = ProductResponse_ok r"
| "body_ok (Body_Products rs) = list_all ProductResponse_ok rs"
| "body_ok _ = True"

lemmas routes_defs [model_defs] =
  error_response_def render_def with_body_def serve_endpoint_def serve_def

lemma serve_endpoint_eq:
  "serve_endpoint ok endpoint st =
     (render ok (fst (endpoint (store st))), st\<lparr>store := snd (endpoint (store st))\<rparr>)"
  by (simp add: serve_endpoint_def run_with_db_eq)

lemma with_body_snd:
  "snd (with_body validate j endpoint t) = t \<or>
   (\<exists>payload. validate j = Inr payload \<and> snd (with_body validate j endpoint t) = snd (endpoint payload t))"
  by (auto simp: with_body_def split: sum.splits)

lemma serve_sessions: "open_sessions (snd (serve req st)) = open_sessions st"
  by (cases req) (simp_all add: serve_def serve_endpoint_eq)

lemma serve_app_inv:
  assumes "app_inv (store st)"
  shows "app_inv (store (snd (serve req st)))"
proof (cases req)
  case (POST_products j)
  from with_body_snd [of ProductCreate_validate j create_product "store st"]
  show ?thesis using assms POST_products
    by (auto simp: serve_def serve_endpoint_eq intro: app_inv_create)
next
  case (PATCH_product i j)
  from with_body_snd [of ProductUpdate_validate j "update_product i" "store st"]
  show ?thesis using assms PATCH_product
    by (auto simp: serve_def serve_endpoint_eq intro: app_inv_update)
next
  case (DELETE_product i)
  then show ?thesis using assms by (simp add: serve_def serve_endpoint_eq app_inv_delete)
qed (use assms in \<open>simp_all add: serve_def serve_endpoint_eq get_products_def get_product_def
      split: option.splits\<close>)

lemma serve_patch_200:
  "serve (PATCH_product i j) st = ((200, Body_Product resp), st') \<Longrightarrow>
     \<exists>u t'. ProductUpdate_validate j = Inr u \<and> update_product i u (store st) = (Inr resp, t') \<and>
       st' = st\<lparr>store := t'\<rparr>"
  by (auto simp: serve_def serve_endpoint_eq with_body_def render_def error_response_def
      split: sum.splits prod.splits handler_error.splits) (metis prod.collapse)

lemma serve_create_200:
  "fst (serve (POST_products j) st) = (200, Body_Product resp) \<Longrightarrow>
     \<exists>pc. ProductCreate_validate j = Inr pc \<and> create_product pc (store st) = (Inr resp, store (snd (serve (POST_products j) st)))"
  by (auto simp: serve_def serve_endpoint_eq with_body_def render_def error_response_def
      split: sum.splits prod.splits handler_error.splits) (metis prod.collapse)

lemma serve_exhausted:
  assumes "int4_max < seq_next (store st)"
  shows "seq_next (store (snd (serve req st))) = seq_next (store st) \<and>
    id' ` set (rows (store (snd (serve req st)))) \<subseteq> id' ` set (rows (store st))"
proof (cases req)
  case (POST_products j)
  from with_body_snd [of ProductCreate_validate j create_product "store st"]
  show ?thesis using assms POST_products by (auto simp: serve_def serve_endpoint_eq create_product_exhausted)
next
  case (PATCH_product i j)
  from with_body_snd [of ProductUpdate_validate j "update_product i" "store st"] update_product_ids [of i _ "store st"]
  show ?thesis using PATCH_product by (auto simp: serve_def serve_endpoint_eq) blast
next
  case (DELETE_product i)
  then show ?thesis by (auto simp: serve_def serve_endpoint_eq delete_product_def delete_product_row_def
      split: option.splits)
qed (simp_all add: serve_def serve_endpoint_eq get_products_def get_product_def split: option.splits)

text \<open>
  C4. A PATCH answered 200 changes exactly the fields present in its body,
  each to the value as stored; an omitted (or null) field keeps its value, the
  name and id are kept, every other row is unchanged, and the body returned is
  the updated row.
\<close>

theorem patch_updates_present_fields:
  assumes inv: "table_inv (store st)"
    and s: "serve (PATCH_product i j) st = ((200, Body_Product resp), st')"
  shows "\<exists>old \<in> set (rows (store st)). id' old = i \<and>
    (let new = old\<lparr>price := (case uj_price j of Val v \<Rightarrow> numeric_round 2 v | _ \<Rightarrow> price old),
                   stock_quantity := (case uj_stock_quantity j of Val n \<Rightarrow> n | _ \<Rightarrow> stock_quantity old)\<rparr>
     in resp = ProductResponse_of new \<and>
        rows (store st') = map (\<lambda>x. if id' x = i then new else x) (rows (store st)))"
proof -
  from serve_patch_200 [OF s] obtain u t' where v: "ProductUpdate_validate j = Inr u"
    and upd: "update_product i u (store st) = (Inr resp, t')" and st': "st' = st\<lparr>store := t'\<rparr>"
    by blast
  have pe: "(case pu_price u of None \<Rightarrow> p | Some v \<Rightarrow> numeric_round 2 v) =
      (case uj_price j of Val v \<Rightarrow> numeric_round 2 v | _ \<Rightarrow> p)"
    and se: "(case pu_stock_quantity u of None \<Rightarrow> n | Some v \<Rightarrow> v) =
      (case uj_stock_quantity j of Val v \<Rightarrow> v | _ \<Rightarrow> n)" for p n
    using ProductUpdate_validate_fields [OF v] by (auto split: json_field.splits)
  from update_product_fields [OF inv upd] obtain old where old: "old \<in> set (rows (store st))" "id' old = i"
    and r: "resp = ProductResponse_of (patched old u)"
    and rs: "rows t' = map (\<lambda>x. if id' x = i then patched old u else x) (rows (store st))"
    by blast
  have "patched old u = old\<lparr>price := (case uj_price j of Val v \<Rightarrow> numeric_round 2 v | _ \<Rightarrow> price old),
      stock_quantity := (case uj_stock_quantity j of Val n \<Rightarrow> n | _ \<Rightarrow> stock_quantity old)\<rparr>"
    unfolding patched_def pe se ..
  with old r rs st' show ?thesis by (auto simp: Let_def)
qed

theorem patch_updates_present_fields_witness:
  "serve (PATCH_product 1 \<lparr>uj_price = Omitted, uj_stock_quantity = Val 5\<rparr>)
       \<lparr>store = widget_table, open_sessions = 0\<rparr> =
     ((200, Body_Product \<lparr>resp_id = 1, resp_product_name = ''Widget'', resp_price = 999 / 100,
         resp_stock_quantity = 5\<rparr>),
      \<lparr>store = widget_table\<lparr>rows := [widget_row\<lparr>stock_quantity := 5\<rparr>]\<rparr>, open_sessions = 0\<rparr>) \<and>
   widget_row \<in> set (rows widget_table)"
proof -
  have s: "serve (PATCH_product 1 \<lparr>uj_price = Omitted, uj_stock_quantity = Val 5\<rparr>)
       \<lparr>store = widget_table, open_sessions = 0\<rparr> =
     ((200, Body_Product \<lparr>resp_id = 1, resp_product_name = ''Widget'', resp_price = 999 / 100,
         resp_stock_quantity = 5\<rparr>),
      \<lparr>store = widget_table\<lparr>rows := [widget_row\<lparr>stock_quantity := 5\<rparr>]\<rparr>, open_sessions = 0\<rparr>)"
    by (simp add: model_defs Let_def)
  have "table_inv (store \<lparr>store = widget_table, open_sessions = 0\<rparr>)"
    using widget_table_inv by (simp add: app_inv_def)
  from patch_updates_present_fields [OF this s] s show ?thesis by simp
qed

text \<open>
  C7. Serving any sequence of requests from a state whose table satisfies the
  application invariant (storage invariant and stripped names) keeps it, and
  leaves no session open that was not open before.
\<close>

theorem serve_all_preserves_app_inv:
  "app_inv (store st) \<Longrightarrow>
     app_inv (store (snd (serve_all reqs st))) \<and> open_sessions (snd (serve_all reqs st)) = open_sessions st"
proof (induction reqs arbitrary: st)
  case Nil
  then show ?case by simp
next
  case (Cons req reqs)
  obtain resp st' where s1: "serve req st = (resp, st')" by (cases "serve req st")
  obtain resps st'' where s2: "serve_all reqs st' = (resps, st'')" by (cases "serve_all reqs st'")
  have "app_inv (store st')" using serve_app_inv [OF Cons.prems, of req] s1 by simp
  from Cons.IH [OF this] s2 have "app_inv (store st'') \<and> open_sessions st'' = open_sessions st'"
    by simp
  moreover have "open_sessions st' = open_sessions st" using serve_sessions [of req st] s1 by simp
  ultimately show ?case using s1 s2 by simp
qed

theorem serve_all_preserves_app_inv_witness:
  "app_inv (store (snd (serve_all [POST_products \<lparr>cj_product_name = Val ''Widget'',
       cj_price = Val (999 / 100), cj_stock_quantity = Val 10\<rparr>, DELETE_product 1]
     \<lparr>store = empty_table, open_sessions = 0\<rparr>))) \<and>
   open_sessions (snd (serve_all [POST_products \<lparr>cj_product_name = Val ''Widget'',
       cj_price = Val (999 / 100), cj_stock_quantity = Val 10\<rparr>, DELETE_product 1]
     \<lparr>store = empty_table, open_sessions = 0\<rparr>)) = 0"
proof -
  have "app_inv (store \<lparr>store = empty_table, open_sessions = 0\<rparr>)" using empty_table_inv by simp
  from serve_all_preserves_app_inv [OF this] show ?thesis by (simp only: server.select_convs)
qed

text \<open>
  C6. A creation payload with a price of at most 0 or a negative stock is
  answered 422 with the field error of each offending field, and the server
  state, table and sessions, is exactly as before: no row is written.
\<close>

theorem serve_rejects_invalid_create:
  assumes "(\<exists>p. cj_price j = Val p \<and> p \<le> 0) \<or> (\<exists>n. cj_stock_quantity j = Val n \<and> n < 0)"
  shows "\<exists>errs. serve (POST_products j) st = ((422, Body_Validation errs), st) \<and>
    ((\<exists>p. cj_price j = Val p \<and> p \<le> 0) \<longrightarrow> (''price'', Greater_Than) \<in> set errs) \<and>
    ((\<exists>n. cj_stock_quantity j = Val n \<and> n < 0) \<longrightarrow> (''stock_quantity'', Greater_Equal) \<in> set errs)"
proof -
  have pr: "(\<exists>p. cj_price j = Val p \<and> p \<le> 0) \<longleftrightarrow> check_price (cj_price j) = Inl Greater_Than"
    by (auto simp: check_price_def split: json_field.splits if_splits)
  have st: "(\<exists>n. cj_stock_quantity j = Val n \<and> n < 0) \<longleftrightarrow>
      check_stock_quantity (cj_stock_quantity j) = Inl Greater_Equal"
    by (auto simp: check_stock_quantity_def split: json_field.splits if_splits)
  from assms pr st consider "check_price (cj_price j) = Inl Greater_Than"
    | "check_stock_quantity (cj_stock_quantity j) = Inl Greater_Equal" by blast
  then obtain errs where v: "ProductCreate_validate j = Inl errs"
    by cases (auto dest: ProductCreate_validate_Inl_price ProductCreate_validate_Inl_stock)
  have "check_price (cj_price j) = Inl Greater_Than \<longrightarrow> (''price'', Greater_Than) \<in> set errs"
    using v by (auto dest: ProductCreate_validate_Inl_price)
  moreover have "check_stock_quantity (cj_stock_quantity j) = Inl Greater_Equal \<longrightarrow>
      (''stock_quantity'', Greater_Equal) \<in> set errs"
    using v by (auto dest: ProductCreate_validate_Inl_stock)
  moreover have "serve (POST_products j) st = ((422, Body_Validation errs), st)"
    using v by (simp add: serve_def serve_endpoint_eq with_body_def render_def error_response_def)
  ultimately show ?thesis using pr st by blast
qed

theorem serve_rejects_invalid_create_witness:
  "serve (POST_products \<lparr>cj_product_name = Val ''Widget'', cj_price = Val 0, cj_stock_quantity = Val (-1)\<rparr>)
      \<lparr>store = empty_table, open_sessions = 0\<rparr> =
    ((422, Body_Validation [(''price'', Greater_Than), (''stock_quantity'', Greater_Equal)]),
     \<lparr>store = empty_table, open_sessions = 0\<rparr>)"
proof -
  from serve_rejects_invalid_create
    [of "\<lparr>cj_product_name = Val ''Widget'', cj_price = Val 0, cj_stock_quantity = Val (-1)\<rparr>"
        "\<lparr>store = empty_table, open_sessions = 0\<rparr>"]
  obtain errs where
    "serve (POST_products \<lparr>cj_product_name = Val ''Widget'', cj_price = Val 0, cj_stock_quantity = Val (-1)\<rparr>)
      \<lparr>store = empty_table, open_sessions = 0\<rparr> =
       ((422, Body_Validation errs), \<lparr>store = empty_table, open_sessions = 0\<rparr>)"
    by auto
  moreover have "serve (POST_products \<lparr>cj_product_name = Val ''Widget'', cj_price = Val 0,
      cj_stock_quantity = Val (-1)\<rparr>) \<lparr>store = empty_table, open_sessions = 0\<rparr> =
    ((422, Body_Validation [(''price'', Greater_Than), (''stock_quantity'', Greater_Equal)]),
     \<lparr>store = empty_table, open_sessions = 0\<rparr>)"
    by (simp add: model_defs py_isspace_def)
  ultimately show ?thesis by simp
qed

text \<open>
  C26. Every body the application sends from a consistent table is a well
  formed outbound representation: each product in a 200 body has an id of the
  sequence, a stripped name of at most 100 characters, a non-negative price
  with two decimals below \<open>10\<^sup>8\<close> and a stock within the 32-bit range,
  so the \<^verbatim>\<open>response_model\<close> never rejects it.
\<close>

theorem serve_bodies_typed:
  assumes inv: "app_inv (store st)"
  shows "body_ok (snd (fst (serve req st)))"
proof -
  let ?t' = "store (snd (serve req st))"
  have inv': "app_inv ?t'" using serve_app_inv [OF inv] .
  have ok: "ProductResponse_ok r" if "r \<in> ProductResponse_of ` set (rows ?t')" for r
    using that inv' ProductResponse_ok_row by blast
  show ?thesis
  proof (cases req)
    case (POST_products j)
    then show ?thesis using ok
      by (auto simp: serve_def serve_endpoint_eq with_body_def render_def error_response_def
          split: sum.splits prod.splits handler_error.splits dest: handler_replies_rows(1) [OF fst_eq_pair])
  next
    case (PATCH_product i j)
    have ti: "table_inv (store st)" using inv by (simp add: app_inv_def)
    then show ?thesis using ok PATCH_product
      by (auto simp: serve_def serve_endpoint_eq with_body_def render_def error_response_def
          split: sum.splits prod.splits handler_error.splits dest: handler_replies_rows(4) [OF _ fst_eq_pair])
  next
    case (GET_product i)
    then show ?thesis using ok
      by (auto simp: serve_def serve_endpoint_eq render_def error_response_def
          split: sum.splits prod.splits handler_error.splits dest: handler_replies_rows(2) [OF fst_eq_pair])
  next
    case GET_products
    then show ?thesis using ok
      by (auto simp: serve_def serve_endpoint_eq render_def list_all_iff get_products_def)
  qed (simp_all add: serve_def serve_endpoint_eq render_def error_response_def delete_product_def
      split: sum.splits prod.splits handler_error.splits option.splits)
qed

theorem serve_bodies_typed_witness:
  "app_inv widget_table \<and>
   body_ok (snd (fst (serve GET_products \<lparr>store = widget_table, open_sessions = 0\<rparr>)))"
  using serve_bodies_typed [of "\<lparr>store = widget_table, open_sessions = 0\<rparr>" GET_products] widget_table_inv
  by simp

text \<open>
  C31. Once the \<^verbatim>\<open>SERIAL\<close> sequence has handed out its last 32-bit
  value, no sequence of requests ever stores a row with a new id, whatever
  is deleted in between: the sequence stays where it is and the ids of the
  table only shrink. Deleted ids are never reused, and every creation fails.
\<close>

theorem create_after_sequence_exhausted:
  assumes "int4_max < seq_next (store st)"
  shows "seq_next (store (snd (serve_all reqs st))) = seq_next (store st) \<and>
    id' ` set (rows (store (snd (serve_all reqs st)))) \<subseteq> id' ` set (rows (store st))"
  using assms
proof (induction reqs arbitrary: st)
  case (Cons req reqs)
  let ?st = "snd (serve req st)"
  have one: "seq_next (store ?st) = seq_next (store st) \<and> id' ` set (rows (store ?st)) \<subseteq> id' ` set (rows (store st))"
    using Cons.prems by (rule serve_exhausted)
  with Cons.prems have "int4_max < seq_next (store ?st)" by simp
  from Cons.IH [OF this] one show ?case by (clarsimp simp: Let_def split: prod.splits) blast
qed simp


theorem create_after_sequence_exhausted_witness:
  "int4_max < seq_next (store \<lparr>store = \<lparr>rows = [widget_row], seq_next = int4_max + 1\<rparr>, open_sessions = 0\<rparr>) \<and>
   fst (serve_all [DELETE_product 1, POST_products \<lparr>cj_product_name = Val ''Widget'', cj_price = Val (999 / 100), cj_stock_quantity = Val 10\<rparr>] \<lparr>store = \<lparr>rows = [widget_row], seq_next = int4_max + 1\<rparr>, open_sessions = 0\<rparr>) =
     [(200, Body_Message ''Product deleted successfully''), (500, Body_Internal_Server_Error)] \<and>
   seq_next (store (snd (serve_all [DELETE_product 1, POST_products \<lparr>cj_product_name = Val ''Widget'', cj_price = Val (999 / 100), cj_stock_quantity = Val 10\<rparr>] \<lparr>store = \<lparr>rows = [widget_row], seq_next = int4_max + 1\<rparr>, open_sessions = 0\<rparr>))) = seq_next (store \<lparr>store = \<lparr>rows = [widget_row], seq_next = int4_max + 1\<rparr>, open_sessions = 0\<rparr>) \<and>
   id' ` set (rows (store (snd (serve_all [DELETE_product 1, POST_products \<lparr>cj_product_name = Val ''Widget'', cj_price = Val (999 / 100), cj_stock_quantity = Val 10\<rparr>] \<lparr>store = \<lparr>rows = [widget_row], seq_next = int4_max + 1\<rparr>, open_sessions = 0\<rparr>))))
     \<subseteq> id' ` set (rows (store \<lparr>store = \<lparr>rows = [widget_row], seq_next = int4_max + 1\<rparr>, open_sessions = 0\<rparr>))"
proof -
  have ex: "int4_max < seq_next (store \<lparr>store = \<lparr>rows = [widget_row], seq_next = int4_max + 1\<rparr>, open_sessions = 0\<rparr>)" by simp
  have run: "fst (serve_all [DELETE_product 1, POST_products \<lparr>cj_product_name = Val ''Widget'', cj_price = Val (999 / 100), cj_stock_quantity = Val 10\<rparr>] \<lparr>store = \<lparr>rows = [widget_row], seq_next = int4_max + 1\<rparr>, open_sessions = 0\<rparr>) =
     [(200, Body_Message ''Product deleted successfully''), (500, Body_Internal_Server_Error)]"
    by (simp add: model_defs Let_def py_isspace_def)
  show ?thesis using create_after_sequence_exhausted [OF ex, of "[DELETE_product 1, POST_products \<lparr>cj_product_name = Val ''Widget'', cj_price = Val (999 / 100), cj_stock_quantity = Val 10\<rparr>]"] ex run
    by blast
qed

end
