(* ===== verification/Refinement.thy ===== *)
theory Refinement
  imports Handlers
begin

text \<open>
  The contract of the request handlers as the specification states it
  (its table of operations): a catalogue maps product ids to items; create
  fails with \<open>Conflict\<close> on a stored name and otherwise stores the item under
  some fresh id; get, update and delete fail with \<open>NotFound\<close> on an absent id;
  update applies exactly the fields present; list returns the catalogue in
  some order. The relation is nondeterministic where the specification leaves
  a choice (the fresh id, the order of the list). The refinement theorem shows
  that every outcome of the handlers that is not a driver exception is an
  outcome this contract allows, on the abstraction of the table to its
  catalogue.
\<close>

record item =
  item_name :: string
  item_price :: rat
  item_stock :: int

type_synonym catalogue = "int \<rightharpoonup> item"

datatype spec_error = Conflict | NotFound

datatype spec_op =
    Create string rat int
  | List
  | Get int
  | Update int "rat option" "int option"
  | Delete int

datatype spec_result =
    R_Item int item
  | R_Items "(int \<times> item) list"
  | R_Deleted
  | R_Error spec_error

definition apply_fields :: "rat option \<Rightarrow> int option \<Rightarrow> item \<Rightarrow> item" where
  "apply_fields p s x =
     x\<lparr>item_price := (case p of None \<Rightarrow> item_price x | Some v \<Rightarrow> v),
       item_stock := (case s of None \<Rightarrow> item_stock x | Some v \<Rightarrow> v)\<rparr>"

inductive spec_step :: "catalogue \<Rightarrow> spec_op \<Rightarrow> spec_result \<Rightarrow> catalogue \<Rightarrow> bool" where
  create_ok: "n \<notin> item_name ` ran m \<Longrightarrow> k \<notin> dom m \<Longrightarrow>
    spec_step m (Create n p s) (R_Item k \<lparr>item_name = n, item_price = p, item_stock = s\<rparr>)
      (m(k \<mapsto> \<lparr>item_name = n, item_price = p, item_stock = s\<rparr>))"
| create_conflict: "n \<in> item_name ` ran m \<Longrightarrow> spec_step m (Create n p s) (R_Error Conflict) m"
| list: "distinct (map fst xs) \<Longrightarrow> map_of xs = m \<Longrightarrow> spec_step m List (R_Items xs) m"
| get_ok: "m k = Some x \<Longrightarrow> spec_step m (Get k) (R_Item k x) m"
| get_not_found: "m k = None \<Longrightarrow> spec_step m (Get k) (R_Error NotFound) m"
| update_ok: "m k = Some x \<Longrightarrow>
    spec_step m (Update k p s) (R_Item k (apply_fields p s x)) (m(k \<mapsto> apply_fields p s x))"
| update_not_found: "m k = None \<Longrightarrow> spec_step m (Update k p s) (R_Error NotFound) m"
| delete_ok: "m k = Some x \<Longrightarrow> spec_step m (Delete k) R_Deleted (m(k := None))"
| delete_not_found: "m k = None \<Longrightarrow> spec_step m (Delete k) (R_Error NotFound) m"

text \<open>A call of one of the five handlers, with its validated payload.\<close>

datatype call =
    Call_Create ProductCreate
  | Call_List
  | Call_Get int
  | Call_Update int ProductUpdate
  | Call_Delete int

datatype call_result =
    Got ProductResponse
  | Listed "ProductResponse list"
  | Deleted string
  | Failed handler_error

definition lift_result :: "('a \<Rightarrow> call_result) \<Rightarrow> 'a endpoint_result \<Rightarrow> call_result \<times> products_table" where
  "lift_result f r = (case r of (Inl e, t) \<Rightarrow> (Failed e, t) | (Inr v, t) \<Rightarrow> (f v, t))"

definition dispatch :: "call \<Rightarrow> products_table \<Rightarrow> call_result \<times> products_table" where
  "dispatch c t =
     (case c of
        Call_Create p \<Rightarrow> lift_result Got (create_product p t)
      | Call_List \<Rightarrow> lift_result Listed (get_products t)
      | Call_Get i \<Rightarrow> lift_result Got (get_product i t)
      | Call_Update i u \<Rightarrow> lift_result Got (update_product i u t)
      | Call_Delete i \<Rightarrow> lift_result Deleted (delete_product i t))"

subsection \<open>Abstraction\<close>

definition item_of :: "Product \<Rightarrow> item" where
  "item_of r = \<lparr>item_name = product_name r, item_price = price r, item_stock = stock_quantity r\<rparr>"

definition abs_table :: "products_table \<Rightarrow> catalogue" where
  "abs_table t = map_of (map (\<lambda>r. (id' r, item_of r)) (rows t))"

definition item_of_resp :: "ProductResponse \<Rightarrow> item" where
  "item_of_resp r =
     \<lparr>item_name = resp_product_name r, item_price = resp_price r, item_stock = resp_stock_quantity r\<rparr>"

definition abs_op :: "call \<Rightarrow> spec_op" where
  "abs_op c =
     (case c of
        Call_Create p \<Rightarrow> Create (pc_product_name p) (pc_price p) (pc_stock_quantity p)
      | Call_List \<Rightarrow> List
      | Call_Get i \<Rightarrow> Get i
      | Call_Update i u \<Rightarrow> Update i (pu_price u) (pu_stock_quantity u)
      | Call_Delete i \<Rightarrow> Delete i)"

text \<open>
  The abstract outcome of a handler's outcome: the two \<^verbatim>\<open>HTTPException\<close>s are
  the specification's two errors; a driver exception or a validation error has
  no counterpart in the operation table.
\<close>

definition abs_result :: "call_result \<Rightarrow> spec_result option" where
  "abs_result r =
     (case r of
        Got v \<Rightarrow> Some (R_Item (resp_id v) (item_of_resp v))
      | Listed vs \<Rightarrow> Some (R_Items (map (\<lambda>v. (resp_id v, item_of_resp v)) vs))
      | Deleted _ \<Rightarrow> Some R_Deleted
      | Failed (HTTPException code _) \<Rightarrow>
          if code = 400 then Some (R_Error Conflict)
          else if code = 404 then Some (R_Error NotFound) else None
      | Failed _ \<Rightarrow> None)"

text \<open>
  The calls whose payloads the specification's data model can express: a
  creation name already stripped (as validation leaves it), and prices with at
  most two fractional digits, as the \<^verbatim>\<open>price\<close> column holds them.
\<close>

definition call_ok :: "call \<Rightarrow> bool" where
  "call_ok c =
     (case c of
        Call_Create p \<Rightarrow>
          py_strip (pc_product_name p) = pc_product_name p \<and>
          numeric_round 2 (pc_price p) = pc_price p
      | Call_Update i u \<Rightarrow>
          (case pu_price u of None \<Rightarrow> True | Some v \<Rightarrow> numeric_round 2 v = v)
      | _ \<Rightarrow> True)"

subsection \<open>The handlers refine the contract\<close>

lemma abs_table_lookup: "abs_table t i = map_option item_of (query_by_id i t)"
  by (simp add: abs_table_def query_by_id_def map_of_keyed_find)

lemma names_abs_table:
  "table_inv t \<Longrightarrow> item_name ` ran (abs_table t) = product_name ` set (rows t)"
proof -
  assume "table_inv t"
  then have "distinct (map fst (map (\<lambda>r. (id' r, item_of r)) (rows t)))"
    by (simp add: table_inv_def comp_def)
  then have "ran (abs_table t) = item_of ` set (rows t)"
    by (simp add: abs_table_def ran_distinct image_image)
  then show ?thesis by (simp add: image_image item_of_def)
qed

lemma dom_abs_table: "dom (abs_table t) = id' ` set (rows t)"
  by (simp add: abs_table_def dom_map_of_conv_image_fst image_image)

lemma item_of_resp_of [simp]: "item_of_resp (ProductResponse_of r) = item_of r"
  by (simp add: item_of_resp_def ProductResponse_of_def item_of_def)

lemma resp_id_of [simp]: "resp_id (ProductResponse_of r) = id' r"
  by (simp add: ProductResponse_of_def)

lemma refine_create:
  assumes inv: "app_inv t" and ok: "call_ok (Call_Create p)"
    and d: "dispatch (Call_Create p) t = (res, t')" and a: "abs_result res = Some a"
  shows "spec_step (abs_table t) (abs_op (Call_Create p)) a (abs_table t')"
proof (cases "query_by_name (pc_product_name p) t")
  case (Some existing)
  then have "existing \<in> set (rows t)" and "product_name existing = pc_product_name p"
    by (auto simp: query_by_name_def dest: find_key_Some_mem)
  then have "pc_product_name p \<in> product_name ` set (rows t)" by (metis image_eqI)
  then have "pc_product_name p \<in> item_name ` ran (abs_table t)"
    using inv by (simp add: app_inv_def names_abs_table)
  moreover from Some d a have "a = R_Error Conflict" and "t' = t"
    by (auto simp: dispatch_def lift_result_def create_product_def abs_result_def)
  ultimately show ?thesis by (simp add: abs_op_def spec_step.create_conflict)
next
  case None
  then obtain r where ins: "insert_product (py_strip (pc_product_name p)) (pc_price p)
      (pc_stock_quantity p) t = (Inr r, t')" and res: "res = Got (ProductResponse_of r)"
    using d a by (auto simp: dispatch_def lift_result_def create_product_def abs_result_def
        split: sum.splits prod.splits)
  note fields = insert_product_Inr_row [OF ins]
  have fresh: "id' r \<notin> id' ` set (rows t)" using inv fields by (auto simp: app_inv_def table_inv_def)
  have item: "item_of r = \<lparr>item_name = pc_product_name p, item_price = pc_price p,
      item_stock = pc_stock_quantity p\<rparr>"
    using fields coerce_varchar_stripped [of 100 "pc_product_name p" "product_name r"] ok
    by (simp add: item_of_def call_ok_def)
  have "rows t' = rows t @ [r]" using fields by simp
  then have "abs_table t' = (abs_table t)(id' r \<mapsto> item_of r)"
    unfolding abs_table_def by (simp only:) (subst map_of_keyed_snoc, simp_all add: fresh)
  moreover have "pc_product_name p \<notin> item_name ` ran (abs_table t)"
    using None inv by (simp add: query_by_name_None app_inv_def names_abs_table)
  moreover have "id' r \<notin> dom (abs_table t)" using fresh by (simp add: dom_abs_table)
  moreover have "a = R_Item (id' r) (item_of r)" using a res by (simp add: abs_result_def)
  ultimately show ?thesis using item by (simp add: abs_op_def spec_step.create_ok)
qed

lemma refine_list:
  assumes inv: "app_inv t" and d: "dispatch Call_List t = (res, t')" and a: "abs_result res = Some a"
  shows "spec_step (abs_table t) (abs_op Call_List) a (abs_table t')"
proof -
  let ?xs = "map (\<lambda>r. (id' r, item_of r)) (rows t)"
  from d a have "a = R_Items ?xs" and "t' = t"
    by (auto simp: dispatch_def lift_result_def get_products_def abs_result_def comp_def)
  moreover have "distinct (map fst ?xs)" using inv by (simp add: app_inv_def table_inv_def comp_def)
  ultimately show ?thesis by (simp add: abs_op_def abs_table_def spec_step.list)
qed

lemma refine_get:
  assumes d: "dispatch (Call_Get i) t = (res, t')" and a: "abs_result res = Some a"
  shows "spec_step (abs_table t) (abs_op (Call_Get i)) a (abs_table t')"
proof (cases "query_by_id i t")
  case None
  with d a have "a = R_Error NotFound" and "t' = t"
    by (auto simp: dispatch_def lift_result_def get_product_def abs_result_def)
  with None show ?thesis by (simp add: abs_op_def abs_table_lookup spec_step.get_not_found)
next
  case (Some r)
  then have "id' r = i" by (simp add: query_by_id_Some)
  with Some d a have "a = R_Item i (item_of r)" and "t' = t"
    by (auto simp: dispatch_def lift_result_def get_product_def abs_result_def)
  with Some show ?thesis by (simp add: abs_op_def abs_table_lookup spec_step.get_ok)
qed

lemma update_product_found_Inl:
  "query_by_id i t = Some old \<Longrightarrow> update_product i u t = (Inl e, t') \<Longrightarrow> \<exists>d. e = Driver d"
  by (auto simp: update_product_def Let_def split: sum.splits prod.splits)

lemma refine_update:
  assumes inv: "app_inv t" and ok: "call_ok (Call_Update i u)"
    and d: "dispatch (Call_Update i u) t = (res, t')" and a: "abs_result res = Some a"
  shows "spec_step (abs_table t) (abs_op (Call_Update i u)) a (abs_table t')"
proof (cases "query_by_id i t")
  case None
  with d a have "a = R_Error NotFound" and "t' = t"
    by (auto simp: dispatch_def lift_result_def update_product_def abs_result_def)
  with None show ?thesis by (simp add: abs_op_def abs_table_lookup spec_step.update_not_found)
next
  case (Some old)
  then have old: "old \<in> set (rows t)" and i: "id' old = i" by (simp_all add: query_by_id_Some)
  obtain resp where upd: "update_product i u t = (Inr resp, t')" and res: "res = Got resp"
    using d a update_product_found_Inl [OF Some, of u _ t']
    by (auto simp: dispatch_def lift_result_def abs_result_def
        split: sum.splits prod.splits handler_error.splits if_splits)
  have tinv: "table_inv t" using inv by (simp add: app_inv_def)
  from update_product_fields [OF tinv upd] obtain old' where old': "old' \<in> set (rows t)"
    and i': "id' old' = i" and eq: "resp = ProductResponse_of (patched old' u)"
    and rows': "rows t' = map (\<lambda>x. if id' x = i then patched old' u else x) (rows t)"
    by blast
  have item: "item_of (patched old' u) = apply_fields (pu_price u) (pu_stock_quantity u) (item_of old')"
    using ok by (auto simp: patched_def item_of_def apply_fields_def call_ok_def split: option.splits)
  have "abs_table t' = (if i \<in> id' ` set (rows t) then (abs_table t)(i \<mapsto> item_of (patched old' u))
      else abs_table t)"
    unfolding abs_table_def rows' using i' by (intro map_of_keyed_replace) simp
  with old' i' have "abs_table t' = (abs_table t)(i \<mapsto> item_of (patched old' u))" by auto
  moreover have "abs_table t i = Some (item_of old')"
    using query_by_id_row [OF tinv old'] i' by (simp add: abs_table_lookup)
  moreover have "a = R_Item i (item_of (patched old' u))"
    using a res eq i' by (simp add: abs_result_def)
  ultimately show ?thesis using item by (simp add: abs_op_def spec_step.update_ok)
qed

lemma refine_delete:
  assumes d: "dispatch (Call_Delete i) t = (res, t')" and a: "abs_result res = Some a"
  shows "spec_step (abs_table t) (abs_op (Call_Delete i)) a (abs_table t')"
proof (cases "query_by_id i t")
  case None
  with d a have "a = R_Error NotFound" and "t' = t"
    by (auto simp: dispatch_def lift_result_def delete_product_def abs_result_def)
  with None show ?thesis by (simp add: abs_op_def abs_table_lookup spec_step.delete_not_found)
next
  case (Some r)
  then have "id' r = i" by (simp add: query_by_id_Some)
  with Some d a have "a = R_Deleted" and "t' = delete_product_row i t"
    by (auto simp: dispatch_def lift_result_def delete_product_def abs_result_def)
  moreover have "abs_table (delete_product_row i t) = (abs_table t)(i := None)"
    by (simp add: abs_table_def delete_product_row_def map_of_keyed_filter)
  ultimately show ?thesis using Some
    by (simp add: abs_op_def abs_table_lookup spec_step.delete_ok)
qed

text \<open>
  C10. The handlers implement the specification's operation table on the
  payloads the column stores exactly: from a table satisfying the application
  invariant, every call allowed by \<open>call_ok\<close> (a created name already
  stripped, every price given at most two decimals) that ends in a result or
  in one of the two \<^verbatim>\<open>HTTPException\<close>s is a step of \<open>spec_step\<close> between
  the catalogues the table holds before and after the call, with the
  matching abstract result. A price with more decimals is rounded by the
  \<^verbatim>\<open>Numeric(10, 2)\<close> column (9.999 is stored as 10), which is no step of
  the specification; C15 and C16 state what is stored then.
\<close>

theorem handlers_refine_spec:
  assumes "app_inv t" and "call_ok c" and "dispatch c t = (res, t')" and "abs_result res = Some a"
  shows "spec_step (abs_table t) (abs_op c) a (abs_table t')"
  using assms
proof (cases c)
  case (Call_Create p)
  with assms show ?thesis by (simp only:) (rule refine_create)
next
  case Call_List
  with assms show ?thesis by (simp only:) (rule refine_list)
next
  case (Call_Get i)
  with assms show ?thesis by (simp only:) (rule refine_get)
next
  case (Call_Update i u)
  with assms show ?thesis by (simp only:) (rule refine_update)
next
  case (Call_Delete i)
  with assms show ?thesis by (simp only:) (rule refine_delete)
qed

theorem handlers_refine_spec_witness:
  "spec_step (abs_table widget_table) (Create ''Gadget'' 5 1)
     (R_Item 2 \<lparr>item_name = ''Gadget'', item_price = 5, item_stock = 1\<rparr>)
     (abs_table \<lparr>rows = [widget_row, \<lparr>id' = 2, product_name = ''Gadget'', price = 5, stock_quantity = 1\<rparr>],
                 seq_next = 3\<rparr>)"
proof -
  have d: "dispatch (Call_Create \<lparr>pc_product_name = ''Gadget'', pc_price = 5, pc_stock_quantity = 1\<rparr>)
      widget_table =
    (Got \<lparr>resp_id = 2, resp_product_name = ''Gadget'', resp_price = 5, resp_stock_quantity = 1\<rparr>,
     \<lparr>rows = [widget_row, \<lparr>id' = 2, product_name = ''Gadget'', price = 5, stock_quantity = 1\<rparr>],
      seq_next = 3\<rparr>)"
    by (simp add: model_defs dispatch_def lift_result_def Let_def py_isspace_def)
  have ok: "call_ok (Call_Create \<lparr>pc_product_name = ''Gadget'', pc_price = 5, pc_stock_quantity = 1\<rparr>)"
    by (simp add: call_ok_def py_strip_def py_isspace_def numeric_round_def)
  have a: "abs_result (Got \<lparr>resp_id = 2, resp_product_name = ''Gadget'', resp_price = 5,
      resp_stock_quantity = 1\<rparr>) = Some (R_Item 2 \<lparr>item_name = ''Gadget'', item_price = 5, item_stock = 1\<rparr>)"
    by (simp add: abs_result_def item_of_resp_def)
  from handlers_refine_spec [OF widget_table_inv ok d a] show ?thesis by (simp add: abs_op_def)
qed

end
