(* ===== verification/Concurrency.thy ===== *)
theory Concurrency
  imports Refinement
begin

text \<open>
  Requests served concurrently. Each request has its own session
  (\<^verbatim>\<open>get_db\<close>), and the only state the sessions share is the committed
  table; PostgreSQL runs each statement at \<^verbatim>\<open>READ COMMITTED\<close> and each
  write of the handlers is committed at once. A session is therefore a program
  counter over the database round trips of its handler in \<^verbatim>\<open>src/main.py\<close>:
  the query, then the write with its commit, then the \<^verbatim>\<open>db.refresh\<close> that
  reads the row back. The concurrent system is the interleaving of these steps
  over one committed table (\<open>conc_step\<close>); \<open>run_schedule\<close> runs it along
  an explicit schedule of session indices.

  Two behaviours of SQLAlchemy matter once other sessions write in between.
  An \<^verbatim>\<open>UPDATE\<close> is issued only for the attributes whose assigned value
  differs from the value loaded by the query (\<open>dirty\<close>), and writes only those
  columns; if it matches no row, the flush raises \<^verbatim>\<open>StaleDataError\<close>. A
  \<^verbatim>\<open>DELETE\<close> that matches no row only warns (there is no version column).
  \<^verbatim>\<open>session.refresh\<close> of a row that is gone raises
  \<^verbatim>\<open>InvalidRequestError\<close>. Both ORM errors escape the handlers as the driver
  errors do.
\<close>

datatype orm_error = StaleDataError | InvalidRequestError

text \<open>
  What a session can raise: the handler's own exceptions and the driver's, the
  ORM errors above, and the engine's \<^verbatim>\<open>TimeoutError\<close> when no pooled
  connection becomes free (theory \<open>Pool\<close>).
\<close>

datatype session_error = Endpoint_Error handler_error | ORM_Error orm_error | Pool_TimeoutError

datatype reply =
    Reply_Product ProductResponse
  | Reply_Products "ProductResponse list"
  | Reply_Message string

type_synonym session_outcome = "(session_error, reply) result"

text \<open>
  The program counter of one request's session: the handler it runs, with its
  payload, and the round trip it performs next; \<open>Done\<close> holds what the
  handler returned or raised.
\<close>

datatype session =
    Create_Query ProductCreate
  | Create_Insert ProductCreate
  | Create_Refresh Product
  | Get_Query int
  | List_Query
  | Update_Query int ProductUpdate
  | Update_Write Product ProductUpdate
  | Update_Refresh Product
  | Delete_Query int
  | Delete_Write Product
  | Done session_outcome

fun finished :: "session \<Rightarrow> bool" where
  "finished (Done _) = True"
| "finished _ = False"

text \<open>
  The attribute history of SQLAlchemy: an assigned value is a change only if
  it differs from the value the query loaded.
\<close>

definition dirty :: "'a option \<Rightarrow> 'a \<Rightarrow> 'a option" where
  "dirty new loaded = (case new of None \<Rightarrow> None | Some v \<Rightarrow> if v = loaded then None else Some v)"

text \<open>The coercion of a column that the statement sets, if it sets it.\<close>

definition coerce_opt :: "('a \<Rightarrow> (db_error, 'a) result) \<Rightarrow> 'a option \<Rightarrow> (db_error, 'a option) result" where
  "coerce_opt c v = (case v of None \<Rightarrow> Inr None | Some x \<Rightarrow> (case c x of Inl e \<Rightarrow> Inl e | Inr y \<Rightarrow> Inr (Some y)))"

text \<open>
  \<^verbatim>\<open>db.commit()\<close> in \<^verbatim>\<open>update_product\<close>, after the assignments of the
  present fields to the row \<open>snap\<close> loaded by the query: no statement if no
  attribute changed; otherwise \<^verbatim>\<open>UPDATE products SET ... WHERE id = ...\<close>
  with the changed columns, coerced when the statement is planned, applied to
  the row as it is now committed, checked against the other rows, and
  \<^verbatim>\<open>StaleDataError\<close> when no row has the id any more.
\<close>

definition update_write ::
  "Product \<Rightarrow> ProductUpdate \<Rightarrow> products_table \<Rightarrow> (session_error, unit) result \<times> products_table" where
  "update_write snap u t =
     (let dp = dirty (pu_price u) (price snap);
          ds = dirty (pu_stock_quantity u) (stock_quantity snap)
      in if dp = None \<and> ds = None then (Inr (), t)
      else
        (case coerce_opt (coerce_numeric 10 2) dp of
           Inl e \<Rightarrow> (Inl (Endpoint_Error (Driver e)), t)
         | Inr dp' \<Rightarrow>
             (case coerce_opt coerce_int4 ds of
                Inl e \<Rightarrow> (Inl (Endpoint_Error (Driver e)), t)
              | Inr ds' \<Rightarrow>
                  (case query_by_id (id' snap) t of
                     None \<Rightarrow> (Inl (ORM_Error StaleDataError), t)
                   | Some cur \<Rightarrow>
                       (let r = cur\<lparr>price := (case dp' of None \<Rightarrow> price cur | Some v \<Rightarrow> v),
                                    stock_quantity := (case ds' of None \<Rightarrow> stock_quantity cur | Some v \<Rightarrow> v)\<rparr>
                        in case check_row r (filter (\<lambda>x. id' x \<noteq> id' cur) (rows t)) of
                             Inl e \<Rightarrow> (Inl (Endpoint_Error (Driver e)), t)
                           | Inr _ \<Rightarrow>
                               (Inr (), t\<lparr>rows := map (\<lambda>x. if id' x = id' cur then r else x) (rows t)\<rparr>))))))"

text \<open>\<^verbatim>\<open>db.refresh(row)\<close>: the row with the same id, as committed now.\<close>

definition refresh :: "Product \<Rightarrow> products_table \<Rightarrow> session" where
  "refresh r t =
     (case query_by_id (id' r) t of
        None \<Rightarrow> Done (Inl (ORM_Error InvalidRequestError))
      | Some r' \<Rightarrow> Done (Inr (Reply_Product (ProductResponse_of r'))))"

text \<open>
  One round trip of a session against the committed table. The query steps
  and the writes are those of the sequential handlers; what differs is that
  the table may have changed between them.
\<close>

fun session_step :: "session \<Rightarrow> products_table \<Rightarrow> session \<times> products_table" where
  "session_step (Create_Query pc) t =
     (case query_by_name (pc_product_name pc) t of
        Some _ \<Rightarrow> (Done (Inl (Endpoint_Error (HTTPException 400 ''Product already exists''))), t)
      | None \<Rightarrow> (Create_Insert pc, t))"
| "session_step (Create_Insert pc) t =
     (case insert_product (py_strip (pc_product_name pc)) (pc_price pc) (pc_stock_quantity pc) t of
        (Inl e, t') \<Rightarrow> (Done (Inl (Endpoint_Error (Driver e))), t')
      | (Inr r, t') \<Rightarrow> (Create_Refresh r, t'))"
| "session_step (Create_Refresh r) t = (refresh r t, t)"
| "session_step (Get_Query i) t =
     (case query_by_id i t of
        None \<Rightarrow> (Done (Inl (Endpoint_Error (HTTPException 404 ''Product not found''))), t)
      | Some r \<Rightarrow> (Done (Inr (Reply_Product (ProductResponse_of r))), t))"
| "session_step List_Query t = (Done (Inr (Reply_Products (map ProductResponse_of (rows t)))), t)"
| "session_step (Update_Query i u) t =
     (case query_by_id i t of
        None \<Rightarrow> (Done (Inl (Endpoint_Error (HTTPException 404 ''Product not found''))), t)
      | Some r \<Rightarrow> (Update_Write r u, t))"
| "session_step (Update_Write r u) t =
     (case update_write r u t of
        (Inl e, t') \<Rightarrow> (Done (Inl e), t')
      | (Inr _, t') \<Rightarrow> (Update_Refresh r, t'))"
| "session_step (Update_Refresh r) t = (refresh r t, t)"
| "session_step (Delete_Query i) t =
     (case query_by_id i t of
        None \<Rightarrow> (Done (Inl (Endpoint_Error (HTTPException 404 ''Product not found''))), t)
      | Some r \<Rightarrow> (Delete_Write r, t))"
| "session_step (Delete_Write r) t =
     (Done (Inr (Reply_Message ''Product deleted successfully'')), delete_product_row (id' r) t)"
| "session_step (Done out) t = (Done out, t)"

text \<open>
  The concurrent system: the committed table and the sessions of the requests
  in flight. Any unfinished session may perform its next round trip.
\<close>

type_synonym config = "products_table \<times> session list"

inductive conc_step :: "config \<Rightarrow> config \<Rightarrow> bool" where
  step: "i < length ss \<Longrightarrow> \<not> finished (ss ! i) \<Longrightarrow> session_step (ss ! i) t = (s', t') \<Longrightarrow>
         conc_step (t, ss) (t', ss[i := s'])"

inductive_cases conc_stepE: "conc_step c c'"

text \<open>The interleaving along a schedule; an index of no unfinished session is skipped.\<close>

fun run_schedule :: "nat list \<Rightarrow> config \<Rightarrow> config" where
  "run_schedule [] c = c"
| "run_schedule (i # sched) (t, ss) =
     (if i < length ss \<and> \<not> finished (ss ! i)
      then (case session_step (ss ! i) t of (s', t') \<Rightarrow> run_schedule sched (t', ss[i := s']))
      else run_schedule sched (t, ss))"

text \<open>The round trips a session has left.\<close>

fun steps_left :: "session \<Rightarrow> nat" where
  "steps_left (Create_Query _) = 3"
| "steps_left (Create_Insert _) = 2"
| "steps_left (Create_Refresh _) = 1"
| "steps_left (Get_Query _) = 1"
| "steps_left List_Query = 1"
| "steps_left (Update_Query _ _) = 3"
| "steps_left (Update_Write _ _) = 2"
| "steps_left (Update_Refresh _) = 1"
| "steps_left (Delete_Query _) = 2"
| "steps_left (Delete_Write _) = 1"
| "steps_left (Done _) = 0"

definition work :: "config \<Rightarrow> nat" where
  "work c = sum_list (map steps_left (snd c))"

text \<open>
  The session a request starts with, for a call of one of the five handlers,
  and the outcome of a finished session for what the sequential handler
  returns.
\<close>

definition session_of :: "call \<Rightarrow> session" where
  "session_of c =
     (case c of
        Call_Create p \<Rightarrow> Create_Query p
      | Call_List \<Rightarrow> List_Query
      | Call_Get i \<Rightarrow> Get_Query i
      | Call_Update i u \<Rightarrow> Update_Query i u
      | Call_Delete i \<Rightarrow> Delete_Query i)"

fun outcome_of :: "call_result \<Rightarrow> session_outcome" where
  "outcome_of (Got r) = Inr (Reply_Product r)"
| "outcome_of (Listed rs) = Inr (Reply_Products rs)"
| "outcome_of (Deleted m) = Inr (Reply_Message m)"
| "outcome_of (Failed e) = Inl (Endpoint_Error e)"

text \<open>
  The serial schedule: each request runs to its end before the next one
  starts; three round trips are the most a handler makes.
\<close>

definition serial_schedule :: "nat \<Rightarrow> nat list" where
  "serial_schedule n = concat (map (\<lambda>i. replicate 3 i) [0..<n])"

text \<open>The sequential handlers, one call after the other.\<close>

fun dispatch_all :: "call list \<Rightarrow> products_table \<Rightarrow> call_result list \<times> products_table" where
  "dispatch_all [] t = ([], t)"
| "dispatch_all (c # cs) t =
     (let (r, t') = dispatch c t; (rs, t'') = dispatch_all cs t' in (r # rs, t''))"

text \<open>
  A sequence of requests served one after the other by a function that
  returns each outcome and the table it leaves.
\<close>

fun run_serial ::
  "('a \<Rightarrow> products_table \<Rightarrow> session_outcome \<times> products_table) \<Rightarrow> 'a list \<Rightarrow> products_table \<Rightarrow>
     session_outcome list \<times> products_table" where
  "run_serial f [] t = ([], t)"
| "run_serial f (x # xs) t =
     (let (out, t') = f x t; (outs, t'') = run_serial f xs t' in (out # outs, t''))"

text \<open>
  Ghost state for the proof that racing creations never store two rows of one
  name: the rows a create session has committed or returned must still be in
  the table, and two sessions never claim the same id.
\<close>


fun create_ok :: "products_table \<Rightarrow> session \<Rightarrow> bool" where
  "create_ok t (Create_Query _) = True"
| "create_ok t (Create_Insert _) = True"
| "create_ok t (Create_Refresh r) = (r \<in> set (rows t))"
| "create_ok t (Done (Inr (Reply_Product resp))) = (\<exists>r \<in> set (rows t). resp = ProductResponse_of r)"
| "create_ok t (Done _) = True"
| "create_ok t _ = False"

fun claimed_id :: "session \<Rightarrow> int option" where
  "claimed_id (Create_Refresh r) = Some (id' r)"
| "claimed_id (Done (Inr (Reply_Product resp))) = Some (resp_id resp)"
| "claimed_id _ = None"

definition creates_inv :: "config \<Rightarrow> bool" where
  "creates_inv c \<longleftrightarrow> app_inv (fst c) \<and> (\<forall>s \<in> set (snd c). create_ok (fst c) s) \<and>
     distinct_claims claimed_id (snd c)"

text \<open>
  Ghost state for two PATCHes of one row racing, one setting the price and the
  other the stock: \<open>patch_phase f old u w s\<close> says where session \<open>s\<close> of the
  update \<open>u\<close> is (\<open>w\<close>: its \<^verbatim>\<open>UPDATE\<close> has been committed) and what it has
  loaded or answered; \<open>merge_table t0 old u1 u2 w1 w2\<close> is the table once the
  committed updates have been applied to the row \<open>old\<close>.
\<close>

fun patch_phase :: "(Product \<Rightarrow> 'a) \<Rightarrow> Product \<Rightarrow> ProductUpdate \<Rightarrow> bool \<Rightarrow> session \<Rightarrow> bool" where
  "patch_phase f old u w (Update_Query i u') = (\<not> w \<and> i = id' old \<and> u' = u)"
| "patch_phase f old u w (Update_Write r u') = (\<not> w \<and> id' r = id' old \<and> f r = f old \<and> u' = u)"
| "patch_phase f old u w (Update_Refresh r) = (w \<and> id' r = id' old)"
| "patch_phase f old u w (Done out) =
     (w \<and> (\<exists>r. out = Inr (Reply_Product (ProductResponse_of r)) \<and> id' r = id' old \<and> f r = f (patched old u)))"
| "patch_phase f old u w _ = False"

definition merge_table ::
  "products_table \<Rightarrow> Product \<Rightarrow> ProductUpdate \<Rightarrow> ProductUpdate \<Rightarrow> bool \<Rightarrow> bool \<Rightarrow> products_table" where
  "merge_table t old u1 u2 w1 w2 =
     t\<lparr>rows := map (\<lambda>x. if id' x = id' old
                        then patched old \<lparr>pu_price = if w1 then pu_price u1 else None,
                                          pu_stock_quantity = if w2 then pu_stock_quantity u2 else None\<rparr>
                        else x) (rows t)\<rparr>"

text \<open>Ghost state for racing DELETEs: the outcomes a delete session may reach.\<close>

fun delete_session :: "session \<Rightarrow> bool" where
  "delete_session (Delete_Query _) = True"
| "delete_session (Delete_Write _) = True"
| "delete_session (Done out) =
     (out = Inr (Reply_Message ''Product deleted successfully'') \<or>
      out = Inl (Endpoint_Error (HTTPException 404 ''Product not found'')))"
| "delete_session _ = False"

lemmas concurrency_defs [model_defs] =
  dirty_def coerce_opt_def update_write_def refresh_def session_of_def serial_schedule_def


section \<open>Lemmas\<close>


lemma run_schedule_sound: "conc_step\<^sup>*\<^sup>* c (run_schedule sched c)"
proof (induction sched arbitrary: c)
  case Nil
  then show ?case by simp
next
  case (Cons i sched)
  obtain t ss where c: "c = (t, ss)" by fastforce
  show ?case
  proof (cases "i < length ss \<and> \<not> finished (ss ! i)")
    case True
    obtain s' t' where st: "session_step (ss ! i) t = (s', t')" by fastforce
    with True have "conc_step (t, ss) (t', ss[i := s'])" by (blast intro: conc_step.step)
    with True st Cons.IH [of "(t', ss[i := s'])"] show ?thesis
      unfolding c by (simp add: converse_rtranclp_into_rtranclp)
  next
    case False
    with Cons.IH [of c] show ?thesis unfolding c by auto
  qed
qed

lemma run_schedule_append:
  "run_schedule (sched @ sched') c = run_schedule sched' (run_schedule sched c)"
  by (induction sched c rule: run_schedule.induct) (simp_all split: prod.splits)

lemma run_schedule_step: "conc_step c c' \<Longrightarrow> \<exists>i. run_schedule [i] c = c'"
proof (induction rule: conc_step.induct)
  case (step i ss t s' t')
  then have "run_schedule [i] (t, ss) = (t', ss[i := s'])" by simp
  then show ?case by blast
qed

lemma conc_step_schedule: "conc_step\<^sup>*\<^sup>* c c' \<Longrightarrow> \<exists>sched. run_schedule sched c = c'"
proof (induction rule: rtranclp_induct)
  case base
  have "run_schedule [] c = c" by simp
  then show ?case by blast
next
  case (step c' c'')
  then obtain sched where "run_schedule sched c = c'" by blast
  moreover obtain i where "run_schedule [i] c' = c''"
    using run_schedule_step [OF step(2)] by blast
  ultimately have "run_schedule (sched @ [i]) c = c''" by (simp add: run_schedule_append)
  then show ?case by blast
qed

lemma steps_left_decreases:
  "\<not> finished s \<Longrightarrow> session_step s t = (s', t') \<Longrightarrow> steps_left s' < steps_left s"
  by (cases s) (auto simp: refresh_def split: option.splits sum.splits prod.splits)

lemma work_decreases: "conc_step c c' \<Longrightarrow> work c' < work c"
proof (induction rule: conc_step.induct)
  case (step i ss t s' t')
  have lt: "steps_left s' < steps_left (ss ! i)" using step steps_left_decreases by blast
  have le: "steps_left (ss ! i) \<le> sum_list (map steps_left ss)"
    using step(1) elem_le_sum_list [of i "map steps_left ss"] by simp
  have "sum_list (map steps_left (ss[i := s'])) =
      sum_list (map steps_left ss) + steps_left s' - steps_left (ss ! i)"
    using step(1) by (simp add: map_update sum_list_update)
  with lt le show ?case by (simp add: work_def)
qed


lemma coerce_opt_Inr:
  "coerce_opt c d = Inr d' \<longleftrightarrow> (d = None \<and> d' = None) \<or> (\<exists>x y. d = Some x \<and> c x = Inr y \<and> d' = Some y)"
  by (auto simp: coerce_opt_def split: option.splits sum.splits)

lemma row_ok_set_columns:
  assumes ok: "row_ok cur"
    and p: "coerce_opt (coerce_numeric 10 2) dp = Inr dp'"
    and s: "coerce_opt coerce_int4 ds = Inr ds'"
    and r: "r = cur\<lparr>price := (case dp' of None \<Rightarrow> price cur | Some v \<Rightarrow> v),
                    stock_quantity := (case ds' of None \<Rightarrow> stock_quantity cur | Some v \<Rightarrow> v)\<rparr>"
    and nn: "0 \<le> price r" "0 \<le> stock_quantity r"
  shows "row_ok r"
proof -
  have pr: "numeric_round 2 (price r) = price r \<and> \<bar>price r\<bar> < 10 ^ 8"
    using p ok unfolding r by (auto simp: coerce_opt_Inr coerce_numeric_Inr numeric_round_idem row_ok_def)
  have st: "stock_quantity r \<le> int4_max"
    using s ok unfolding r by (auto simp: coerce_opt_Inr coerce_int4_Inr row_ok_def)
  from ok pr st nn show ?thesis unfolding r by (simp add: row_ok_def)
qed

lemma update_write_cases:
  assumes "update_write snap u t = (res, t')"
  shows "t' = t \<or>
    (\<exists>cur dp' ds' r. query_by_id (id' snap) t = Some cur \<and>
       coerce_opt (coerce_numeric 10 2) (dirty (pu_price u) (price snap)) = Inr dp' \<and>
       coerce_opt coerce_int4 (dirty (pu_stock_quantity u) (stock_quantity snap)) = Inr ds' \<and>
       r = cur\<lparr>price := (case dp' of None \<Rightarrow> price cur | Some v \<Rightarrow> v),
               stock_quantity := (case ds' of None \<Rightarrow> stock_quantity cur | Some v \<Rightarrow> v)\<rparr> \<and>
       check_row r (filter (\<lambda>x. id' x \<noteq> id' cur) (rows t)) = Inr () \<and>
       t' = t\<lparr>rows := map (\<lambda>x. if id' x = id' cur then r else x) (rows t)\<rparr>)"
  using assms by (auto simp: update_write_def Let_def split: if_splits sum.splits option.splits)

lemma app_inv_update_write:
  assumes inv: "app_inv t"
  shows "app_inv (snd (update_write snap u t))"
proof (cases "update_write snap u t")
  case (Pair res t')
  from update_write_cases [OF this] show ?thesis
  proof
    assume "t' = t"
    with Pair inv show ?thesis by simp
  next
    assume "\<exists>cur dp' ds' r. query_by_id (id' snap) t = Some cur \<and>
       coerce_opt (coerce_numeric 10 2) (dirty (pu_price u) (price snap)) = Inr dp' \<and>
       coerce_opt coerce_int4 (dirty (pu_stock_quantity u) (stock_quantity snap)) = Inr ds' \<and>
       r = cur\<lparr>price := (case dp' of None \<Rightarrow> price cur | Some v \<Rightarrow> v),
               stock_quantity := (case ds' of None \<Rightarrow> stock_quantity cur | Some v \<Rightarrow> v)\<rparr> \<and>
       check_row r (filter (\<lambda>x. id' x \<noteq> id' cur) (rows t)) = Inr () \<and>
       t' = t\<lparr>rows := map (\<lambda>x. if id' x = id' cur then r else x) (rows t)\<rparr>"
    then obtain cur dp' ds' r where q: "query_by_id (id' snap) t = Some cur"
      and p: "coerce_opt (coerce_numeric 10 2) (dirty (pu_price u) (price snap)) = Inr dp'"
      and s: "coerce_opt coerce_int4 (dirty (pu_stock_quantity u) (stock_quantity snap)) = Inr ds'"
      and r: "r = cur\<lparr>price := (case dp' of None \<Rightarrow> price cur | Some v \<Rightarrow> v),
               stock_quantity := (case ds' of None \<Rightarrow> stock_quantity cur | Some v \<Rightarrow> v)\<rparr>"
      and c: "check_row r (filter (\<lambda>x. id' x \<noteq> id' cur) (rows t)) = Inr ()"
      and t': "t' = t\<lparr>rows := map (\<lambda>x. if id' x = id' cur then r else x) (rows t)\<rparr>"
      by blast
    have cur: "cur \<in> set (rows t)" using q by (simp add: query_by_id_Some)
    have ti: "table_inv t" using inv by (simp add: app_inv_def)
    have "row_ok r"
      using row_ok_set_columns [OF table_inv_row_ok [OF ti cur] p s r] c by (simp add: check_row_Inr)
    then have "table_inv t'" unfolding t' using ti cur r by (simp add: table_inv_replace_row)
    moreover have "\<forall>x \<in> set (rows t'). py_strip (product_name x) = product_name x"
      using inv cur unfolding t' r by (auto simp: app_inv_def)
    ultimately show ?thesis using Pair by (simp add: app_inv_def)
  qed
qed

lemma app_inv_session_step:
  assumes inv: "app_inv t"
  shows "app_inv (snd (session_step s t))"
proof -
  have ins: "app_inv t'" if "insert_product (py_strip n) p q t = (x, t')" for n p q x t'
    using app_inv_insert [OF inv, of n p q] that by simp
  have upd: "app_inv t'" if "update_write r u t = (x, t')" for r u x t'
    using app_inv_update_write [OF inv, of r u] that by simp
  show ?thesis
    using inv by (cases s) (auto simp: app_inv_delete_row dest: ins upd split: option.splits sum.splits prod.splits)
qed


lemma coerce_opt_dirty:
  assumes "c loaded = Inr loaded"
  shows "(case coerce_opt c (dirty new loaded) of Inl e \<Rightarrow> Inl e
            | Inr d \<Rightarrow> Inr (case d of None \<Rightarrow> loaded | Some v \<Rightarrow> v)) =
         c (case new of None \<Rightarrow> loaded | Some v \<Rightarrow> v)"
  using assms by (auto simp: coerce_opt_def dirty_def split: option.splits sum.splits)

lemma dirty_None: "dirty new loaded = None \<longleftrightarrow> (case new of None \<Rightarrow> loaded | Some v \<Rightarrow> v) = loaded"
  by (auto simp: dirty_def split: option.splits)

lemma update_write_agrees:
  fixes u :: ProductUpdate
  assumes inv: "table_inv t" and old: "old \<in> set (rows t)"
  defines "p \<equiv> case pu_price u of None \<Rightarrow> price old | Some v \<Rightarrow> v"
    and "s \<equiv> case pu_stock_quantity u of None \<Rightarrow> stock_quantity old | Some v \<Rightarrow> v"
  shows "update_write old u t =
    (case update_product_row old p s t of
       (Inl e, t') \<Rightarrow> (Inl (Endpoint_Error (Driver e)), t')
     | (Inr _, t') \<Rightarrow> (Inr (), t'))"
proof -
  have ok: "row_ok old" using inv old by (rule table_inv_row_ok)
  have cp: "coerce_numeric 10 2 (price old) = Inr (price old)"
    using ok by (auto simp: coerce_numeric_Inr row_ok_def)
  have cs: "coerce_int4 (stock_quantity old) = Inr (stock_quantity old)"
    using ok by (simp add: coerce_int4_Inr row_ok_def int4_min_def int4_max_def)
  have q: "query_by_id (id' old) t = Some old" using inv old by (rule query_by_id_row)
  note P = coerce_opt_dirty [where c = "coerce_numeric 10 2" and loaded = "price old" and new = "pu_price u", OF cp, folded p_def]
  note S = coerce_opt_dirty [where c = coerce_int4 and loaded = "stock_quantity old" and new = "pu_stock_quantity u", OF cs, folded s_def]
  show ?thesis
  proof (cases "p = price old \<and> s = stock_quantity old")
    case True
    then show ?thesis
      by (simp add: update_write_def update_product_row_def dirty_None p_def s_def del: dirty_def)
  next
    case False
    then have nd: "\<not> (dirty (pu_price u) (price old) = None \<and> dirty (pu_stock_quantity u) (stock_quantity old) = None)"
      by (simp add: dirty_None p_def s_def)
    with False q show ?thesis
      by (auto simp: update_write_def update_product_row_def coerce_price_stock_def Let_def
          P [symmetric] S [symmetric] split: sum.splits)
  qed
qed

lemma snd_lift_result [simp]: "snd (lift_result f r) = snd r"
  by (simp add: lift_result_def split: prod.splits sum.splits)

lemma app_inv_dispatch: "app_inv t \<Longrightarrow> app_inv (snd (dispatch c t))"
  by (cases c) (simp_all add: dispatch_def app_inv_create app_inv_update app_inv_delete
      get_products_def get_product_def split: option.splits)

lemma refresh_row: "table_inv t \<Longrightarrow> r \<in> set (rows t) \<Longrightarrow> refresh r t = Done (Inr (Reply_Product (ProductResponse_of r)))"
  by (simp add: refresh_def query_by_id_row)

lemma update_product_row_Inr_row:
  assumes u: "update_product_row old p s t = (Inr r, t')" and old: "old \<in> set (rows t)"
  shows "r \<in> set (rows t') \<and> id' r = id' old"
proof -
  from u have "(r = old \<and> t' = t) \<or>
      (r = old\<lparr>price := price r, stock_quantity := stock_quantity r\<rparr> \<and>
       t' = t\<lparr>rows := map (\<lambda>x. if id' x = id' old then r else x) (rows t)\<rparr>)"
    by (auto simp: update_product_row_Inr)
  then show ?thesis
  proof
    assume "r = old \<and> t' = t"
    with old show ?thesis by simp
  next
    assume a: "r = old\<lparr>price := price r, stock_quantity := stock_quantity r\<rparr> \<and>
       t' = t\<lparr>rows := map (\<lambda>x. if id' x = id' old then r else x) (rows t)\<rparr>"
    have i: "id' r = id' old" using arg_cong [OF conjunct1 [OF a], of id'] by simp
    have "(\<lambda>x. if id' x = id' old then r else x) old \<in> set (map (\<lambda>x. if id' x = id' old then r else x) (rows t))"
      using old by simp
    with a i show ?thesis by simp
  qed
qed

lemma single_create:
  assumes inv: "app_inv t"
  shows "run_schedule [0, 0, 0] (t, [Create_Query p]) =
    (snd (dispatch (Call_Create p) t), [Done (outcome_of (fst (dispatch (Call_Create p) t)))])"
proof (cases "query_by_name (pc_product_name p) t")
  case None
  show ?thesis
  proof (cases "insert_product (py_strip (pc_product_name p)) (pc_price p) (pc_stock_quantity p) t")
    case (Pair res t')
    have "table_inv (snd (insert_product (py_strip (pc_product_name p)) (pc_price p) (pc_stock_quantity p) t))"
      using inv by (simp add: app_inv_def table_inv_insert)
    with Pair have ti: "table_inv t'" by simp
    show ?thesis
    proof (cases res)
      case (Inl e)
      with None Pair show ?thesis by (simp add: dispatch_def create_product_def lift_result_def)
    next
      case (Inr r)
      with Pair have "r \<in> set (rows t')" by (simp add: insert_product_Inr_row)
      with None Pair Inr ti show ?thesis
        by (simp add: dispatch_def create_product_def lift_result_def refresh_row)
    qed
  qed
qed (simp add: dispatch_def create_product_def lift_result_def)

lemma single_update:
  assumes inv: "app_inv t"
  shows "run_schedule [0, 0, 0] (t, [Update_Query i u]) =
    (snd (dispatch (Call_Update i u) t), [Done (outcome_of (fst (dispatch (Call_Update i u) t)))])"
proof (cases "query_by_id i t")
  case (Some old)
  have ti: "table_inv t" using inv by (simp add: app_inv_def)
  have old: "old \<in> set (rows t)" "id' old = i" using Some by (simp_all add: query_by_id_Some)
  let ?p = "case pu_price u of None \<Rightarrow> price old | Some v \<Rightarrow> v"
  let ?s = "case pu_stock_quantity u of None \<Rightarrow> stock_quantity old | Some v \<Rightarrow> v"
  show ?thesis
  proof (cases "update_product_row old ?p ?s t")
    case (Pair res t')
    have w: "update_write old u t = (case res of Inl e \<Rightarrow> Inl (Endpoint_Error (Driver e)) | Inr _ \<Rightarrow> Inr (), t')"
      using update_write_agrees [OF ti old(1), of u] Pair by (simp split: sum.splits)
    show ?thesis
    proof (cases res)
      case (Inl e)
      with Some Pair w show ?thesis by (simp add: dispatch_def update_product_def lift_result_def)
    next
      case (Inr r)
      have ti': "table_inv t'" using table_inv_update [OF ti old(1), of ?p ?s] Pair by simp
      from Pair Inr old(1) have "r \<in> set (rows t') \<and> id' r = id' old"
        by (simp add: update_product_row_Inr_row)
      then have "query_by_id (id' old) t' = Some r" using ti' query_by_id_row [OF ti'] by metis
      then have "refresh old t' = Done (Inr (Reply_Product (ProductResponse_of r)))"
        by (simp add: refresh_def)
      with Some Pair Inr w show ?thesis by (simp add: dispatch_def update_product_def lift_result_def)
    qed
  qed
qed (simp add: dispatch_def update_product_def lift_result_def)

lemma single_session:
  assumes "app_inv t"
  shows "run_schedule [0, 0, 0] (t, [session_of c]) =
    (snd (dispatch c t), [Done (outcome_of (fst (dispatch c t)))])"
proof (cases c)
  case (Call_Create p)
  have "session_of c = Create_Query p" using Call_Create by (simp add: session_of_def)
  then show ?thesis unfolding Call_Create by (simp only:) (rule single_create [OF assms])
next
  case (Call_Update i u)
  have "session_of c = Update_Query i u" using Call_Update by (simp add: session_of_def)
  then show ?thesis unfolding Call_Update by (simp only:) (rule single_update [OF assms])
qed (auto simp: session_of_def dispatch_def lift_result_def get_products_def get_product_def
      delete_product_def split: option.splits)


lemma run_schedule_local:
  assumes "i < length ss"
  shows "run_schedule (replicate n i) (t, ss) =
    (fst (run_schedule (replicate n 0) (t, [ss ! i])),
     ss[i := hd (snd (run_schedule (replicate n 0) (t, [ss ! i])))])"
  using assms
proof (induction n arbitrary: t ss)
  case 0
  then show ?case by simp
next
  case (Suc n)
  show ?case
  proof (cases "finished (ss ! i)")
    case True
    with Suc show ?thesis by simp
  next
    case False
    obtain s' t' where st: "session_step (ss ! i) t = (s', t')" by fastforce
    from Suc.IH [of "ss[i := s']" t'] Suc.prems False st show ?thesis by simp
  qed
qed

lemma serial_generic:
  assumes single: "\<And>x t. P t \<Longrightarrow> run_schedule [0, 0, 0] (t, [s x]) = (snd (f x t), [Done (fst (f x t))])"
    and pres: "\<And>x t. P t \<Longrightarrow> P (snd (f x t))"
    and "P t"
  shows "run_schedule (concat (map (\<lambda>i. replicate 3 i) [length pre..<length pre + length xs]))
           (t, pre @ map s xs) =
         (snd (run_serial f xs t), pre @ map Done (fst (run_serial f xs t)))"
  using \<open>P t\<close>
proof (induction xs arbitrary: t pre)
  case Nil
  then show ?case by simp
next
  case (Cons x xs)
  obtain out t' where d: "f x t = (out, t')" by fastforce
  have inv': "P t'" using pres [OF Cons.prems, of x] d by simp
  have one: "run_schedule (replicate 3 (length pre)) (t, pre @ map s (x # xs)) =
      (t', (pre @ [Done out]) @ map s xs)"
    using run_schedule_local [of "length pre" "pre @ map s (x # xs)" 3 t] single [OF Cons.prems, of x] d
    by (simp add: numeral_3_eq_3 list_update_append)
  have up: "[length pre..<length pre + length (x # xs)] =
      length pre # [length (pre @ [Done out])..<length (pre @ [Done out]) + length xs]"
    by (simp add: upt_rec)
  show ?case
    unfolding up using one Cons.IH [OF inv', of "pre @ [Done out]"] d
    by (simp add: run_schedule_append split: prod.splits)
qed

lemma run_serial_dispatch:
  "run_serial (\<lambda>c t. (outcome_of (fst (dispatch c t)), snd (dispatch c t))) cs t =
     (map outcome_of (fst (dispatch_all cs t)), snd (dispatch_all cs t))"
  by (induction cs arbitrary: t) (simp_all split: prod.splits)

lemma create_ok_mono: "create_ok t s \<Longrightarrow> set (rows t) \<subseteq> set (rows t') \<Longrightarrow> create_ok t' s"
  by (induction t s rule: create_ok.induct) auto

lemma claimed_id_row: "create_ok t s \<Longrightarrow> claimed_id s = Some k \<Longrightarrow> k \<in> id' ` set (rows t)"
  by (induction t s rule: create_ok.induct) (auto simp: ProductResponse_of_def)

lemma create_step:
  assumes inv: "app_inv t" and ok: "create_ok t s" and nf: "\<not> finished s"
    and st: "session_step s t = (s', t')"
  shows "set (rows t) \<subseteq> set (rows t') \<and> create_ok t' s' \<and>
    (claimed_id s' = claimed_id s \<or> claimed_id s' = None \<or> claimed_id s' = Some (seq_next t))"
proof (cases s)
  case (Create_Insert pc)
  show ?thesis
  proof (cases "insert_product (py_strip (pc_product_name pc)) (pc_price pc) (pc_stock_quantity pc) t")
    case (Pair res t'')
    show ?thesis
    proof (cases res)
      case (Inl e)
      with Pair Create_Insert st have "s' = Done (Inl (Endpoint_Error (Driver e)))" "t' = t''" by simp_all
      moreover have "rows t'' = rows t" using Pair Inl by (blast dest: insert_product_Inl)
      ultimately show ?thesis by simp
    next
      case (Inr r)
      with Pair Create_Insert st have "s' = Create_Refresh r" "t' = t''" by simp_all
      moreover have "id' r = seq_next t \<and> rows t'' = rows t @ [r]"
        using Pair Inr by (simp add: insert_product_Inr_row)
      ultimately show ?thesis by auto
    qed
  qed
next
  case (Create_Refresh r)
  have "query_by_id (id' r) t = Some r"
    using inv ok Create_Refresh by (simp add: app_inv_def query_by_id_row)
  with st Create_Refresh ok show ?thesis by (auto simp: refresh_def ProductResponse_of_def)
qed (use ok nf st in \<open>auto split: option.splits\<close>)

lemma claimed_lt: "app_inv t \<Longrightarrow> create_ok t s \<Longrightarrow> claimed_id s = Some x \<Longrightarrow> x < seq_next t"
  by (auto simp: app_inv_def table_inv_def dest: claimed_id_row)

lemma creates_inv_step:
  assumes "conc_step c c'" and "creates_inv c"
  shows "creates_inv c'"
  using assms
proof (induction rule: conc_step.induct)
  case (step i ss t s' t')
  have inv: "app_inv t" and ok: "\<forall>s \<in> set ss. create_ok t s" and d: "distinct_claims claimed_id ss"
    using step.prems by (simp_all add: creates_inv_def)
  have cs: "set (rows t) \<subseteq> set (rows t') \<and> create_ok t' s' \<and>
      (claimed_id s' = claimed_id (ss ! i) \<or> claimed_id s' = None \<or> claimed_id s' = Some (seq_next t))"
    using create_step [OF inv _ step(2,3)] ok step(1) by simp
  have fresh: "claimed_id (ss ! k) \<noteq> Some (seq_next t)" if "k < length ss" for k
    using claimed_lt [OF inv, of "ss ! k" "seq_next t"] ok that by auto
  have "app_inv t'" using app_inv_session_step [OF inv, of "ss ! i"] step(3) by simp
  moreover have "\<forall>s \<in> set (ss[i := s']). create_ok t' s"
    using ok cs create_ok_mono set_update_subset_insert [of ss i s'] by blast
  moreover have "distinct_claims claimed_id (ss[i := s'])"
    using distinct_claims_update [OF d step(1), of s'] cs fresh by metis
  ultimately show ?case by (simp add: creates_inv_def)
qed

lemma creates_inv_reach: "conc_step\<^sup>*\<^sup>* c c' \<Longrightarrow> creates_inv c \<Longrightarrow> creates_inv c'"
  by (induction rule: rtranclp_induct) (auto intro: creates_inv_step)

lemma creates_inv_start: "app_inv t \<Longrightarrow> creates_inv (t, map Create_Query pcs)"
  by (simp add: creates_inv_def distinct_claims_def)


lemma sum_list_steps_left: "sum_list (map steps_left ss) \<le> 3 * length ss"
proof (induction ss)
  case (Cons s ss)
  have "steps_left s \<le> 3" by (cases s) simp_all
  with Cons show ?case by simp
qed simp

lemma conc_steps_bounded: "(conc_step ^^ n) c c' \<Longrightarrow> n + work c' \<le> work c"
proof (induction n arbitrary: c')
  case (Suc n)
  from Suc.prems obtain c'' where "(conc_step ^^ n) c c''" and "conc_step c'' c'" by auto
  with Suc.IH [of c''] work_decreases [of c'' c'] show ?case by simp
qed simp

lemma conc_can_finish: "\<exists>c'. conc_step\<^sup>*\<^sup>* c c' \<and> (\<forall>s \<in> set (snd c'). finished s)"
proof (induction c rule: measure_induct_rule [of work])
  case (less c)
  obtain t ss where c: "c = (t, ss)" by fastforce
  show ?case
  proof (cases "\<forall>s \<in> set ss. finished s")
    case True
    with c show ?thesis by auto
  next
    case False
    then obtain i where i: "i < length ss" "\<not> finished (ss ! i)" by (auto simp: in_set_conv_nth)
    obtain s' t' where st: "session_step (ss ! i) t = (s', t')" by fastforce
    with i have cs: "conc_step c (t', ss[i := s'])" unfolding c by (blast intro: conc_step.step)
    then obtain c' where "conc_step\<^sup>*\<^sup>* (t', ss[i := s']) c'" "\<forall>s \<in> set (snd c'). finished s"
      using less work_decreases by blast
    with cs show ?thesis by (blast intro: converse_rtranclp_into_rtranclp)
  qed
qed

subsection \<open>Racing PATCHes and DELETEs\<close>

lemma map_replace_twice:
  "id' r = i \<Longrightarrow>
   map (\<lambda>x. if id' x = i then r' else x) (map (\<lambda>x. if id' x = i then r else x) xs) =
   map (\<lambda>x. if id' x = i then r' else x) xs"
  by (induction xs) auto

lemma filter_replace:
  "id' r = i \<Longrightarrow> filter (\<lambda>x. id' x \<noteq> i) (map (\<lambda>x. if id' x = i then r else x) xs) = filter (\<lambda>x. id' x \<noteq> i) xs"
  by (induction xs) auto

lemma query_by_id_replace:
  assumes "table_inv t" and "old \<in> set (rows t)" and "id' r = id' old"
  shows "query_by_id (id' old) (t\<lparr>rows := map (\<lambda>x. if id' x = id' old then r else x) (rows t)\<rparr>) = Some r"
proof -
  have "find (\<lambda>x. id' x = id' old) (rows t) = Some old"
    using query_by_id_row [OF assms(1,2)] by (simp add: query_by_id_def)
  moreover have "(\<lambda>x. id' x = id' old) \<circ> (\<lambda>x. if id' x = id' old then r else x) = (\<lambda>x. id' x = id' old)"
    using assms(3) by (auto simp: fun_eq_iff)
  ultimately show ?thesis unfolding query_by_id_def by (simp add: find_map_option)
qed

lemma check_row_replace:
  assumes inv: "table_inv t" and old: "old \<in> set (rows t)"
    and r: "id' r = id' old" "product_name r = product_name old" "0 \<le> price r" "0 \<le> stock_quantity r"
    and r': "id' r' = id' old"
  shows "check_row r (filter (\<lambda>x. id' x \<noteq> id' old) (map (\<lambda>x. if id' x = id' old then r' else x) (rows t))) = Inr ()"
proof -
  have names: "inj_on product_name (set (rows t))" using inv by (simp add: table_inv_def distinct_map)
  have "product_name old \<notin> product_name ` set (filter (\<lambda>x. id' x \<noteq> id' old) (rows t))"
    using names old by (auto dest: inj_onD)
  then show ?thesis using r r' by (auto simp: check_row_def filter_replace)
qed

lemma merge_table_query:
  assumes "table_inv t0" and "old \<in> set (rows t0)"
  shows "query_by_id (id' old) (merge_table t0 old u1 u2 w1 w2) =
    Some (patched old \<lparr>pu_price = if w1 then pu_price u1 else None,
                       pu_stock_quantity = if w2 then pu_stock_quantity u2 else None\<rparr>)"
  unfolding merge_table_def using assms by (intro query_by_id_replace) (simp_all add: patched_def)

lemma price_patch_step:
  assumes inv: "table_inv t0" and old: "old \<in> set (rows t0)"
    and u1: "pu_stock_quantity u1 = None"
    and p: "\<And>v. pu_price u1 = Some v \<Longrightarrow> 0 < v \<and> \<bar>numeric_round 2 v\<bar> < 10 ^ 8"
    and q: "\<And>v. pu_stock_quantity u2 = Some v \<Longrightarrow> 0 \<le> v"
    and ph: "patch_phase price old u1 w1 s" and nf: "\<not> finished s"
    and st: "session_step s (merge_table t0 old u1 u2 w1 w2) = (s', t')"
  shows "\<exists>w1'. t' = merge_table t0 old u1 u2 w1' w2 \<and> patch_phase price old u1 w1' s'"
proof -
  let ?t = "merge_table t0 old u1 u2 w1 w2"
  let ?R = "\<lambda>w1 w2. patched old \<lparr>pu_price = if w1 then pu_price u1 else None,
                                   pu_stock_quantity = if w2 then pu_stock_quantity u2 else None\<rparr>"
  have ok: "row_ok old" using inv old by (rule table_inv_row_ok)
  have qry: "query_by_id (id' old) ?t = Some (?R w1 w2)" using inv old by (rule merge_table_query)
  have stock0: "0 \<le> stock_quantity (?R w1' w2)" for w1'
    using ok q by (cases "pu_stock_quantity u2") (auto simp: patched_def row_ok_def)
  show ?thesis
  proof (cases s)
    case (Update_Query i u)
    with ph have "\<not> w1" "i = id' old" "u = u1" by simp_all
    with Update_Query st qry show ?thesis by (auto simp: patched_def)
  next
    case (Update_Write r u)
    with ph have w1: "\<not> w1" and r: "id' r = id' old" "price r = price old" and u: "u = u1" by simp_all
    have same: "merge_table t0 old u1 u2 True w2 = ?t" if "pu_price u1 = None \<or> numeric_round 2 (price old) = price old \<and> pu_price u1 = Some (price old)"
      using that w1 by (auto simp: merge_table_def patched_def)
    show ?thesis
    proof (cases "pu_price u1")
      case None
      with st Update_Write u u1 r same show ?thesis by (auto simp: update_write_def dirty_def)
    next
      case (Some v)
      show ?thesis
      proof (cases "v = price old")
        case True
        with Some st Update_Write u u1 r same ok show ?thesis
          by (auto simp: update_write_def dirty_def row_ok_def)
      next
        case False
        have cv: "coerce_numeric 10 2 v = Inr (numeric_round 2 v)" using p [OF Some] by (simp add: coerce_numeric_Inr)
        have nn: "0 \<le> numeric_round 2 v" using p [OF Some] by (simp add: numeric_round_nonneg)
        let ?r' = "(?R w1 w2)\<lparr>price := numeric_round 2 v\<rparr>"
        have r'R: "?r' = ?R True w2" using w1 Some by (simp add: patched_def)
        have chk: "check_row ?r' (filter (\<lambda>x. id' x \<noteq> id' old) (rows ?t)) = Inr ()"
          unfolding merge_table_def using inv old nn stock0 [of w1]
          by (simp add: check_row_replace patched_def)
        have "update_write r u1 ?t = (Inr (), ?t\<lparr>rows := map (\<lambda>x. if id' x = id' old then ?r' else x) (rows ?t)\<rparr>)"
          using Some False u1 cv qry chk r by (simp add: update_write_def dirty_def coerce_opt_def Let_def)
        moreover have "?t\<lparr>rows := map (\<lambda>x. if id' x = id' old then ?r' else x) (rows ?t)\<rparr> =
            merge_table t0 old u1 u2 True w2"
          unfolding r'R by (simp add: merge_table_def map_replace_twice patched_def)
        ultimately have "session_step s ?t = (Update_Refresh r, merge_table t0 old u1 u2 True w2)"
          using Update_Write u by simp
        with st r show ?thesis by auto
      qed
    qed
  next
    case (Update_Refresh r)
    with ph have w1: w1 and r: "id' r = id' old" by simp_all
    with Update_Refresh st qry have "s' = Done (Inr (Reply_Product (ProductResponse_of (?R w1 w2))))" "t' = ?t"
      by (auto simp: refresh_def)
    moreover have "price (?R w1 w2) = price (patched old u1)" using w1 u1 by (simp add: patched_def)
    moreover have "id' (?R w1 w2) = id' old" by (simp add: patched_def)
    ultimately show ?thesis using w1 by (auto intro!: exI[of _ w1] exI[of _ "?R w1 w2"])
  qed (use ph nf in simp_all)
qed

lemma stock_patch_step:
  assumes inv: "table_inv t0" and old: "old \<in> set (rows t0)"
    and u2: "pu_price u2 = None"
    and p: "\<And>v. pu_price u1 = Some v \<Longrightarrow> 0 < v"
    and q: "\<And>v. pu_stock_quantity u2 = Some v \<Longrightarrow> 0 \<le> v \<and> v \<le> int4_max"
    and ph: "patch_phase stock_quantity old u2 w2 s" and nf: "\<not> finished s"
    and st: "session_step s (merge_table t0 old u1 u2 w1 w2) = (s', t')"
  shows "\<exists>w2'. t' = merge_table t0 old u1 u2 w1 w2' \<and> patch_phase stock_quantity old u2 w2' s'"
proof -
  let ?t = "merge_table t0 old u1 u2 w1 w2"
  let ?R = "\<lambda>w1 w2. patched old \<lparr>pu_price = if w1 then pu_price u1 else None,
                                   pu_stock_quantity = if w2 then pu_stock_quantity u2 else None\<rparr>"
  have ok: "row_ok old" using inv old by (rule table_inv_row_ok)
  have qry: "query_by_id (id' old) ?t = Some (?R w1 w2)" using inv old by (rule merge_table_query)
  have price0: "0 \<le> price (?R w1 w2')" for w2'
    using ok p by (cases "pu_price u1") (auto simp: patched_def row_ok_def numeric_round_nonneg)
  show ?thesis
  proof (cases s)
    case (Update_Query i u)
    with ph have "\<not> w2" "i = id' old" "u = u2" by simp_all
    with Update_Query st qry show ?thesis by (auto simp: patched_def)
  next
    case (Update_Write r u)
    with ph have w2: "\<not> w2" and r: "id' r = id' old" "stock_quantity r = stock_quantity old" and u: "u = u2"
      by simp_all
    have same: "merge_table t0 old u1 u2 w1 True = ?t"
      if "pu_stock_quantity u2 = None \<or> pu_stock_quantity u2 = Some (stock_quantity old)"
      using that w2 by (auto simp: merge_table_def patched_def)
    show ?thesis
    proof (cases "pu_stock_quantity u2")
      case None
      with st Update_Write u u2 r same show ?thesis by (auto simp: update_write_def dirty_def)
    next
      case (Some v)
      show ?thesis
      proof (cases "v = stock_quantity old")
        case True
        with Some st Update_Write u u2 r same show ?thesis by (auto simp: update_write_def dirty_def)
      next
        case False
        have cv: "coerce_int4 v = Inr v" using q [OF Some] by (simp add: coerce_int4_Inr int4_min_def)
        let ?r' = "(?R w1 w2)\<lparr>stock_quantity := v\<rparr>"
        have r'R: "?r' = ?R w1 True" using w2 Some by (simp add: patched_def)
        have chk: "check_row ?r' (filter (\<lambda>x. id' x \<noteq> id' old) (rows ?t)) = Inr ()"
          unfolding merge_table_def using inv old q [OF Some] price0 [of w2]
          by (simp add: check_row_replace patched_def)
        have "update_write r u2 ?t = (Inr (), ?t\<lparr>rows := map (\<lambda>x. if id' x = id' old then ?r' else x) (rows ?t)\<rparr>)"
          using Some False u2 cv qry chk r by (simp add: update_write_def dirty_def coerce_opt_def Let_def)
        moreover have "?t\<lparr>rows := map (\<lambda>x. if id' x = id' old then ?r' else x) (rows ?t)\<rparr> =
            merge_table t0 old u1 u2 w1 True"
          unfolding r'R by (simp add: merge_table_def map_replace_twice patched_def)
        ultimately have "session_step s ?t = (Update_Refresh r, merge_table t0 old u1 u2 w1 True)"
          using Update_Write u by simp
        with st r show ?thesis by auto
      qed
    qed
  next
    case (Update_Refresh r)
    with ph have w2: w2 and r: "id' r = id' old" by simp_all
    with Update_Refresh st qry have "s' = Done (Inr (Reply_Product (ProductResponse_of (?R w1 w2))))" "t' = ?t"
      by (auto simp: refresh_def)
    moreover have "stock_quantity (?R w1 w2) = stock_quantity (patched old u2)" using w2 u2 by (simp add: patched_def)
    moreover have "id' (?R w1 w2) = id' old" by (simp add: patched_def)
    ultimately show ?thesis using w2 by (auto intro!: exI[of _ w2] exI[of _ "?R w1 w2"])
  qed (use ph nf in simp_all)
qed

lemma patches_reach:
  assumes inv: "table_inv t0" and old: "old \<in> set (rows t0)"
    and u1: "pu_stock_quantity u1 = None" and u2: "pu_price u2 = None"
    and p: "\<And>v. pu_price u1 = Some v \<Longrightarrow> 0 < v \<and> \<bar>numeric_round 2 v\<bar> < 10 ^ 8"
    and q: "\<And>v. pu_stock_quantity u2 = Some v \<Longrightarrow> 0 \<le> v \<and> v \<le> int4_max"
    and run: "conc_step\<^sup>*\<^sup>* (merge_table t0 old u1 u2 w1 w2, [a, b]) c"
    and pa: "patch_phase price old u1 w1 a" and pb: "patch_phase stock_quantity old u2 w2 b"
  shows "\<exists>w1 w2 a b. c = (merge_table t0 old u1 u2 w1 w2, [a, b]) \<and>
           patch_phase price old u1 w1 a \<and> patch_phase stock_quantity old u2 w2 b"
  using run
proof (induction rule: rtranclp_induct)
  case base
  then show ?case using pa pb by blast
next
  case (step c' c'')
  then obtain w1 w2 a b where c': "c' = (merge_table t0 old u1 u2 w1 w2, [a, b])"
    and pa: "patch_phase price old u1 w1 a" and pb: "patch_phase stock_quantity old u2 w2 b" by blast
  from step.hyps(2) obtain i s' t' where i: "i < length [a, b]" and nf: "\<not> finished ([a, b] ! i)"
    and st: "session_step ([a, b] ! i) (merge_table t0 old u1 u2 w1 w2) = (s', t')"
    and c'': "c'' = (t', [a, b][i := s'])"
    unfolding c' by (cases rule: conc_step.cases) blast
  show ?case
  proof (cases "i = 0")
    case True
    with nf st have "\<exists>w1'. t' = merge_table t0 old u1 u2 w1' w2 \<and> patch_phase price old u1 w1' s'"
      using price_patch_step [OF inv old u1 p _ pa] q by simp
    with True c'' pb show ?thesis by auto
  next
    case False
    with i have i1: "i = 1" by simp
    with nf st have "\<exists>w2'. t' = merge_table t0 old u1 u2 w1 w2' \<and> patch_phase stock_quantity old u2 w2' s'"
      using stock_patch_step [OF inv old u2 _ q pb] p by simp
    with i1 c'' pa show ?thesis by auto
  qed
qed

lemma merge_table_start: "table_inv t0 \<Longrightarrow> old \<in> set (rows t0) \<Longrightarrow> merge_table t0 old u1 u2 False False = t0"
proof -
  assume "table_inv t0" "old \<in> set (rows t0)"
  then have m: "map (\<lambda>x. if id' x = id' old then old else x) (rows t0) = rows t0" by (rule replace_row_self)
  have "patched old \<lparr>pu_price = None, pu_stock_quantity = None\<rparr> = old" by (simp add: patched_def)
  then show ?thesis unfolding merge_table_def if_False by (simp only:) (simp add: m)
qed

lemma delete_session_step:
  "delete_session s \<Longrightarrow> delete_session (fst (session_step s t))"
  by (cases s) (auto split: option.splits)

lemma delete_sessions_reach:
  assumes "conc_step\<^sup>*\<^sup>* c c'" and "list_all delete_session (snd c)"
  shows "list_all delete_session (snd c')"
  using assms
proof (induction rule: rtranclp_induct)
  case (step c' c'')
  from step.hyps(2) obtain i ss t0 s' t1 where c: "c' = (t0, ss)" "c'' = (t1, ss[i := s'])"
    and i: "i < length ss" and st: "session_step (ss ! i) t0 = (s', t1)"
    by (cases rule: conc_step.cases) auto
  have all: "list_all delete_session ss" using step.IH step.prems c by simp
  then have "delete_session (ss ! i)" using i by (simp add: list_all_length)
  from delete_session_step [OF this, of t0] st have "delete_session s'" by simp
  with all i c show ?case by (simp add: list_all_length nth_list_update)
qed simp

subsection \<open>Runs of the examples\<close>

lemma race_run:
  "run_schedule [0, 1, 0, 1, 0, 1] (empty_table, [Create_Query widget_create, Create_Query widget_create]) =
   (\<lparr>rows = [widget_row], seq_next = 3\<rparr>,
    [Done (Inr (Reply_Product (ProductResponse_of widget_row))),
     Done (Inl (Endpoint_Error (Driver (IntegrityError products_product_name_key))))])"
  by (simp add: model_defs Let_def py_isspace_def)

lemma race_serial:
  "dispatch_all [Call_Create widget_create, Call_Create widget_create] empty_table =
   ([Got (ProductResponse_of widget_row), Failed (HTTPException 400 ''Product already exists'')], widget_table)"
  by (simp add: model_defs Let_def py_isspace_def dispatch_def lift_result_def)

lemma two_names_run:
  "run_schedule [0, 1, 0, 1, 0, 1]
     (empty_table, map Create_Query [widget_create, \<lparr>pc_product_name = ''Gadget'', pc_price = 5, pc_stock_quantity = 1\<rparr>]) =
   (\<lparr>rows = [widget_row, \<lparr>id' = 2, product_name = ''Gadget'', price = 5, stock_quantity = 1\<rparr>], seq_next = 3\<rparr>,
    [Done (Inr (Reply_Product (ProductResponse_of widget_row))),
     Done (Inr (Reply_Product (ProductResponse_of \<lparr>id' = 2, product_name = ''Gadget'', price = 5, stock_quantity = 1\<rparr>)))])"
  by (simp add: model_defs Let_def py_isspace_def numeric_round_def)

lemma merge_run:
  "run_schedule [0, 1, 0, 1, 0, 1]
     (widget_table, [Update_Query 1 \<lparr>pu_price = Some 5, pu_stock_quantity = None\<rparr>,
                     Update_Query 1 \<lparr>pu_price = None, pu_stock_quantity = Some 3\<rparr>]) =
   (\<lparr>rows = [widget_row\<lparr>price := 5, stock_quantity := 3\<rparr>], seq_next = 2\<rparr>,
    [Done (Inr (Reply_Product (ProductResponse_of (widget_row\<lparr>price := 5, stock_quantity := 3\<rparr>)))),
     Done (Inr (Reply_Product (ProductResponse_of (widget_row\<lparr>price := 5, stock_quantity := 3\<rparr>))))])"
  by (simp add: model_defs Let_def numeric_round_def int4_min_def int4_max_def)

lemma double_delete_run:
  "run_schedule [0, 1, 0, 1] (widget_table, [Delete_Query 1, Delete_Query 1]) =
   (\<lparr>rows = [], seq_next = 2\<rparr>,
    [Done (Inr (Reply_Message ''Product deleted successfully'')),
     Done (Inr (Reply_Message ''Product deleted successfully''))])"
  by (simp add: model_defs)

lemma double_delete_serial:
  "dispatch_all [Call_Delete 1, Call_Delete 1] widget_table =
   ([Deleted ''Product deleted successfully'', Failed (HTTPException 404 ''Product not found'')],
    \<lparr>rows = [], seq_next = 2\<rparr>)"
  by (simp add: model_defs dispatch_def lift_result_def)

lemma update_delete_run:
  "run_schedule [0, 1, 1, 0, 0]
     (widget_table, [Update_Query 1 \<lparr>pu_price = None, pu_stock_quantity = Some 5\<rparr>, Delete_Query 1]) =
   (\<lparr>rows = [], seq_next = 2\<rparr>,
    [Done (Inl (ORM_Error StaleDataError)), Done (Inr (Reply_Message ''Product deleted successfully''))])"
  by (simp add: model_defs Let_def int4_min_def int4_max_def)

section \<open>Properties of concurrent requests\<close>

text \<open>
  C19. Whatever the interleaving of the requests in flight, every committed
  state satisfies the application invariant: ids and names unique, the check
  constraints and column types, and stripped names. The database's constraints,
  not the handlers' checks, are what keeps it under concurrency.
\<close>

theorem concurrent_steps_keep_app_inv:
  assumes "conc_step\<^sup>*\<^sup>* c c'" and "app_inv (fst c)"
  shows "app_inv (fst c')"
  using assms
proof (induction rule: rtranclp_induct)
  case (step c' c'')
  from step.hyps(2) obtain i ss t s' t' where "c' = (t, ss)" and "c'' = (t', ss[i := s'])"
    and "session_step (ss ! i) t = (s', t')"
    by (cases rule: conc_stepE) auto
  with step.IH step.prems app_inv_session_step [of t "ss ! i"] show ?case by simp
qed

theorem concurrent_steps_keep_app_inv_witness:
  "app_inv empty_table \<and>
   conc_step\<^sup>*\<^sup>* (empty_table, [Create_Query widget_create, Create_Query widget_create])
     (\<lparr>rows = [widget_row], seq_next = 3\<rparr>,
      [Done (Inr (Reply_Product (ProductResponse_of widget_row))),
       Done (Inl (Endpoint_Error (Driver (IntegrityError products_product_name_key))))]) \<and>
   app_inv \<lparr>rows = [widget_row], seq_next = 3\<rparr>"
proof -
  have r: "conc_step\<^sup>*\<^sup>* (empty_table, [Create_Query widget_create, Create_Query widget_create])
     (\<lparr>rows = [widget_row], seq_next = 3\<rparr>,
      [Done (Inr (Reply_Product (ProductResponse_of widget_row))),
       Done (Inl (Endpoint_Error (Driver (IntegrityError products_product_name_key))))])"
    using run_schedule_sound [of _ "[0, 1, 0, 1, 0, 1]"] race_run by metis
  show ?thesis using concurrent_steps_keep_app_inv [OF r] r empty_table_inv by simp
qed

text \<open>
  C20. Creations running concurrently never both succeed with the same name:
  two creates that both returned a product returned different names (and
  ids), and both rows are committed. The existence check can be passed by
  both; the unique constraint on the name stops the second insert.
\<close>

theorem concurrent_creates_distinct:
  assumes run: "conc_step\<^sup>*\<^sup>* (t, map Create_Query pcs) (t', ss)" and inv: "app_inv t"
    and j: "j < length ss" and k: "k < length ss" and jk: "j \<noteq> k"
    and a: "ss ! j = Done (Inr (Reply_Product a))" and b: "ss ! k = Done (Inr (Reply_Product b))"
  shows "resp_product_name a \<noteq> resp_product_name b \<and>
    a \<in> ProductResponse_of ` set (rows t') \<and> b \<in> ProductResponse_of ` set (rows t')"
proof -
  have ci: "creates_inv (t', ss)" using creates_inv_reach [OF run creates_inv_start [OF inv]] .
  then have ok: "create_ok t' (ss ! j)" "create_ok t' (ss ! k)" and ti: "table_inv t'"
    and d: "distinct_claims claimed_id ss"
    using j k by (simp_all add: creates_inv_def app_inv_def)
  have "claimed_id (ss ! j) \<noteq> None" using a by simp
  with d j k jk have ne: "claimed_id (ss ! j) \<noteq> claimed_id (ss ! k)" by (simp add: distinct_claims_def)
  from ok a b obtain ra rb where ra: "ra \<in> set (rows t')" "a = ProductResponse_of ra"
    and rb: "rb \<in> set (rows t')" "b = ProductResponse_of rb" by auto
  have "ra \<noteq> rb" using ne a b ra rb by auto
  then have "product_name ra \<noteq> product_name rb"
    using ti ra rb by (auto simp: table_inv_def dest: inj_onD [OF distinct_map [THEN iffD1, THEN conjunct2]])
  with ra rb show ?thesis by (auto simp: ProductResponse_of_def)
qed

theorem concurrent_creates_distinct_witness:
  "conc_step\<^sup>*\<^sup>*
     (empty_table, map Create_Query [widget_create, \<lparr>pc_product_name = ''Gadget'', pc_price = 5, pc_stock_quantity = 1\<rparr>])
     (\<lparr>rows = [widget_row, \<lparr>id' = 2, product_name = ''Gadget'', price = 5, stock_quantity = 1\<rparr>], seq_next = 3\<rparr>,
      [Done (Inr (Reply_Product (ProductResponse_of widget_row))),
       Done (Inr (Reply_Product (ProductResponse_of \<lparr>id' = 2, product_name = ''Gadget'', price = 5, stock_quantity = 1\<rparr>)))]) \<and>
   app_inv empty_table \<and>
   resp_product_name (ProductResponse_of widget_row) \<noteq>
     resp_product_name (ProductResponse_of \<lparr>id' = 2, product_name = ''Gadget'', price = 5, stock_quantity = 1\<rparr>)"
proof -
  have r: "conc_step\<^sup>*\<^sup>*
     (empty_table, map Create_Query [widget_create, \<lparr>pc_product_name = ''Gadget'', pc_price = 5, pc_stock_quantity = 1\<rparr>])
     (\<lparr>rows = [widget_row, \<lparr>id' = 2, product_name = ''Gadget'', price = 5, stock_quantity = 1\<rparr>], seq_next = 3\<rparr>,
      [Done (Inr (Reply_Product (ProductResponse_of widget_row))),
       Done (Inr (Reply_Product (ProductResponse_of \<lparr>id' = 2, product_name = ''Gadget'', price = 5, stock_quantity = 1\<rparr>)))])"
    using run_schedule_sound [of _ "[0, 1, 0, 1, 0, 1]"] two_names_run by metis
  from concurrent_creates_distinct [OF r empty_table_inv, of 0 1] r empty_table_inv
  show ?thesis by simp
qed

text \<open>
  The race the specification documents: two creations of the same name
  interleaved so that both pass the existence check; one succeeds and the other
  receives the driver's \<^verbatim>\<open>IntegrityError\<close> on \<^verbatim>\<open>products_product_name_key\<close>
  (a 500), where the same two requests served one after the other give the
  400 'Product already exists'. The failed insert has still consumed a value
  of the sequence.
\<close>

theorem create_race_integrity_error:
  "conc_step\<^sup>*\<^sup>* (empty_table, [Create_Query widget_create, Create_Query widget_create])
     (\<lparr>rows = [widget_row], seq_next = 3\<rparr>,
      [Done (Inr (Reply_Product (ProductResponse_of widget_row))),
       Done (Inl (Endpoint_Error (Driver (IntegrityError products_product_name_key))))]) \<and>
   dispatch_all [Call_Create widget_create, Call_Create widget_create] empty_table =
     ([Got (ProductResponse_of widget_row), Failed (HTTPException 400 ''Product already exists'')], widget_table)"
  using run_schedule_sound [of _ "[0, 1, 0, 1, 0, 1]"] race_run race_serial by metis

text \<open>
  C22. The concurrent model refines to the sequential one on serial
  schedules: when each request runs to its end before the next starts, the
  sessions return exactly what the sequential handlers return, in order, and
  leave the same table. The theorems about the handlers are theorems about
  these executions.
\<close>

lemma serial_schedule_sequential:
  assumes "app_inv t"
  shows "run_schedule (serial_schedule (length cs)) (t, map session_of cs) =
    (snd (dispatch_all cs t), map (\<lambda>r. Done (outcome_of r)) (fst (dispatch_all cs t)))"
proof -
  let ?f = "\<lambda>c t. (outcome_of (fst (dispatch c t)), snd (dispatch c t))"
  have s1: "run_schedule [0, 0, 0] (t, [session_of c]) = (snd (?f c t), [Done (fst (?f c t))])"
    if "app_inv t" for c t using single_session [OF that] by simp
  have s2: "app_inv (snd (?f c t))" if "app_inv t" for c t using app_inv_dispatch [OF that] by simp
  from serial_generic [where P = app_inv and s = session_of and f = ?f and pre = "[]" and xs = cs,
      OF s1 s2 assms]
  show ?thesis by (simp add: serial_schedule_def run_serial_dispatch)
qed

theorem serial_schedule_sequential_witness:
  "app_inv empty_table \<and>
   run_schedule (serial_schedule 2) (empty_table, map session_of [Call_Create widget_create, Call_Create widget_create]) =
     (widget_table, [Done (Inr (Reply_Product (ProductResponse_of widget_row))),
                     Done (Inl (Endpoint_Error (HTTPException 400 ''Product already exists'')))])"
  using serial_schedule_sequential [OF empty_table_inv, of "[Call_Create widget_create, Call_Create widget_create]"]
    race_serial empty_table_inv by (simp add: numeral_2_eq_2 del: dispatch_all.simps)

text \<open>
  C23. Two PATCHes of one product, one setting the price and the other the
  stock, racing in any interleaving from a consistent table, both take effect:
  each \<^verbatim>\<open>UPDATE\<close> writes only the column its request changed, so neither
  overwrites the other with the value it loaded. When both have answered, the
  row carries both new values and each response, read back by
  \<^verbatim>\<open>db.refresh\<close> after its own commit, shows the field its request set.
  The new values are those validation admits (a positive price, a non-negative
  stock) within the ranges of the columns.
\<close>

theorem concurrent_patches_merge:
  assumes inv: "table_inv t0" and old: "old \<in> set (rows t0)"
    and u1: "pu_stock_quantity u1 = None" and u2: "pu_price u2 = None"
    and p: "\<And>v. pu_price u1 = Some v \<Longrightarrow> 0 < v \<and> \<bar>numeric_round 2 v\<bar> < 10 ^ 8"
    and q: "\<And>v. pu_stock_quantity u2 = Some v \<Longrightarrow> 0 \<le> v \<and> v \<le> int4_max"
    and run: "conc_step\<^sup>*\<^sup>* (t0, [Update_Query (id' old) u1, Update_Query (id' old) u2]) (t', ss)"
    and fin: "list_all finished ss"
  shows "t' = t0\<lparr>rows := map (\<lambda>x. if id' x = id' old
              then patched old \<lparr>pu_price = pu_price u1, pu_stock_quantity = pu_stock_quantity u2\<rparr> else x) (rows t0)\<rparr> \<and>
         (\<exists>r1 r2. ss = [Done (Inr (Reply_Product (ProductResponse_of r1))), Done (Inr (Reply_Product (ProductResponse_of r2)))] \<and>
            id' r1 = id' old \<and> price r1 = price (patched old u1) \<and>
            id' r2 = id' old \<and> stock_quantity r2 = stock_quantity (patched old u2))"
proof -
  have "conc_step\<^sup>*\<^sup>* (merge_table t0 old u1 u2 False False, [Update_Query (id' old) u1, Update_Query (id' old) u2]) (t', ss)"
    using run merge_table_start [OF inv old] by simp
  from patches_reach [OF inv old u1 u2 p q this] obtain w1 w2 a b
    where c: "t' = merge_table t0 old u1 u2 w1 w2" "ss = [a, b]"
      and pa: "patch_phase price old u1 w1 a" and pb: "patch_phase stock_quantity old u2 w2 b" by auto
  from fin c obtain o1 o2 where "a = Done o1" "b = Done o2" by (auto elim!: finished.elims)
  with pa pb c show ?thesis by (auto simp: merge_table_def)
qed

theorem concurrent_patches_merge_witness:
  "fst (run_schedule [0, 1, 0, 1, 0, 1]
     (widget_table, [Update_Query 1 \<lparr>pu_price = Some 5, pu_stock_quantity = None\<rparr>,
                     Update_Query 1 \<lparr>pu_price = None, pu_stock_quantity = Some 3\<rparr>])) =
     \<lparr>rows = [widget_row\<lparr>price := 5, stock_quantity := 3\<rparr>], seq_next = 2\<rparr> \<and>
   (\<exists>r1 r2. snd (run_schedule [0, 1, 0, 1, 0, 1]
     (widget_table, [Update_Query 1 \<lparr>pu_price = Some 5, pu_stock_quantity = None\<rparr>,
                     Update_Query 1 \<lparr>pu_price = None, pu_stock_quantity = Some 3\<rparr>])) =
       [Done (Inr (Reply_Product (ProductResponse_of r1))), Done (Inr (Reply_Product (ProductResponse_of r2)))] \<and>
     id' r1 = 1 \<and> price r1 = 5 \<and> id' r2 = 1 \<and> stock_quantity r2 = 3)"
proof -
  have inv: "table_inv widget_table" using widget_table_inv by (simp add: app_inv_def)
  have mem: "widget_row \<in> set (rows widget_table)" by simp
  have r1: "conc_step\<^sup>*\<^sup>* (widget_table, [Update_Query 1 \<lparr>pu_price = Some 5, pu_stock_quantity = None\<rparr>,
                     Update_Query 1 \<lparr>pu_price = None, pu_stock_quantity = Some 3\<rparr>])
      (\<lparr>rows = [widget_row\<lparr>price := 5, stock_quantity := 3\<rparr>], seq_next = 2\<rparr>,
       [Done (Inr (Reply_Product (ProductResponse_of (widget_row\<lparr>price := 5, stock_quantity := 3\<rparr>)))),
        Done (Inr (Reply_Product (ProductResponse_of (widget_row\<lparr>price := 5, stock_quantity := 3\<rparr>))))])"
    using run_schedule_sound [of _ "[0, 1, 0, 1, 0, 1]"] merge_run by metis
  have run: "conc_step\<^sup>*\<^sup>* (widget_table, [Update_Query (id' widget_row) \<lparr>pu_price = Some 5, pu_stock_quantity = None\<rparr>,
                     Update_Query (id' widget_row) \<lparr>pu_price = None, pu_stock_quantity = Some 3\<rparr>])
      (\<lparr>rows = [widget_row\<lparr>price := 5, stock_quantity := 3\<rparr>], seq_next = 2\<rparr>,
       [Done (Inr (Reply_Product (ProductResponse_of (widget_row\<lparr>price := 5, stock_quantity := 3\<rparr>)))),
        Done (Inr (Reply_Product (ProductResponse_of (widget_row\<lparr>price := 5, stock_quantity := 3\<rparr>))))])"
    using r1 by simp
  have c: "\<exists>r1 r2. [Done (Inr (Reply_Product (ProductResponse_of (widget_row\<lparr>price := 5, stock_quantity := 3\<rparr>)))),
        Done (Inr (Reply_Product (ProductResponse_of (widget_row\<lparr>price := 5, stock_quantity := 3\<rparr>))))] =
      [Done (Inr (Reply_Product (ProductResponse_of r1))), Done (Inr (Reply_Product (ProductResponse_of r2)))] \<and>
     id' r1 = 1 \<and> price r1 = 5 \<and> id' r2 = 1 \<and> stock_quantity r2 = 3"
    using concurrent_patches_merge [OF inv mem _ _ _ _ run]
    by (simp add: patched_def numeric_round_def int4_max_def)
  show ?thesis unfolding merge_run using c by simp
qed

end
