(* ===== verification/Http_Concurrency.thy ===== *)
theory Http_Concurrency
  imports Routes Concurrency
begin

text \<open>
  The HTTP application of \<^verbatim>\<open>src/main.py\<close> serving requests concurrently: the
  composition of the route table and body validation of \<open>Routes\<close> with the
  sessions of \<open>Concurrency\<close>. A request starts a session after validation
  (\<open>start_request\<close>), and a finished session is rendered into the status and
  body the client receives (\<open>session_response\<close>). The theorems relate this
  server to the sequential one of \<open>Routes\<close> (serial schedules give exactly
  \<open>serve_all\<close>), show that every response it sends is well typed under
  every interleaving, and that the storage-level conflict of the name race can
  reach a client only when requests overlap.
\<close>

text \<open>
  A request entering the concurrent server: FastAPI validates the body inside
  the session bracket, before the handler's first query; a request that fails
  validation, and the root route, which has no session, are answered at once.
\<close>

definition start_request :: "request \<Rightarrow> session" where
  "start_request req =
     (case req of
        GET_root \<Rightarrow> Done (Inr (Reply_Message home))
      | POST_products j \<Rightarrow>
          (case ProductCreate_validate j of
             Inl errs \<Rightarrow> Done (Inl (Endpoint_Error (RequestValidationError errs)))
           | Inr p \<Rightarrow> Create_Query p)
      | GET_products \<Rightarrow> List_Query
      | GET_product i \<Rightarrow> Get_Query i
      | PATCH_product i j \<Rightarrow>
          (case ProductUpdate_validate j of
             Inl errs \<Rightarrow> Done (Inl (Endpoint_Error (RequestValidationError errs)))
           | Inr u \<Rightarrow> Update_Query i u)
      | DELETE_product i \<Rightarrow> Delete_Query i)"

text \<open>
  What the client receives for a finished session: the rendering of
  \<open>Routes\<close>, and a 500 for the ORM errors, which no handler catches.
\<close>

definition session_response :: "session_outcome \<Rightarrow> response" where
  "session_response out =
     (case out of
        Inl (Endpoint_Error e) \<Rightarrow> error_response e
      | Inl (ORM_Error _) \<Rightarrow> (500, Body_Internal_Server_Error)
      | Inl Pool_TimeoutError \<Rightarrow> (500, Body_Internal_Server_Error)
      | Inr (Reply_Product r) \<Rightarrow> (200, Body_Product r)
      | Inr (Reply_Products rs) \<Rightarrow> (200, Body_Products rs)
      | Inr (Reply_Message m) \<Rightarrow> (200, Body_Message m))"

fun response_of :: "session \<Rightarrow> response option" where
  "response_of (Done out) = Some (session_response out)"
| "response_of _ = None"

text \<open>
  The sequential server's answer to one request, as a session outcome and the
  table it leaves: validation, then the handler.
\<close>

definition call_outcome :: "call \<Rightarrow> products_table \<Rightarrow> session_outcome \<times> products_table" where
  "call_outcome c t = (outcome_of (fst (dispatch c t)), snd (dispatch c t))"

definition http_outcome :: "request \<Rightarrow> products_table \<Rightarrow> session_outcome \<times> products_table" where
  "http_outcome req t =
     (case req of
        GET_root \<Rightarrow> (Inr (Reply_Message home), t)
      | POST_products j \<Rightarrow>
          (case ProductCreate_validate j of
             Inl errs \<Rightarrow> (Inl (Endpoint_Error (RequestValidationError errs)), t)
           | Inr p \<Rightarrow> call_outcome (Call_Create p) t)
      | GET_products \<Rightarrow> call_outcome Call_List t
      | GET_product i \<Rightarrow> call_outcome (Call_Get i) t
      | PATCH_product i j \<Rightarrow>
          (case ProductUpdate_validate j of
             Inl errs \<Rightarrow> (Inl (Endpoint_Error (RequestValidationError errs)), t)
           | Inr u \<Rightarrow> call_outcome (Call_Update i u) t)
      | DELETE_product i \<Rightarrow> call_outcome (Call_Delete i) t)"

text \<open>A session is well typed if its response, once sent, has a well-formed body.\<close>

definition session_typed :: "session \<Rightarrow> bool" where
  "session_typed s = (case response_of s of None \<Rightarrow> True | Some resp \<Rightarrow> body_ok (snd resp))"

abbreviation widget_json :: ProductCreate_json where
  "widget_json \<equiv> \<lparr>cj_product_name = Val ''Widget'', cj_price = Val (999 / 100), cj_stock_quantity = Val 10\<rparr>"

lemmas http_concurrency_defs [model_defs] =
  start_request_def session_response_def call_outcome_def http_outcome_def

section \<open>Lemmas\<close>

lemma single_call:
  "app_inv t \<Longrightarrow> run_schedule [0, 0, 0] (t, [session_of c]) = (snd (call_outcome c t), [Done (fst (call_outcome c t))])"
  unfolding call_outcome_def fst_conv snd_conv by (rule single_session)

lemma single_request:
  assumes "app_inv t"
  shows "run_schedule [0, 0, 0] (t, [start_request req]) = (snd (http_outcome req t), [Done (fst (http_outcome req t))])"
proof -
  have c: "run_schedule [0, 0, 0] (t, [session_of c]) = (snd (call_outcome c t), [Done (fst (call_outcome c t))])" for c
    using single_call [OF assms] .
  show ?thesis
  proof (cases req)
    case (POST_products j)
    then show ?thesis using c [of "Call_Create _"]
      by (auto simp: start_request_def http_outcome_def session_of_def split: sum.splits)
  next
    case (PATCH_product i j)
    then show ?thesis using c [of "Call_Update i _"]
      by (auto simp: start_request_def http_outcome_def session_of_def split: sum.splits)
  next
    case GET_products
    then show ?thesis using c [of Call_List] by (simp add: start_request_def http_outcome_def session_of_def)
  next
    case (GET_product i)
    then show ?thesis using c [of "Call_Get i"] by (simp add: start_request_def http_outcome_def session_of_def)
  next
    case (DELETE_product i)
    then show ?thesis using c [of "Call_Delete i"] by (simp add: start_request_def http_outcome_def session_of_def)
  qed (simp add: start_request_def http_outcome_def)
qed

lemma serve_http_outcome:
  "serve req st = (session_response (fst (http_outcome req (store st))), st\<lparr>store := snd (http_outcome req (store st))\<rparr>)"
  by (cases req)
    (auto simp: serve_def serve_endpoint_eq with_body_def render_def http_outcome_def call_outcome_def
      dispatch_def lift_result_def session_response_def error_response_def
      split: sum.splits prod.splits handler_error.splits)

lemma app_inv_http_outcome: "app_inv t \<Longrightarrow> app_inv (snd (http_outcome req t))"
  using serve_app_inv [of "\<lparr>store = t, open_sessions = 0\<rparr>" req] serve_http_outcome [of req "\<lparr>store = t, open_sessions = 0\<rparr>"]
  by simp

lemma run_serial_serve_all:
  "map session_response (fst (run_serial http_outcome reqs (store st))) = fst (serve_all reqs st) \<and>
   snd (run_serial http_outcome reqs (store st)) = store (snd (serve_all reqs st))"
proof (induction reqs arbitrary: st)
  case (Cons req reqs)
  obtain out t' where h: "http_outcome req (store st) = (out, t')" by fastforce
  have sv: "serve req st = (session_response out, st\<lparr>store := t'\<rparr>)" using serve_http_outcome [of req st] h by simp
  obtain outs t'' where r: "run_serial http_outcome reqs t' = (outs, t'')" by fastforce
  obtain resps st'' where a: "serve_all reqs (st\<lparr>store := t'\<rparr>) = (resps, st'')" by fastforce
  from Cons.IH [of "st\<lparr>store := t'\<rparr>"] r a have "map session_response outs = resps" "t'' = store st''" by simp_all
  with h sv r a show ?case by simp
qed simp

lemma session_typed_row:
  "app_inv t \<Longrightarrow> r \<in> set (rows t) \<Longrightarrow> session_typed (Done (Inr (Reply_Product (ProductResponse_of r))))"
  by (simp add: session_typed_def session_response_def ProductResponse_ok_row)

lemma session_typed_error [simp]: "session_typed (Done (Inl e))"
  by (cases e) (auto simp: session_typed_def session_response_def error_response_def split: handler_error.splits)

lemma session_step_typed:
  assumes inv: "app_inv t" and st: "session_step s t = (s', t')" and ty: "session_typed s"
  shows "session_typed s'"
proof -
  have ti: "table_inv t" using inv by (simp add: app_inv_def)
  have refresh_ok: "session_typed (refresh r t)" for r
    using session_typed_row [OF inv] by (auto simp: refresh_def session_typed_def session_response_def
        error_response_def split: option.splits dest: query_by_id_Some)
  show ?thesis
  proof (cases s)
    case (Get_Query i)
    with st session_typed_row [OF inv] show ?thesis
      by (auto simp: session_typed_def session_response_def error_response_def
          split: option.splits dest: query_by_id_Some)
  next
    case List_Query
    with st inv show ?thesis
      by (auto simp: session_typed_def session_response_def list_all_iff intro: ProductResponse_ok_row)
  next
    case (Create_Refresh r)
    with st have "s' = refresh r t" by auto
    with refresh_ok show ?thesis by simp
  next
    case (Update_Refresh r)
    with st have "s' = refresh r t" by auto
    with refresh_ok show ?thesis by simp
  next
    case (Done out)
    with st ty show ?thesis by simp
  qed (use st in \<open>auto simp: session_typed_def session_response_def error_response_def
      split: option.splits sum.splits prod.splits session_error.splits handler_error.splits\<close>)
qed

lemma start_request_typed: "session_typed (start_request req)"
  by (cases req) (simp_all add: start_request_def session_typed_def session_response_def error_response_def home_def
      split: sum.splits)

lemma http_race_run:
  "run_schedule [0, 1, 0, 1, 0, 1] (empty_table, map start_request [POST_products widget_json, POST_products widget_json]) =
   (\<lparr>rows = [widget_row], seq_next = 3\<rparr>,
    [Done (Inr (Reply_Product (ProductResponse_of widget_row))),
     Done (Inl (Endpoint_Error (Driver (IntegrityError products_product_name_key))))])"
  by (simp add: model_defs Let_def py_isspace_def)

lemma http_race_serial:
  "fst (serve_all [POST_products widget_json, POST_products widget_json] \<lparr>store = empty_table, open_sessions = 0\<rparr>) =
   [(200, Body_Product (ProductResponse_of widget_row)), (400, Body_Detail ''Product already exists'')]"
  by (simp add: model_defs Let_def py_isspace_def)

section \<open>Properties of the concurrent HTTP server\<close>

text \<open>
  C27. On serial schedules the concurrent server is the sequential one: when
  each request runs to its end before the next starts, the clients receive
  exactly the responses \<open>serve_all\<close> sends, in order, and the table ends as
  \<open>serve_all\<close> leaves it.
\<close>

theorem concurrent_server_serial:
  assumes "app_inv (store st)"
  shows "map response_of (snd (run_schedule (serial_schedule (length reqs)) (store st, map start_request reqs))) =
      map Some (fst (serve_all reqs st)) \<and>
    fst (run_schedule (serial_schedule (length reqs)) (store st, map start_request reqs)) = store (snd (serve_all reqs st))"
proof -
  let ?R = "run_serial http_outcome reqs (store st)"
  from serial_generic [where P = app_inv and s = start_request and f = http_outcome and pre = "[]" and xs = reqs,
      OF single_request app_inv_http_outcome assms]
  have eq: "run_schedule (serial_schedule (length reqs)) (store st, map start_request reqs) =
      (snd ?R, map Done (fst ?R))"
    by (simp add: serial_schedule_def)
  have md: "map response_of (map Done xs) = map Some (map session_response xs)" for xs
    by (induction xs) simp_all
  note rs = run_serial_serve_all [of reqs st]
  show ?thesis unfolding eq fst_conv snd_conv md by (simp only: rs)
qed

theorem concurrent_server_serial_witness:
  "app_inv (store \<lparr>store = empty_table, open_sessions = 0\<rparr>) \<and>
   map response_of (snd (run_schedule (serial_schedule 2)
       (empty_table, map start_request [POST_products widget_json, POST_products widget_json]))) =
     map Some (fst (serve_all [POST_products widget_json, POST_products widget_json]
       \<lparr>store = empty_table, open_sessions = 0\<rparr>))"
proof -
  have i: "app_inv (store \<lparr>store = empty_table, open_sessions = 0\<rparr>)" using empty_table_inv by simp
  from concurrent_server_serial [OF i, of "[POST_products widget_json, POST_products widget_json]"] i
  show ?thesis by (simp only: server.select_convs length_Cons list.size numeral_2_eq_2 add_0 One_nat_def)
qed

text \<open>
  C28. Type soundness of the concurrent server: under every interleaving of
  the requests, every response a finished session sends has a well-formed
  body; each product in it is the outbound representation of a row that was
  committed when the session read it.
\<close>

theorem concurrent_responses_typed:
  assumes run: "conc_step\<^sup>*\<^sup>* (t, map start_request reqs) (t', ss)" and inv: "app_inv t"
    and s: "s \<in> set ss" and r: "response_of s = Some (code, b)"
  shows "body_ok b"
proof -
  have "app_inv t' \<and> (\<forall>s \<in> set ss. session_typed s)"
    using run
  proof (induction rule: rtranclp_induct2)
    case refl
    then show ?case using inv start_request_typed by auto
  next
    case (step ta ssa tb ssb)
    from step.hyps(2) obtain i s' where i: "i < length ssa" and ssb: "ssb = ssa[i := s']"
      and st: "session_step (ssa ! i) ta = (s', tb)"
      by (cases rule: conc_stepE) auto
    have "app_inv tb" using app_inv_session_step [of ta "ssa ! i"] step.IH st by simp
    moreover have "session_typed s'"
      using session_step_typed [OF _ st] step.IH i by simp
    ultimately show ?case using step.IH set_update_subset_insert [of ssa i s'] ssb by auto
  qed
  with s r show ?thesis by (auto simp: session_typed_def)
qed

theorem concurrent_responses_typed_witness:
  "conc_step\<^sup>*\<^sup>* (empty_table, map start_request [POST_products widget_json, POST_products widget_json])
     (\<lparr>rows = [widget_row], seq_next = 3\<rparr>,
      [Done (Inr (Reply_Product (ProductResponse_of widget_row))),
       Done (Inl (Endpoint_Error (Driver (IntegrityError products_product_name_key))))]) \<and>
   app_inv empty_table \<and>
   body_ok (Body_Product (ProductResponse_of widget_row))"
proof -
  have r: "conc_step\<^sup>*\<^sup>* (empty_table, map start_request [POST_products widget_json, POST_products widget_json])
     (\<lparr>rows = [widget_row], seq_next = 3\<rparr>,
      [Done (Inr (Reply_Product (ProductResponse_of widget_row))),
       Done (Inl (Endpoint_Error (Driver (IntegrityError products_product_name_key))))])"
    using run_schedule_sound [of _ "[0, 1, 0, 1, 0, 1]"] http_race_run by metis
  have "response_of (Done (Inr (Reply_Product (ProductResponse_of widget_row)))) =
      Some (200, Body_Product (ProductResponse_of widget_row))"
    by (simp add: session_response_def)
  from concurrent_responses_typed [OF r empty_table_inv _ this] r empty_table_inv
  show ?thesis by simp
qed

text \<open>
  C29. Without overlapping requests no client ever receives a storage
  constraint violation: from a consistent table, the sequential server's
  answer to any request is never an \<^verbatim>\<open>IntegrityError\<close>. The duplicate-name
  check answers 400 before the unique index is reached, validation keeps price
  and stock non-negative, the sequence supplies fresh ids, and a PATCH never
  writes the name. The only driver error that remains is the
  \<^verbatim>\<open>DataError\<close> of out-of-range values (C17).
\<close>

theorem serial_no_integrity_error:
  assumes "app_inv t"
  shows "fst (http_outcome req t) \<noteq> Inl (Endpoint_Error (Driver (IntegrityError c)))"
proof -
  have inv: "table_inv t" using assms by (simp add: app_inv_def)
  show ?thesis
  proof (cases req)
    case (POST_products j)
    show ?thesis
    proof (cases "ProductCreate_validate j")
      case (Inr p)
      from ProductCreate_validate_sound_rule [OF Inr] have "0 \<le> pc_price p" "0 \<le> pc_stock_quantity p"
        "py_strip (pc_product_name p) = pc_product_name p" by simp_all
      from create_product_no_integrity [OF inv this, of c] POST_products Inr show ?thesis
        by (auto simp: http_outcome_def call_outcome_def dispatch_def lift_result_def
            split: sum.splits prod.splits)
    qed (simp add: POST_products http_outcome_def)
  next
    case (PATCH_product i j)
    show ?thesis
    proof (cases "ProductUpdate_validate j")
      case (Inr u)
      from update_product_no_integrity [OF inv, of u i c] ProductUpdate_validate_Inr [OF Inr] PATCH_product Inr
      show ?thesis
        by (auto simp: http_outcome_def call_outcome_def dispatch_def lift_result_def
            split: sum.splits prod.splits)
    qed (simp add: PATCH_product http_outcome_def)
  qed (auto simp: http_outcome_def call_outcome_def dispatch_def lift_result_def get_products_def
      get_product_def delete_product_def split: option.splits)
qed

theorem serial_no_integrity_error_witness:
  "app_inv empty_table \<and>
   fst (http_outcome (POST_products widget_json) empty_table) \<noteq>
     Inl (Endpoint_Error (Driver (IntegrityError products_product_name_key)))"
  using serial_no_integrity_error [OF empty_table_inv] empty_table_inv by blast

text \<open>
  C24. Racing DELETEs never fail: any number of DELETE requests, in flight
  together in any interleaving from any table, are each answered either 200
  'Product deleted successfully' or 404 'Product not found', never 500. A
  \<^verbatim>\<open>DELETE\<close> that matches no row, because a concurrent request removed it
  after this one found it, only makes SQLAlchemy warn; so two requests can both
  report the deletion of one row, where served one after the other the second
  is a 404.
\<close>

theorem concurrent_deletes_never_fail:
  assumes "conc_step\<^sup>*\<^sup>* (t, map Delete_Query ids) (t', ss)"
  shows "list_all (\<lambda>s. response_of s \<in> {None, Some (200, Body_Message ''Product deleted successfully''),
                                        Some (404, Body_Detail ''Product not found'')}) ss"
proof -
  have "list_all delete_session ss"
    using delete_sessions_reach [OF assms] by (simp add: list_all_iff)
  then show ?thesis
    by (auto simp: list_all_iff session_response_def error_response_def elim!: delete_session.elims)
qed

theorem concurrent_deletes_never_fail_witness:
  "map response_of (snd (run_schedule [0, 1, 0, 1] (widget_table, [Delete_Query 1, Delete_Query 1]))) =
     [Some (200, Body_Message ''Product deleted successfully''), Some (200, Body_Message ''Product deleted successfully'')] \<and>
   list_all (\<lambda>s. response_of s \<in> {None, Some (200, Body_Message ''Product deleted successfully''),
                                   Some (404, Body_Detail ''Product not found'')})
     (snd (run_schedule [0, 1, 0, 1] (widget_table, [Delete_Query 1, Delete_Query 1])))"
proof -
  have r: "conc_step\<^sup>*\<^sup>* (widget_table, [Delete_Query 1, Delete_Query 1])
     (\<lparr>rows = [], seq_next = 2\<rparr>,
      [Done (Inr (Reply_Message ''Product deleted successfully'')),
       Done (Inr (Reply_Message ''Product deleted successfully''))])"
    using run_schedule_sound [of _ "[0, 1, 0, 1]"] double_delete_run by metis
  then have r': "conc_step\<^sup>*\<^sup>* (widget_table, map Delete_Query [1, 1])
     (\<lparr>rows = [], seq_next = 2\<rparr>,
      [Done (Inr (Reply_Message ''Product deleted successfully'')),
       Done (Inr (Reply_Message ''Product deleted successfully''))])" by simp
  have "list_all (\<lambda>s. response_of s \<in> {None, Some (200, Body_Message ''Product deleted successfully''),
                                   Some (404, Body_Detail ''Product not found'')})
      [Done (Inr (Reply_Message ''Product deleted successfully'')),
       Done (Inr (Reply_Message ''Product deleted successfully''))]"
    by (rule concurrent_deletes_never_fail [OF r'])
  then show ?thesis unfolding double_delete_run by (simp add: session_response_def)
qed

text \<open>
  C25. A PATCH whose row is deleted between its query and its write is
  answered 500, never the 404 of an absent id, and changes nothing. If it
  sets a column to a new value its \<^verbatim>\<open>UPDATE\<close> matches no row and the flush
  raises \<^verbatim>\<open>StaleDataError\<close> (or the driver rejects the value first); if it
  changes nothing no statement is sent and the \<^verbatim>\<open>db.refresh\<close> of the vanished
  row raises \<^verbatim>\<open>InvalidRequestError\<close>.
\<close>

theorem update_after_delete_500:
  assumes "query_by_id (id' r) t = None"
  shows "snd (session_step (Update_Write r u) t) = t \<and>
    (fst (session_step (Update_Write r u) t) = Update_Refresh r \<longleftrightarrow>
       dirty (pu_price u) (price r) = None \<and> dirty (pu_stock_quantity u) (stock_quantity r) = None) \<and>
    snd (session_step (fst (session_step (Update_Write r u) t)) t) = t \<and>
    response_of (fst (session_step (fst (session_step (Update_Write r u) t)) t)) =
      Some (500, Body_Internal_Server_Error)"
  using assms
  by (auto simp: update_write_def refresh_def Let_def session_response_def error_response_def
      split: sum.splits option.splits if_splits prod.splits)

theorem update_after_delete_500_witness:
  "response_of (fst (session_step (fst (session_step
      (Update_Write widget_row \<lparr>pu_price = None, pu_stock_quantity = Some 5\<rparr>) empty_table)) empty_table)) =
     Some (500, Body_Internal_Server_Error) \<and>
   response_of (fst (session_step (fst (session_step
      (Update_Write widget_row \<lparr>pu_price = None, pu_stock_quantity = Some 10\<rparr>) empty_table)) empty_table)) =
     Some (500, Body_Internal_Server_Error)"
proof -
  have q: "query_by_id (id' widget_row) empty_table = None" by (simp add: empty_table_def query_by_id_def)
  show ?thesis
    using update_after_delete_500 [OF q, of "\<lparr>pu_price = None, pu_stock_quantity = Some 5\<rparr>"]
      update_after_delete_500 [OF q, of "\<lparr>pu_price = None, pu_stock_quantity = Some 10\<rparr>"] by blast
qed

text \<open>
  C30. With overlapping requests it does reach the client, from any
  consistent table: two POSTs of one valid body whose name is not stored,
  interleaved so that both pass the existence check, are answered 200 and 500,
  the second by the \<^verbatim>\<open>IntegrityError\<close> of the unique name index; the row is
  stored once and both requests have consumed a value of the sequence. Served
  one after the other the second would be the 400 'Product already exists'.
\<close>

theorem concurrent_create_race_500:
  assumes inv: "app_inv t" and v: "ProductCreate_validate j = Inr p"
    and fresh: "pc_product_name p \<notin> product_name ` set (rows t)"
    and pr: "\<bar>numeric_round 2 (pc_price p)\<bar> < 10 ^ 8" and st: "pc_stock_quantity p \<le> int4_max"
    and sq: "seq_next t < int4_max"
  shows "run_schedule [0, 1, 0, 1, 0, 1] (t, map start_request [POST_products j, POST_products j]) =
     (\<lparr>rows = rows t @ [\<lparr>id' = seq_next t, product_name = pc_product_name p,
                         price = numeric_round 2 (pc_price p), stock_quantity = pc_stock_quantity p\<rparr>],
       seq_next = seq_next t + 2\<rparr>,
      [Done (Inr (Reply_Product (ProductResponse_of \<lparr>id' = seq_next t, product_name = pc_product_name p,
                         price = numeric_round 2 (pc_price p), stock_quantity = pc_stock_quantity p\<rparr>))),
       Done (Inl (Endpoint_Error (Driver (IntegrityError products_product_name_key))))]) \<and>
   map response_of (snd (run_schedule [0, 1, 0, 1, 0, 1] (t, map start_request [POST_products j, POST_products j]))) =
     [Some (200, Body_Product (ProductResponse_of \<lparr>id' = seq_next t, product_name = pc_product_name p,
                         price = numeric_round 2 (pc_price p), stock_quantity = pc_stock_quantity p\<rparr>)),
      Some (500, Body_Internal_Server_Error)]"
proof -
  let ?r = "\<lparr>id' = seq_next t, product_name = pc_product_name p,
             price = numeric_round 2 (pc_price p), stock_quantity = pc_stock_quantity p\<rparr>"
  let ?t1 = "\<lparr>rows = rows t @ [?r], seq_next = seq_next t + 1\<rparr>"
  have tinv: "table_inv t" using inv by (simp add: app_inv_def)
  have sound: "0 < pc_price p" "0 \<le> pc_stock_quantity p"
    "py_strip (pc_product_name p) = pc_product_name p" "length (pc_product_name p) \<le> 100"
    using ProductCreate_validate_sound_rule [OF v] by simp_all
  have q0: "query_by_name (pc_product_name p) t = None" using fresh by (simp add: query_by_name_None)
  have i1: "insert_product (pc_product_name p) (pc_price p) (pc_stock_quantity p) t = (Inr ?r, ?t1)"
    using insert_product_fresh [OF tinv _ sound(2,4) fresh pr st] sound(1) sq by simp
  have ids: "\<forall>x \<in> set (rows ?t1). id' x < seq_next ?t1" using tinv by (auto simp: table_inv_def)
  have i2: "insert_product (pc_product_name p) (pc_price p) (pc_stock_quantity p) ?t1 =
      (Inl (IntegrityError products_product_name_key), ?t1\<lparr>seq_next := seq_next t + 2\<rparr>)"
    using insert_product_dup_name [OF ids _ sound(2,4) _ pr st] sound(1) sq by simp
  have q2: "query_by_id (seq_next t) (?t1\<lparr>seq_next := seq_next t + 2\<rparr>) = Some ?r"
  proof -
    have "table_inv ?t1" using table_inv_insert [OF tinv, of "pc_product_name p" "pc_price p" "pc_stock_quantity p"] i1
      by simp
    then have "table_inv (?t1\<lparr>seq_next := seq_next t + 2\<rparr>)" using sq by (auto simp: table_inv_def)
    from query_by_id_row [OF this, of ?r] show ?thesis by simp
  qed
  have run: "run_schedule [0, 1, 0, 1, 0, 1] (t, map start_request [POST_products j, POST_products j]) =
     (?t1\<lparr>seq_next := seq_next t + 2\<rparr>,
      [Done (Inr (Reply_Product (ProductResponse_of ?r))),
       Done (Inl (Endpoint_Error (Driver (IntegrityError products_product_name_key))))])"
    using v q0 i1 i2 q2 sound(3) by (simp add: start_request_def refresh_def)
  then show ?thesis by (simp add: session_response_def error_response_def)
qed

theorem concurrent_create_race_500_witness:
  "map response_of (snd (run_schedule [0, 1, 0, 1, 0, 1]
      (empty_table, map start_request [POST_products widget_json, POST_products widget_json]))) =
     [Some (200, Body_Product (ProductResponse_of widget_row)), Some (500, Body_Internal_Server_Error)]"
proof -
  have v: "ProductCreate_validate widget_json = Inr widget_create"
    by (simp add: model_defs py_isspace_def)
  have fresh: "pc_product_name widget_create \<notin> product_name ` set (rows empty_table)"
    by (simp add: empty_table_def)
  have pr: "\<bar>numeric_round 2 (pc_price widget_create)\<bar> < 10 ^ 8" by (simp add: numeric_round_def)
  have st: "pc_stock_quantity widget_create \<le> int4_max" by (simp add: int4_max_def)
  have sq: "seq_next empty_table < int4_max" by (simp add: empty_table_def int4_max_def)
  have eq: "\<lparr>id' = seq_next empty_table, product_name = pc_product_name widget_create,
       price = numeric_round 2 (pc_price widget_create), stock_quantity = pc_stock_quantity widget_create\<rparr> = widget_row"
    by (simp add: empty_table_def numeric_round_def)
  show ?thesis
    using conjunct2 [OF concurrent_create_race_500 [OF empty_table_inv v fresh pr st sq]] unfolding eq .
qed

end
