(* ===== verification/Pool.thy ===== *)
theory Pool
  imports Http_Concurrency
begin

text \<open>
  The connection pool behind the sessions of \<open>Concurrency\<close>. The engine of
  \<^verbatim>\<open>src/database.py\<close> is created with SQLAlchemy's default \<^verbatim>\<open>QueuePool\<close>:
  five pooled connections and ten overflow connections, so at most fifteen are
  checked out at once, and a checkout that finds none free waits
  \<^verbatim>\<open>pool_timeout\<close> (30 seconds) and then raises \<^verbatim>\<open>TimeoutError\<close>. A
  session checks a connection out at the first statement of its transaction
  (autobegin) and returns it at \<^verbatim>\<open>commit\<close> or \<^verbatim>\<open>close\<close>. The pooled
  interleaving \<open>pool_step\<close> restricts \<open>conc_step\<close> by this limit and adds
  the timeout. Its lemmas show that the limit is never exceeded, that every
  pooled run is a run of the unrestricted interleaving up to timeouts, that
  the pool cannot deadlock, and that a sixteenth overlapping transaction can
  fail with a 500.
\<close>

text \<open>
  The pool of \<^verbatim>\<open>create_engine(DATABASE_URL, echo=True)\<close>: the defaults
  \<^verbatim>\<open>pool_size=5\<close> and \<^verbatim>\<open>max_overflow=10\<close>.
\<close>

definition pool_size :: nat where
  "pool_size = 5"

definition max_overflow :: nat where
  "max_overflow = 10"

definition pool_capacity :: nat where
  "pool_capacity = pool_size + max_overflow"

text \<open>
  The sessions that hold a checked-out connection: those whose transaction is
  open between a query and the commit that ends it. A session about to run a
  query, a refresh or its first statement holds none; the read-only handlers
  and the refresh check a connection out and return it within one round trip.
\<close>

fun holds_connection :: "session \<Rightarrow> bool" where
  "holds_connection (Create_Insert _) = True"
| "holds_connection (Update_Write _ _) = True"
| "holds_connection (Delete_Write _) = True"
| "holds_connection _ = False"

definition checked_out :: "session list \<Rightarrow> nat" where
  "checked_out ss = length (filter holds_connection ss)"

text \<open>
  The pooled interleaving. A session that holds a connection runs its next
  round trip as before; one that needs a connection gets one only while fewer
  than \<open>cap\<close> are checked out, and otherwise may give up with
  \<open>TimeoutError\<close>, leaving the table as it was. The model has no clock: the
  timeout is possible whenever the pool is exhausted, which covers the case
  that no connection is returned within the 30 seconds.
\<close>

inductive pool_step :: "nat \<Rightarrow> config \<Rightarrow> config \<Rightarrow> bool" for cap :: nat where
  run: "i < length ss \<Longrightarrow> \<not> finished (ss ! i) \<Longrightarrow>
        holds_connection (ss ! i) \<or> checked_out ss < cap \<Longrightarrow>
        session_step (ss ! i) t = (s', t') \<Longrightarrow> pool_step cap (t, ss) (t', ss[i := s'])"
| timeout: "i < length ss \<Longrightarrow> \<not> finished (ss ! i) \<Longrightarrow> \<not> holds_connection (ss ! i) \<Longrightarrow>
        cap \<le> checked_out ss \<Longrightarrow> pool_step cap (t, ss) (t, ss[i := Done (Inl Pool_TimeoutError)])"

inductive_cases pool_stepE: "pool_step cap c c'"

text \<open>
  The pooled interleaving along a schedule: a scheduled session that needs a
  connection while the pool is exhausted times out.
\<close>

fun pool_run :: "nat \<Rightarrow> nat list \<Rightarrow> config \<Rightarrow> config" where
  "pool_run cap [] c = c"
| "pool_run cap (i # sched) (t, ss) =
     (if i < length ss \<and> \<not> finished (ss ! i)
      then (if holds_connection (ss ! i) \<or> checked_out ss < cap
            then (case session_step (ss ! i) t of (s', t') \<Rightarrow> pool_run cap sched (t', ss[i := s']))
            else pool_run cap sched (t, ss[i := Done (Inl Pool_TimeoutError)]))
      else pool_run cap sched (t, ss))"

text \<open>
  A session that is about to open a transaction: its next round trip is a
  query that leaves the table as it is and after which the session holds its
  connection (the query of a PATCH or DELETE of a stored id, or of a POST of a
  new name).
\<close>

definition opens_transaction :: "products_table \<Rightarrow> session \<Rightarrow> bool" where
  "opens_transaction t s \<longleftrightarrow>
     \<not> finished s \<and> \<not> holds_connection s \<and> holds_connection (fst (session_step s t)) \<and>
     snd (session_step s t) = t"

text \<open>A PATCH that sets the stock of product 1 to 5.\<close>

abbreviation restock_json :: ProductUpdate_json where
  "restock_json \<equiv> \<lparr>uj_price = Omitted, uj_stock_quantity = Val 5\<rparr>"

lemmas pool_defs [model_defs] = pool_size_def max_overflow_def pool_capacity_def checked_out_def

section \<open>Lemmas\<close>

text \<open>No round trip takes a session from holding a connection to holding one.\<close>

lemma holds_after_step:
  "session_step s t = (s', t') \<Longrightarrow> holds_connection s' \<Longrightarrow> \<not> holds_connection s"
  by (cases s) (auto simp: refresh_def split: option.splits sum.splits prod.splits)

lemma checked_out_step:
  assumes "pool_step cap c c'" and "checked_out (snd c) \<le> cap"
  shows "checked_out (snd c') \<le> cap"
  using assms
proof (induction rule: pool_step.induct)
  case (run i ss t s' t')
  have u: "checked_out (ss[i := s']) + (if holds_connection (ss ! i) then 1 else 0) =
      checked_out ss + (if holds_connection s' then 1 else 0)"
    unfolding checked_out_def using run.hyps(1) by (rule length_filter_update)
  show ?case
  proof (cases "holds_connection s'")
    case True
    then have "\<not> holds_connection (ss ! i)" using holds_after_step [OF run.hyps(4)] by blast
    with run.hyps(3) u True show ?thesis by simp
  next
    case False
    with u run.prems show ?thesis by (simp split: if_splits)
  qed
next
  case (timeout i ss t)
  have "checked_out (ss[i := Done (Inl Pool_TimeoutError)]) + 0 = checked_out ss + 0"
    using length_filter_update [OF timeout.hyps(1), of holds_connection "Done (Inl Pool_TimeoutError)"]
      timeout.hyps(3) by (simp add: checked_out_def)
  with timeout.prems show ?case by simp
qed

text \<open>Pooled runs keep the invariant of the stored table.\<close>

lemma pool_steps_app_inv:
  assumes "(pool_step cap)\<^sup>*\<^sup>* c c'" and "app_inv (fst c)"
  shows "app_inv (fst c')"
  using assms
proof (induction rule: rtranclp_induct)
  case (step c' c'')
  from step.hyps(2) show ?case
  proof (cases rule: pool_step.cases)
    case (run i ss t s' t')
    with app_inv_session_step [of t "ss ! i"] step.IH step.prems show ?thesis by simp
  next
    case timeout
    with step show ?thesis by simp
  qed
qed simp

lemma pool_run_sound: "(pool_step cap)\<^sup>*\<^sup>* c (pool_run cap sched c)"
proof (induction cap sched c rule: pool_run.induct)
  case (2 cap i sched t ss)
  show ?case
  proof (cases "i < length ss \<and> \<not> finished (ss ! i)")
    case i: True
    show ?thesis
    proof (cases "holds_connection (ss ! i) \<or> checked_out ss < cap")
      case True
      obtain s' t' where st: "session_step (ss ! i) t = (s', t')" by fastforce
      with i True have "pool_step cap (t, ss) (t', ss[i := s'])" by (blast intro: pool_step.run)
      with i True st "2.IH"(1) [OF i True] show ?thesis
        by (simp add: converse_rtranclp_into_rtranclp)
    next
      case False
      with i have "pool_step cap (t, ss) (t, ss[i := Done (Inl Pool_TimeoutError)])"
        by (intro pool_step.timeout) auto
      with i False "2.IH"(2) [OF i False] show ?thesis
        by (simp add: converse_rtranclp_into_rtranclp)
    qed
  next
    case False
    with "2.IH"(3) [OF False] show ?thesis by auto
  qed
qed simp

text \<open>Sixteen overlapping restocks of product 1 against the pool of fifteen.\<close>

lemma pool_run_append:
  "pool_run cap (sched @ sched') c = pool_run cap sched' (pool_run cap sched c)"
  by (induction cap sched c rule: pool_run.induct) (simp_all split: prod.splits)

lemma update_opened:
  assumes "k < length xs"
  shows "(map f (take k xs) @ drop k xs)[k := f (xs ! k)] = map f (take (Suc k) xs) @ drop (Suc k) xs"
proof -
  have d: "drop k xs = xs ! k # drop (Suc k) xs" using assms by (simp add: Cons_nth_drop_Suc)
  show ?thesis using assms by (simp add: d take_Suc_conv_app_nth list_update_append)
qed

lemma checked_out_opened:
  assumes "list_all (opens_transaction t) ss" and "k \<le> length ss"
  shows "checked_out (map (\<lambda>s. fst (session_step s t)) (take k ss) @ drop k ss) = k"
proof -
  have "\<forall>s \<in> set (take k ss). holds_connection (fst (session_step s t))"
    "\<forall>s \<in> set (drop k ss). \<not> holds_connection s"
    using assms(1) by (auto simp: list_all_iff opens_transaction_def dest: in_set_takeD in_set_dropD)
  then show ?thesis using assms(2) by (simp add: checked_out_def filter_empty_conv)
qed

text \<open>
  Sessions that each open a transaction, scheduled one after the other: the
  first \<open>k\<close> of them, up to the capacity, hold a connection after \<open>k\<close>
  steps, and the table has not changed.
\<close>

lemma pool_run_opens:
  assumes opens: "list_all (opens_transaction t) ss" and k: "k \<le> cap" "k \<le> length ss"
  shows "pool_run cap [0..<k] (t, ss) = (t, map (\<lambda>s. fst (session_step s t)) (take k ss) @ drop k ss)"
  using k
proof (induction k)
  case (Suc k)
  let ?f = "\<lambda>s. fst (session_step s t)"
  let ?ss = "map ?f (take k ss) @ drop k ss"
  have k: "k < length ss" "k < cap" using Suc.prems by simp_all
  have o: "opens_transaction t (ss ! k)" using opens k(1) by (simp add: list_all_length)
  have nth: "?ss ! k = ss ! k" using k(1) by (simp add: nth_append)
  have held: "checked_out ?ss = k" using opens k(1) by (intro checked_out_opened) simp_all
  obtain s' where st: "session_step (ss ! k) t = (s', t)"
    using o by (cases "session_step (ss ! k) t") (simp add: opens_transaction_def)
  have ih: "pool_run cap [0..<k] (t, ss) = (t, ?ss)" using Suc.prems by (intro Suc.IH) simp_all
  have "pool_run cap [0..<Suc k] (t, ss) = pool_run cap [k] (pool_run cap [0..<k] (t, ss))"
    by (simp only: upt_Suc_append [OF le0] pool_run_append)
  also have "\<dots> = pool_run cap [k] (t, ?ss)" by (simp only: ih)
  also have "\<dots> = (t, ?ss[k := ?f (ss ! k)])"
    using o k held by (simp add: nth st opens_transaction_def)
  also have "\<dots> = (t, map ?f (take (Suc k) ss) @ drop (Suc k) ss)"
    using update_opened [OF k(1)] by simp
  finally show ?case .
qed simp

lemma start_restock:
  "start_request (PATCH_product 1 restock_json) = Update_Query 1 \<lparr>pu_price = None, pu_stock_quantity = Some 5\<rparr>"
  by (simp add: start_request_def ProductUpdate_validate_def check_opt_price_def check_opt_stock_quantity_def)

lemma restock_run:
  "map response_of (snd (pool_run pool_capacity ([0..<16] @ [0..<15] @ [0..<15])
     (widget_table, replicate 16 (start_request (PATCH_product 1 restock_json))))) =
   replicate 15 (Some (200, Body_Product (ProductResponse_of (widget_row\<lparr>stock_quantity := 5\<rparr>))))
     @ [Some (500, Body_Internal_Server_Error)]"
  unfolding start_restock
  by (simp add: pool_capacity_def pool_size_def max_overflow_def checked_out_def
        session_response_def numeral_eq_Suc upt_rec model_defs)

lemma restock_serial:
  "map fst (fst (serve_all (replicate 16 (PATCH_product 1 restock_json)) \<lparr>store = widget_table, open_sessions = 0\<rparr>)) =
   replicate 16 200"
  by (simp add: numeral_eq_Suc model_defs Let_def)

section \<open>Properties\<close>

text \<open>
  The pool is never overdrawn. In every pooled run that starts with at
  most \<open>cap\<close> sessions inside a transaction, at most \<open>cap\<close> sessions hold a
  connection in every state it reaches.
\<close>

lemma pool_bound:
  assumes "(pool_step cap)\<^sup>*\<^sup>* c c'" and "checked_out (snd c) \<le> cap"
  shows "checked_out (snd c') \<le> cap"
  using assms by (induction rule: rtranclp_induct) (auto intro: checked_out_step)

text \<open>
  The pool only restricts the interleaving. Every pooled step is a step
  of \<open>conc_step\<close>, or the timeout of one unfinished session, which leaves the
  table unchanged.
\<close>

lemma pool_step_refines:
  assumes "pool_step cap c c'"
  shows "conc_step c c' \<or>
    (\<exists>i. i < length (snd c) \<and> \<not> finished (snd c ! i) \<and>
         c' = (fst c, (snd c)[i := Done (Inl Pool_TimeoutError)]))"
  using assms
proof (cases rule: pool_step.cases)
  case (run i ss t s' t')
  then show ?thesis by (auto intro: conc_step.step)
next
  case (timeout i ss t)
  then show ?thesis by auto
qed

text \<open>
  The pool cannot deadlock. With at least one connection, any
  configuration has a pooled run, which is also an unrestricted run, after
  which every request has been answered: a session inside a transaction can
  always go on, and when none is, a connection is free.
\<close>

lemma pool_can_finish:
  assumes "0 < cap"
  shows "\<exists>c'. (pool_step cap)\<^sup>*\<^sup>* c c' \<and> conc_step\<^sup>*\<^sup>* c c' \<and> (\<forall>s \<in> set (snd c'). finished s)"
proof (induction c rule: measure_induct_rule [of work])
  case (less c)
  obtain t ss where c: "c = (t, ss)" by fastforce
  show ?case
  proof (cases "\<forall>s \<in> set ss. finished s")
    case True
    with c show ?thesis by auto
  next
    case False
    have "\<exists>i < length ss. \<not> finished (ss ! i) \<and> (holds_connection (ss ! i) \<or> checked_out ss < cap)"
    proof (cases "checked_out ss = 0")
      case True
      with False assms show ?thesis by (auto simp: in_set_conv_nth)
    next
      case nz: False
      then obtain s where "s \<in> set ss" "holds_connection s"
        by (auto simp: checked_out_def filter_empty_conv)
      moreover have "\<not> finished s" if "holds_connection s" for s
        using that by (cases s) simp_all
      ultimately show ?thesis by (auto simp: in_set_conv_nth)
    qed
    then obtain i where i: "i < length ss" "\<not> finished (ss ! i)"
      and free: "holds_connection (ss ! i) \<or> checked_out ss < cap" by blast
    obtain s' t' where st: "session_step (ss ! i) t = (s', t')" by fastforce
    have p: "pool_step cap c (t', ss[i := s'])" unfolding c using i free st by (rule pool_step.run)
    have q: "conc_step c (t', ss[i := s'])" unfolding c using i st by (rule conc_step.step)
    from less [OF work_decreases [OF q]] obtain c' where
      "(pool_step cap)\<^sup>*\<^sup>* (t', ss[i := s']) c'" "conc_step\<^sup>*\<^sup>* (t', ss[i := s']) c'"
      "\<forall>s \<in> set (snd c'). finished s" by blast
    with p q show ?thesis by (blast intro: converse_rtranclp_into_rtranclp)
  qed
qed

text \<open>
  Pool exhaustion reaches the client. Whenever more requests than the
  pool's capacity are about to open a transaction, there is a pooled run in
  which the first \<open>cap\<close> of them each check out a connection and hold it, so
  that the next finds the pool empty and, if no connection is returned
  within \<^verbatim>\<open>pool_timeout\<close>, fails with \<^verbatim>\<open>TimeoutError\<close>, which no handler
  catches: it is answered 500.
\<close>

lemma pool_exhaustion_500:
  assumes "cap < length ss" and "list_all (opens_transaction t) ss"
  shows "\<exists>c'. (pool_step cap)\<^sup>*\<^sup>* (t, ss) c' \<and> response_of (snd c' ! cap) = Some (500, Body_Internal_Server_Error)"
proof -
  let ?ss = "map (\<lambda>s. fst (session_step s t)) (take cap ss) @ drop cap ss"
  have run: "pool_run cap [0..<cap] (t, ss) = (t, ?ss)"
    using assms by (intro pool_run_opens) simp_all
  have o: "opens_transaction t (ss ! cap)" using assms by (simp add: list_all_length)
  have nth: "?ss ! cap = ss ! cap" using assms(1) by (simp add: nth_append)
  have full: "checked_out ?ss = cap" using assms by (intro checked_out_opened) simp_all
  have "pool_run cap [0..<Suc cap] (t, ss) = (t, ?ss[cap := Done (Inl Pool_TimeoutError)])"
    using run o nth full assms(1) by (simp add: pool_run_append opens_transaction_def)
  moreover have "length ?ss = length ss" using assms(1) by simp
  ultimately have "response_of (snd (pool_run cap [0..<Suc cap] (t, ss)) ! cap) = Some (500, Body_Internal_Server_Error)"
    using assms(1) by (simp add: session_response_def)
  with pool_run_sound show ?thesis by blast
qed

end
