(* ===== verification/Wire.thy ===== *)
theory Wire
  imports Routes
begin

text \<open>
  The application of \<^verbatim>\<open>src/main.py\<close> at the level of the wire: the request
  body as the Python value \<^verbatim>\<open>json.loads\<close> returns, the path parameter as the
  string of its path segment, and pydantic's lax type coercion from these
  values to the fields of \<^verbatim>\<open>src/schemas.py\<close> and to \<^verbatim>\<open>product_id: int\<close>.
  FastAPI validates the body and the path parameters of an endpoint in
  Python mode, field by field: a field is first coerced to its declared type
  and then checked against its constraints, and the errors of all fields are
  reported together. Python's parsing of a number from a string is a
  parameter of the model (\<open>pf\<close> for floats, \<open>pint\<close> for integers); the
  theorems hold for every such parser, or for every parser that reads a
  canonical decimal back. The typed server \<open>serve\<close> of \<open>Routes\<close> is the wire
  server on well-typed requests.
\<close>

section \<open>Definitions\<close>

text \<open>
  The Python value of a JSON document: \<^verbatim>\<open>None\<close>, a \<^verbatim>\<open>bool\<close>, an \<^verbatim>\<open>int\<close>
  (a JSON number without fraction or exponent), a finite \<^verbatim>\<open>float\<close>, a
  \<^verbatim>\<open>str\<close>, a \<^verbatim>\<open>list\<close>, and a \<^verbatim>\<open>dict\<close> as the list of the object's members
  in the order of the document.
\<close>

datatype json =
    JNull
  | JBool bool
  | JInt int
  | JFloat rat
  | JStr string
  | JList "json list"
  | JObject "(string \<times> json) list"

type_synonym json_object = "(string \<times> json) list"

text \<open>The \<^verbatim>\<open>dict\<close> built from an object: a key given twice keeps its last value.\<close>

definition dict_get :: "json_object \<Rightarrow> string \<Rightarrow> json option" where
  "dict_get kvs k = map_of (rev kvs) k"

text \<open>
  Lax coercion to \<^verbatim>\<open>str\<close>: only a string is accepted; pydantic does not turn
  numbers into strings.
\<close>

fun coerce_str :: "json \<Rightarrow> (verr, string) result" where
  "coerce_str (JStr s) = Inr s"
| "coerce_str _ = Inl Wrong_Type"

text \<open>
  Lax coercion to \<^verbatim>\<open>float\<close>: a float, an int, a bool (as 0 or 1), or a string
  that parses as a float.
\<close>

fun coerce_float :: "(string \<Rightarrow> rat option) \<Rightarrow> json \<Rightarrow> (verr, rat) result" where
  "coerce_float pf (JFloat x) = Inr x"
| "coerce_float pf (JInt n) = Inr (of_int n)"
| "coerce_float pf (JBool b) = Inr (if b then 1 else 0)"
| "coerce_float pf (JStr s) = (case pf s of Some x \<Rightarrow> Inr x | None \<Rightarrow> Inl Float_Parsing)"
| "coerce_float pf _ = Inl Wrong_Type"

text \<open>
  Lax coercion to \<^verbatim>\<open>int\<close>: an int, a bool (as 0 or 1), a float without
  fractional part, or a string that parses as an integer.
\<close>

fun coerce_int :: "(string \<Rightarrow> int option) \<Rightarrow> json \<Rightarrow> (verr, int) result" where
  "coerce_int pint (JInt n) = Inr n"
| "coerce_int pint (JBool b) = Inr (if b then 1 else 0)"
| "coerce_int pint (JFloat x) = (if x = of_int \<lfloor>x\<rfloor> then Inr \<lfloor>x\<rfloor> else Inl Int_From_Float)"
| "coerce_int pint (JStr s) = (case pint s of Some n \<Rightarrow> Inr n | None \<Rightarrow> Inl Int_Parsing)"
| "coerce_int pint _ = Inl Wrong_Type"

text \<open>
  One field of a model: absent, \<^verbatim>\<open>None\<close>, or a value coerced to the field's
  type; then the constraints of the field (\<open>Schemas\<close>) on the result.
\<close>

definition decode_field :: "(json \<Rightarrow> (verr, 'a) result) \<Rightarrow> json option \<Rightarrow> (verr, 'a json_field) result" where
  "decode_field co v =
     (case v of
        None \<Rightarrow> Inr Omitted
      | Some JNull \<Rightarrow> Inr Null
      | Some x \<Rightarrow> (case co x of Inl e \<Rightarrow> Inl e | Inr a \<Rightarrow> Inr (Val a)))"

definition validate_field ::
  "(json \<Rightarrow> (verr, 'a) result) \<Rightarrow> ('a json_field \<Rightarrow> (verr, 'b) result) \<Rightarrow> json option \<Rightarrow> (verr, 'b) result" where
  "validate_field co check v = (case decode_field co v of Inl e \<Rightarrow> Inl e | Inr f \<Rightarrow> check f)"

text \<open>\<^verbatim>\<open>ProductCreate\<close> validated from a \<^verbatim>\<open>dict\<close>; members other than the fields are ignored.\<close>

definition ProductCreate_validate_body ::
  "(string \<Rightarrow> rat option) \<Rightarrow> (string \<Rightarrow> int option) \<Rightarrow> json_object \<Rightarrow> (field_errors, ProductCreate) result" where
  "ProductCreate_validate_body pf pint kvs =
     (case (validate_field coerce_str check_product_name (dict_get kvs ''product_name''),
            validate_field (coerce_float pf) check_price (dict_get kvs ''price''),
            validate_field (coerce_int pint) check_stock_quantity (dict_get kvs ''stock_quantity'')) of
        (Inr n, Inr p, Inr s) \<Rightarrow>
          Inr \<lparr>pc_product_name = n, pc_price = p, pc_stock_quantity = s\<rparr>
      | (rn, rp, rs) \<Rightarrow>
          Inl (field_error ''product_name'' rn @ field_error ''price'' rp
               @ field_error ''stock_quantity'' rs))"

definition ProductUpdate_validate_body ::
  "(string \<Rightarrow> rat option) \<Rightarrow> (string \<Rightarrow> int option) \<Rightarrow> json_object \<Rightarrow> (field_errors, ProductUpdate) result" where
  "ProductUpdate_validate_body pf pint kvs =
     (case (validate_field (coerce_float pf) check_opt_price (dict_get kvs ''price''),
            validate_field (coerce_int pint) check_opt_stock_quantity (dict_get kvs ''stock_quantity'')) of
        (Inr p, Inr s) \<Rightarrow> Inr \<lparr>pu_price = p, pu_stock_quantity = s\<rparr>
      | (rp, rs) \<Rightarrow> Inl (field_error ''price'' rp @ field_error ''stock_quantity'' rs))"

text \<open>
  The body of a request: a required body that is absent is \<^verbatim>\<open>missing\<close>, and a
  body that is not an object fails the model's type check; both are reported
  at the location \<^verbatim>\<open>body\<close>.
\<close>

definition body_object :: "json option \<Rightarrow> (field_errors, json_object) result" where
  "body_object b =
     (case b of
        None \<Rightarrow> Inl [(''body'', Missing)]
      | Some (JObject kvs) \<Rightarrow> Inr kvs
      | Some _ \<Rightarrow> Inl [(''body'', Wrong_Type)])"

definition body_validate ::
  "(json_object \<Rightarrow> (field_errors, 'p) result) \<Rightarrow> json option \<Rightarrow> (field_errors, 'p) result" where
  "body_validate validate b = (case body_object b of Inl es \<Rightarrow> Inl es | Inr kvs \<Rightarrow> validate kvs)"

text \<open>\<^verbatim>\<open>product_id: int\<close>, coerced from the string of its path segment.\<close>

definition path_validate :: "(string \<Rightarrow> int option) \<Rightarrow> string \<Rightarrow> (field_errors, int) result" where
  "path_validate pint p = (case pint p of Some i \<Rightarrow> Inr i | None \<Rightarrow> Inl [(''product_id'', Int_Parsing)])"

text \<open>
  The parameters of \<^verbatim>\<open>update_product\<close>: the path parameter, then the body;
  the errors of both are reported together, the path's first.
\<close>

definition patch_validate ::
  "(string \<Rightarrow> rat option) \<Rightarrow> (string \<Rightarrow> int option) \<Rightarrow> string \<Rightarrow> json option \<Rightarrow>
     (field_errors, int \<times> ProductUpdate) result" where
  "patch_validate pf pint p b =
     (case (path_validate pint p, body_validate (ProductUpdate_validate_body pf pint) b) of
        (Inr i, Inr u) \<Rightarrow> Inr (i, u)
      | (ri, ru) \<Rightarrow> Inl ((case ri of Inl es \<Rightarrow> es | Inr _ \<Rightarrow> []) @ (case ru of Inl es \<Rightarrow> es | Inr _ \<Rightarrow> [])))"

text \<open>The requests as they arrive: path parameters as strings, bodies as decoded JSON.\<close>

datatype wire_request =
    Wire_GET_root
  | Wire_POST_products "json option"
  | Wire_GET_products
  | Wire_GET_product string
  | Wire_PATCH_product string "json option"
  | Wire_DELETE_product string

text \<open>
  The application serving a request from the wire: the route, the validation
  of its parameters inside the session of \<^verbatim>\<open>get_db\<close>, the endpoint and the
  rendering of \<open>Routes\<close>.
\<close>

definition serve_wire ::
  "(string \<Rightarrow> rat option) \<Rightarrow> (string \<Rightarrow> int option) \<Rightarrow> wire_request \<Rightarrow> server \<Rightarrow> response \<times> server" where
  "serve_wire pf pint req st =
     (case req of
        Wire_GET_root \<Rightarrow> ((200, Body_Message home), st)
      | Wire_POST_products b \<Rightarrow>
          serve_endpoint Body_Product
            (with_body (body_validate (ProductCreate_validate_body pf pint)) b create_product) st
      | Wire_GET_products \<Rightarrow> serve_endpoint Body_Products get_products st
      | Wire_GET_product p \<Rightarrow> serve_endpoint Body_Product (with_body (path_validate pint) p get_product) st
      | Wire_PATCH_product p b \<Rightarrow>
          serve_endpoint Body_Product
            (with_body (patch_validate pf pint p) b (\<lambda>(i, u). update_product i u)) st
      | Wire_DELETE_product p \<Rightarrow> serve_endpoint Body_Message (with_body (path_validate pint) p delete_product) st)"

text \<open>
  A client's well-typed request put on the wire: Python's \<^verbatim>\<open>str\<close> of the id
  in the path, and a body whose members are the fields that are present, each
  a JSON value of the field's type.
\<close>

definition digit_char :: "nat \<Rightarrow> char" where
  "digit_char d = char_of (48 + d)"

fun nat_repr :: "nat \<Rightarrow> string" where
  "nat_repr n = (if n < 10 then [digit_char n] else nat_repr (n div 10) @ [digit_char (n mod 10)])"

declare nat_repr.simps [simp del]

definition int_repr :: "int \<Rightarrow> string" where
  "int_repr i = (if i < 0 then CHR ''-'' # nat_repr (nat (- i)) else nat_repr (nat i))"

definition field_entry :: "string \<Rightarrow> ('a \<Rightarrow> json) \<Rightarrow> 'a json_field \<Rightarrow> json_object" where
  "field_entry k enc f = (case f of Omitted \<Rightarrow> [] | Null \<Rightarrow> [(k, JNull)] | Val v \<Rightarrow> [(k, enc v)])"

definition ProductCreate_body :: "ProductCreate_json \<Rightarrow> json" where
  "ProductCreate_body j =
     JObject (field_entry ''product_name'' JStr (cj_product_name j) @ field_entry ''price'' JFloat (cj_price j)
              @ field_entry ''stock_quantity'' JInt (cj_stock_quantity j))"

definition ProductUpdate_body :: "ProductUpdate_json \<Rightarrow> json" where
  "ProductUpdate_body j =
     JObject (field_entry ''price'' JFloat (uj_price j) @ field_entry ''stock_quantity'' JInt (uj_stock_quantity j))"

fun wire_of :: "request \<Rightarrow> wire_request" where
  "wire_of GET_root = Wire_GET_root"
| "wire_of (POST_products j) = Wire_POST_products (Some (ProductCreate_body j))"
| "wire_of GET_products = Wire_GET_products"
| "wire_of (GET_product i) = Wire_GET_product (int_repr i)"
| "wire_of (PATCH_product i j) = Wire_PATCH_product (int_repr i) (Some (ProductUpdate_body j))"
| "wire_of (DELETE_product i) = Wire_DELETE_product (int_repr i)"

text \<open>
  A reference parser of decimal integers (an optional minus sign and at least
  one digit), used to run the examples; Python's parser accepts more.
\<close>

definition digit_value :: "char \<Rightarrow> nat option" where
  "digit_value c = (let n = of_char c :: nat in if 48 \<le> n \<and> n \<le> 57 then Some (n - 48) else None)"

fun digits_acc :: "nat \<Rightarrow> string \<Rightarrow> nat option" where
  "digits_acc acc [] = Some acc"
| "digits_acc acc (c # cs) = (case digit_value c of None \<Rightarrow> None | Some d \<Rightarrow> digits_acc (10 * acc + d) cs)"

definition parse_nat :: "string \<Rightarrow> nat option" where
  "parse_nat s = (if s = [] then None else digits_acc 0 s)"

definition parse_decimal :: "string \<Rightarrow> int option" where
  "parse_decimal s =
     (case s of
        c # ds \<Rightarrow> if c = CHR ''-'' then map_option (\<lambda>n. - int n) (parse_nat ds) else map_option int (parse_nat s)
      | [] \<Rightarrow> None)"

lemmas wire_defs [model_defs] =
  dict_get_def decode_field_def validate_field_def ProductCreate_validate_body_def
  ProductUpdate_validate_body_def body_object_def body_validate_def path_validate_def
  patch_validate_def serve_wire_def field_entry_def ProductCreate_body_def ProductUpdate_body_def

section \<open>Lemmas\<close>

lemma digits_acc_append:
  "digits_acc acc (xs @ [c]) =
     (case digits_acc acc xs of None \<Rightarrow> None
      | Some v \<Rightarrow> (case digit_value c of None \<Rightarrow> None | Some d \<Rightarrow> Some (10 * v + d)))"
  by (induction acc xs rule: digits_acc.induct) (simp_all split: option.splits)

lemma of_char_digit_char: "d < 10 \<Longrightarrow> (of_char (digit_char d) :: nat) = 48 + d"
  by (simp add: digit_char_def of_char_of)

lemma digit_value_digit_char [simp]: "d < 10 \<Longrightarrow> digit_value (digit_char d) = Some d"
  by (simp add: digit_value_def of_char_digit_char)

lemma digit_char_not_minus: "d < 10 \<Longrightarrow> digit_char d \<noteq> CHR ''-''"
  using of_char_digit_char [of d] by auto

lemma nat_repr_nonempty [simp]: "nat_repr n \<noteq> []"
  by (subst nat_repr.simps) simp

lemma digits_acc_nat_repr: "digits_acc 0 (nat_repr n) = Some n"
proof (induction n rule: nat_repr.induct)
  case (1 n)
  show ?case
  proof (cases "n < 10")
    case True
    then show ?thesis by (subst nat_repr.simps) simp
  next
    case False
    then have "digits_acc 0 (nat_repr (n div 10)) = Some (n div 10)" by (rule "1.IH")
    with False show ?thesis by (subst nat_repr.simps) (simp add: digits_acc_append)
  qed
qed

lemma nat_repr_hd: "hd (nat_repr n) \<noteq> CHR ''-''"
proof (induction n rule: nat_repr.induct)
  case (1 n)
  show ?case
  proof (cases "n < 10")
    case True
    then show ?thesis by (subst nat_repr.simps) (simp add: digit_char_not_minus)
  next
    case False
    with "1.IH" show ?thesis by (subst nat_repr.simps) simp
  qed
qed

lemma parse_decimal_int_repr: "parse_decimal (int_repr i) = Some i"
proof -
  have n: "parse_nat (nat_repr n) = Some n" for n
    by (simp add: parse_nat_def digits_acc_nat_repr)
  have h: "parse_decimal (nat_repr n) = Some (int n)" for n
    using nat_repr_hd [of n] n [of n]
    by (cases "nat_repr n") (auto simp: parse_decimal_def)
  show ?thesis
    using h [of "nat i"] n [of "nat (- i)"] by (simp add: int_repr_def parse_decimal_def)
qed

text \<open>A field present in the body as a value of its declared JSON type decodes to itself.\<close>

lemma decode_field_Some:
  "x \<noteq> JNull \<Longrightarrow> decode_field co (Some x) = (case co x of Inl e \<Rightarrow> Inl e | Inr a \<Rightarrow> Inr (Val a))"
  by (cases x) (simp_all add: decode_field_def)

text \<open>A member appended to an object overrides any earlier member of its key.\<close>

lemma dict_get_snoc [simp]: "dict_get (kvs @ [(k, v)]) k' = (if k' = k then Some v else dict_get kvs k')"
  by (simp add: dict_get_def)

lemmas wire_body_defs =
  ProductCreate_body_def ProductUpdate_body_def field_entry_def dict_get_def validate_field_def decode_field_def

lemma ProductCreate_validate_body_typed:
  "ProductCreate_validate_body pf pint (case ProductCreate_body j of JObject kvs \<Rightarrow> kvs) = ProductCreate_validate j"
  unfolding ProductCreate_validate_body_def ProductCreate_validate_def
  by (cases "cj_product_name j"; cases "cj_price j"; cases "cj_stock_quantity j") (simp_all add: wire_body_defs)

lemma ProductUpdate_validate_body_typed:
  "ProductUpdate_validate_body pf pint (case ProductUpdate_body j of JObject kvs \<Rightarrow> kvs) = ProductUpdate_validate j"
  unfolding ProductUpdate_validate_body_def ProductUpdate_validate_def
  by (cases "uj_price j"; cases "uj_stock_quantity j") (simp_all add: wire_body_defs)

lemma body_validate_typed:
  "body_validate (ProductCreate_validate_body pf pint) (Some (ProductCreate_body j)) = ProductCreate_validate j"
  "body_validate (ProductUpdate_validate_body pf pint) (Some (ProductUpdate_body u)) = ProductUpdate_validate u"
  using ProductCreate_validate_body_typed [of pf pint j] ProductUpdate_validate_body_typed [of pf pint u]
  by (simp_all add: body_validate_def body_object_def ProductCreate_body_def ProductUpdate_body_def)

lemma with_body_create_typed:
  "with_body (body_validate (ProductCreate_validate_body pf pint)) (Some (ProductCreate_body j)) endpoint =
   with_body ProductCreate_validate j endpoint"
  by (intro ext) (simp add: with_body_def body_validate_typed)

lemma with_body_patch_typed:
  assumes "pint p = Some i"
  shows "with_body (patch_validate pf pint p) (Some (ProductUpdate_body j)) (\<lambda>(i, u). update_product i u) =
    with_body ProductUpdate_validate j (update_product i)"
  using assms body_validate_typed(2) [of pf pint j]
  by (intro ext) (simp add: with_body_def patch_validate_def path_validate_def split: sum.splits)

lemma with_body_path:
  "pint p = Some i \<Longrightarrow> with_body (path_validate pint) p endpoint = endpoint i"
  by (intro ext) (simp add: with_body_def path_validate_def)

lemma serve_wire_invalid:
  "pint p = None \<Longrightarrow>
     serve_wire pf pint (Wire_GET_product p) st = ((422, Body_Validation [(''product_id'', Int_Parsing)]), st)"
  by (simp add: serve_wire_def serve_endpoint_eq with_body_def path_validate_def render_def error_response_def)

text \<open>
  The typed server is the server on the wire: for an integer parser that
  reads Python's decimal rendering of an integer back, a well-typed request
  put on the wire is answered as \<open>serve\<close> answers it.
\<close>

lemma serve_wire_typed:
  assumes "\<And>i. pint (int_repr i) = Some i"
  shows "serve_wire pf pint (wire_of req) st = serve req st"
proof -
  have path: "with_body (path_validate pint) (int_repr i) endpoint = endpoint i" for i :: int and endpoint :: "int \<Rightarrow> _"
    using assms by (rule with_body_path)
  have patch: "with_body (patch_validate pf pint (int_repr i)) (Some (ProductUpdate_body j)) (\<lambda>(i, u). update_product i u) =
      with_body ProductUpdate_validate j (update_product i)" for i j
    using assms by (rule with_body_patch_typed)
  show ?thesis
    by (cases req) (simp_all add: serve_wire_def serve_def path patch with_body_create_typed)
qed

section \<open>Properties\<close>

text \<open>
  Lax coercion at work on concrete bodies, whatever the string parsers are: a
  creation whose price is the JSON \<^verbatim>\<open>true\<close> and whose stock is the float
  \<^verbatim>\<open>10.0\<close> creates a product with price 1 and stock 10; a stock of
  \<^verbatim>\<open>10.5\<close> and a name given as a number are 422 errors; of two members with
  one key the last counts; and the name \<^verbatim>\<open>" a "\<close> passes the length limits,
  which are checked before the validator strips it, and is stored as the
  one-character name \<^verbatim>\<open>"a"\<close>.
\<close>

lemma lax_coercion_runs:
  "fst (serve_wire pf pint (Wire_POST_products (Some (JObject
      [(''product_name'', JStr ''Widget''), (''price'', JBool True), (''stock_quantity'', JFloat 10)])))
     \<lparr>store = empty_table, open_sessions = 0\<rparr>) =
     (200, Body_Product \<lparr>resp_id = 1, resp_product_name = ''Widget'', resp_price = 1, resp_stock_quantity = 10\<rparr>) \<and>
   fst (serve_wire pf pint (Wire_POST_products (Some (JObject
      [(''product_name'', JInt 42), (''price'', JFloat (999 / 100)), (''stock_quantity'', JFloat (21 / 2))])))
     \<lparr>store = empty_table, open_sessions = 0\<rparr>) =
     (422, Body_Validation [(''product_name'', Wrong_Type), (''stock_quantity'', Int_From_Float)]) \<and>
   fst (serve_wire pf pint (Wire_POST_products (Some (JObject
      [(''product_name'', JStr ''Widget''), (''price'', JFloat 0), (''stock_quantity'', JInt 10),
       (''price'', JFloat (999 / 100))])))
     \<lparr>store = empty_table, open_sessions = 0\<rparr>) =
     (200, Body_Product \<lparr>resp_id = 1, resp_product_name = ''Widget'', resp_price = 999 / 100, resp_stock_quantity = 10\<rparr>) \<and>
   fst (serve_wire pf pint (Wire_POST_products (Some (JObject
      [(''product_name'', JStr '' a ''), (''price'', JInt 1), (''stock_quantity'', JInt 1)])))
     \<lparr>store = empty_table, open_sessions = 0\<rparr>) =
     (200, Body_Product \<lparr>resp_id = 1, resp_product_name = ''a'', resp_price = 1, resp_stock_quantity = 1\<rparr>)"
  by (simp add: model_defs Let_def py_isspace_def)

text \<open>
  C13. Lax coercion decides what a creation body means, for every body and
  whatever the parsers of numeric strings are: a price given as a JSON boolean
  is validated as the integer 1 or 0; a stock given as a float with no
  fractional part is validated as that integer; a stock given as a float with
  a fractional part is rejected with \<^verbatim>\<open>int_from_float\<close> at
  \<^verbatim>\<open>stock_quantity\<close>; and a name given as anything but a string or
  \<^verbatim>\<open>null\<close> is rejected as of the wrong type, never converted to a string.
  In each case the member is the last of its key, which overrides any earlier
  one.
\<close>

theorem lax_coercion_create:
  "ProductCreate_validate_body pf pint (kvs @ [(''price'', JBool b)]) =
     ProductCreate_validate_body pf pint (kvs @ [(''price'', JInt (if b then 1 else 0))]) \<and>
   ProductCreate_validate_body pf pint (kvs @ [(''stock_quantity'', JFloat (of_int n))]) =
     ProductCreate_validate_body pf pint (kvs @ [(''stock_quantity'', JInt n)]) \<and>
   (x \<noteq> of_int \<lfloor>x\<rfloor> \<longrightarrow> (\<exists>es. ProductCreate_validate_body pf pint (kvs @ [(''stock_quantity'', JFloat x)]) = Inl es \<and>
      (''stock_quantity'', Int_From_Float) \<in> set es)) \<and>
   ((\<forall>s. v \<noteq> JStr s) \<and> v \<noteq> JNull \<longrightarrow> (\<exists>es. ProductCreate_validate_body pf pint (kvs @ [(''product_name'', v)]) = Inl es \<and>
      (''product_name'', Wrong_Type) \<in> set es))"
proof (intro conjI impI)
  show "ProductCreate_validate_body pf pint (kvs @ [(''price'', JBool b)]) =
     ProductCreate_validate_body pf pint (kvs @ [(''price'', JInt (if b then 1 else 0))])"
  proof -
    have "coerce_float pf (JInt (if b then 1 else 0)) = coerce_float pf (JBool b)" by (cases b) simp_all
    then show ?thesis by (simp add: ProductCreate_validate_body_def validate_field_def decode_field_Some)
  qed
  show "ProductCreate_validate_body pf pint (kvs @ [(''stock_quantity'', JFloat (of_int n))]) =
     ProductCreate_validate_body pf pint (kvs @ [(''stock_quantity'', JInt n)])"
    by (simp add: ProductCreate_validate_body_def validate_field_def decode_field_Some)
next
  assume "x \<noteq> of_int \<lfloor>x\<rfloor>"
  then show "\<exists>es. ProductCreate_validate_body pf pint (kvs @ [(''stock_quantity'', JFloat x)]) = Inl es \<and>
      (''stock_quantity'', Int_From_Float) \<in> set es"
    by (auto simp: ProductCreate_validate_body_def validate_field_def decode_field_Some field_error_def
        split: sum.splits)
next
  assume v: "(\<forall>s. v \<noteq> JStr s) \<and> v \<noteq> JNull"
  then have "validate_field coerce_str check_product_name (Some v) = Inl Wrong_Type"
    by (cases v) (auto simp: validate_field_def decode_field_def)
  then show "\<exists>es. ProductCreate_validate_body pf pint (kvs @ [(''product_name'', v)]) = Inl es \<and>
      (''product_name'', Wrong_Type) \<in> set es"
    by (auto simp: ProductCreate_validate_body_def field_error_def split: sum.splits)
qed

theorem lax_coercion_create_witness:
  "ProductCreate_validate_body (\<lambda>_. None) parse_decimal
     [(''product_name'', JStr ''Widget''), (''stock_quantity'', JInt 10), (''price'', JFloat 5), (''price'', JBool True)] =
     Inr \<lparr>pc_product_name = ''Widget'', pc_price = 1, pc_stock_quantity = 10\<rparr> \<and>
   (\<exists>es. ProductCreate_validate_body (\<lambda>_. None) parse_decimal
     [(''product_name'', JStr ''Widget''), (''stock_quantity'', JInt 10), (''price'', JFloat 5), (''stock_quantity'', JFloat (21 / 2))] =
     Inl es \<and> (''stock_quantity'', Int_From_Float) \<in> set es) \<and>
   (\<exists>es. ProductCreate_validate_body (\<lambda>_. None) parse_decimal
     [(''product_name'', JStr ''Widget''), (''stock_quantity'', JInt 10), (''price'', JFloat 5), (''product_name'', JInt 42)] =
     Inl es \<and> (''product_name'', Wrong_Type) \<in> set es)"
proof -
  have fl: "(21 / 2 :: rat) \<noteq> of_int \<lfloor>21 / 2 :: rat\<rfloor>"
  proof -
    have "\<lfloor>21 / 2 :: rat\<rfloor> = 10" by (simp add: floor_eq_iff)
    then show ?thesis by simp
  qed
  note l = lax_coercion_create [of "\<lambda>_. None" parse_decimal
      "[(''product_name'', JStr ''Widget''), (''stock_quantity'', JInt 10), (''price'', JFloat 5)]" True 10 "21 / 2" "JInt 42"]
  have "ProductCreate_validate_body (\<lambda>_. None) parse_decimal
     [(''product_name'', JStr ''Widget''), (''stock_quantity'', JInt 10), (''price'', JFloat 5), (''price'', JInt 1)] =
     Inr \<lparr>pc_product_name = ''Widget'', pc_price = 1, pc_stock_quantity = 10\<rparr>"
    by (simp add: model_defs Let_def py_isspace_def)
  with l fl show ?thesis by simp
qed

end
