(* ===== verification/Http_Routing.thy ===== *)
theory Http_Routing
  imports Wire
begin

text \<open>
  The routing of a request to an endpoint, by the Starlette router under
  FastAPI: the six path operations of \<^verbatim>\<open>src/main.py\<close> in the order they are
  declared, each a path template and a method. The first route whose
  template matches the path and whose method is the request's handles it; a
  path that some route matches with another method is a 405; otherwise a path
  that matches once a trailing slash is removed or added is redirected
  there; anything else is a 404. These answers come from the router, before
  any dependency runs, so they open no session. The theorems show that the
  request a client builds for each typed request reaches its endpoint, so
  that the whole server is \<open>serve\<close> on such requests.
\<close>

section \<open>Definitions\<close>

datatype http_method = HEAD | GET | POST | PUT | PATCH | DELETE | OPTIONS

record http_request =
  req_method :: http_method
  req_path :: string
  req_body :: "json option"

text \<open>
  A path template: literal text and parameters. Starlette compiles a
  parameter without a convertor to the pattern \<^verbatim>\<open>[^/]+\<close>.
\<close>

datatype piece = Lit string | Param

fun match_template :: "piece list \<Rightarrow> string \<Rightarrow> string list option" where
  "match_template [] s = (if s = [] then Some [] else None)"
| "match_template (Lit l # ps) s = (if take (length l) s = l then match_template ps (drop (length l) s) else None)"
| "match_template (Param # ps) s =
     (let v = takeWhile (\<lambda>c. c \<noteq> CHR ''/'') s
      in if v = [] then None else map_option (Cons v) (match_template ps (drop (length v) s)))"

datatype endpoint =
    EP_home
  | EP_create_product
  | EP_get_products
  | EP_get_product
  | EP_update_product
  | EP_delete_product

text \<open>
  The route table of main.py: the decorators \<^verbatim>\<open>@app.get("/")\<close>,
  \<^verbatim>\<open>@app.post("/products")\<close>, \<^verbatim>\<open>@app.get("/products")\<close>,
  \<^verbatim>\<open>@app.get("/products/{product_id}")\<close>,
  \<^verbatim>\<open>@app.patch("/products/{product_id}")\<close> and
  \<^verbatim>\<open>@app.delete("/products/{product_id}")\<close>. A FastAPI route answers only
  the methods it declares (no implicit \<^verbatim>\<open>HEAD\<close>).
\<close>

definition app_routes :: "(piece list \<times> http_method \<times> endpoint) list" where
  "app_routes =
     [([Lit ''/''], GET, EP_home),
      ([Lit ''/products''], POST, EP_create_product),
      ([Lit ''/products''], GET, EP_get_products),
      ([Lit ''/products/'', Param], GET, EP_get_product),
      ([Lit ''/products/'', Param], PATCH, EP_update_product),
      ([Lit ''/products/'', Param], DELETE, EP_delete_product)]"

text \<open>The first route that matches in full: template and method.\<close>

fun first_full :: "(piece list \<times> http_method \<times> endpoint) list \<Rightarrow> http_method \<Rightarrow> string \<Rightarrow>
    (endpoint \<times> string list) option" where
  "first_full [] m p = None"
| "first_full ((tpl, m', e) # rs) m p =
     (case match_template tpl p of
        Some args \<Rightarrow> if m' = m then Some (e, args) else first_full rs m p
      | None \<Rightarrow> first_full rs m p)"

definition path_matches :: "string \<Rightarrow> bool" where
  "path_matches p \<longleftrightarrow> list_ex (\<lambda>(tpl, _, _). match_template tpl p \<noteq> None) app_routes"

text \<open>
  The other spelling of a path that \<^verbatim>\<open>redirect_slashes\<close> tries: without its
  trailing slashes (\<^verbatim>\<open>rstrip("/")\<close>), or with one added.
\<close>

definition redirect_path :: "string \<Rightarrow> string" where
  "redirect_path p =
     (if p \<noteq> [] \<and> last p = CHR ''/'' then rev (dropWhile (\<lambda>c. c = CHR ''/'') (rev p)) else p @ ''/'')"

datatype routed = Routed endpoint "string list" | Not_Allowed | Redirect string | Not_Found

definition route :: "http_method \<Rightarrow> string \<Rightarrow> routed" where
  "route m p =
     (case first_full app_routes m p of
        Some (e, args) \<Rightarrow> Routed e args
      | None \<Rightarrow>
          if path_matches p then Not_Allowed
          else if p \<noteq> ''/'' \<and> path_matches (redirect_path p) then Redirect (redirect_path p)
          else Not_Found)"

text \<open>The request an endpoint receives: its path parameter and its body.\<close>

fun the_param :: "string list \<Rightarrow> string" where
  "the_param [v] = v"
| "the_param _ = []"

fun endpoint_request :: "endpoint \<Rightarrow> string list \<Rightarrow> json option \<Rightarrow> wire_request" where
  "endpoint_request EP_home args b = Wire_GET_root"
| "endpoint_request EP_create_product args b = Wire_POST_products b"
| "endpoint_request EP_get_products args b = Wire_GET_products"
| "endpoint_request EP_get_product args b = Wire_GET_product (the_param args)"
| "endpoint_request EP_update_product args b = Wire_PATCH_product (the_param args) b"
| "endpoint_request EP_delete_product args b = Wire_DELETE_product (the_param args)"

text \<open>
  What the client receives: a response, or a \<^verbatim>\<open>307\<close> redirect to a path.
  The router's 404 and 405 are \<^verbatim>\<open>HTTPException\<close>s, rendered as a detail.
\<close>

datatype http_response = HTTP_Response response | HTTP_Redirect string

definition serve_http ::
  "(string \<Rightarrow> rat option) \<Rightarrow> (string \<Rightarrow> int option) \<Rightarrow> http_request \<Rightarrow> server \<Rightarrow> http_response \<times> server" where
  "serve_http pf pint r st =
     (case route (req_method r) (req_path r) of
        Routed e args \<Rightarrow>
          (case serve_wire pf pint (endpoint_request e args (req_body r)) st of
             (resp, st') \<Rightarrow> (HTTP_Response resp, st'))
      | Not_Allowed \<Rightarrow> (HTTP_Response (405, Body_Detail ''Method Not Allowed''), st)
      | Redirect p \<Rightarrow> (HTTP_Redirect p, st)
      | Not_Found \<Rightarrow> (HTTP_Response (404, Body_Detail ''Not Found''), st))"

text \<open>The HTTP request a client sends for a typed request.\<close>

fun http_of :: "request \<Rightarrow> http_request" where
  "http_of GET_root = \<lparr>req_method = GET, req_path = ''/'', req_body = None\<rparr>"
| "http_of (POST_products j) = \<lparr>req_method = POST, req_path = ''/products'', req_body = Some (ProductCreate_body j)\<rparr>"
| "http_of GET_products = \<lparr>req_method = GET, req_path = ''/products'', req_body = None\<rparr>"
| "http_of (GET_product i) = \<lparr>req_method = GET, req_path = ''/products/'' @ int_repr i, req_body = None\<rparr>"
| "http_of (PATCH_product i j) =
     \<lparr>req_method = PATCH, req_path = ''/products/'' @ int_repr i, req_body = Some (ProductUpdate_body j)\<rparr>"
| "http_of (DELETE_product i) = \<lparr>req_method = DELETE, req_path = ''/products/'' @ int_repr i, req_body = None\<rparr>"

lemmas routing_defs [model_defs] = app_routes_def path_matches_def redirect_path_def route_def serve_http_def

section \<open>Lemmas\<close>

lemma nat_repr_digits: "c \<in> set (nat_repr n) \<Longrightarrow> 48 \<le> (of_char c :: nat) \<and> (of_char c :: nat) \<le> 57"
proof (induction n rule: nat_repr.induct)
  case (1 n)
  then show ?case
    by (subst (asm) nat_repr.simps) (auto simp: of_char_digit_char split: if_splits)
qed

lemma int_repr_no_slash: "CHR ''/'' \<notin> set (int_repr i)"
proof
  assume c: "CHR ''/'' \<in> set (int_repr i)"
  have "CHR ''/'' \<in> set (nat_repr (nat \<bar>i\<bar>))"
    using c by (auto simp: int_repr_def split: if_splits)
  from nat_repr_digits [OF this] show False by simp
qed

lemma int_repr_nonempty: "int_repr i \<noteq> []"
  by (simp add: int_repr_def)

lemma route_product:
  assumes "v \<noteq> []" and "CHR ''/'' \<notin> set v"
  shows "route GET (''/products/'' @ v) = Routed EP_get_product [v]"
    and "route PATCH (''/products/'' @ v) = Routed EP_update_product [v]"
    and "route DELETE (''/products/'' @ v) = Routed EP_delete_product [v]"
proof -
  have tw: "takeWhile (\<lambda>c. c \<noteq> CHR ''/'') v = v" using assms(2) by (auto simp: takeWhile_eq_all_conv)
  have m: "match_template [Lit ''/products/'', Param] (''/products/'' @ v) = Some [v]"
    using assms(1) by (simp add: tw Let_def)
  have n1: "match_template [Lit ''/''] (''/products/'' @ v) = None"
    and n2: "match_template [Lit ''/products''] (''/products/'' @ v) = None" by simp_all
  show "route GET (''/products/'' @ v) = Routed EP_get_product [v]"
    and "route PATCH (''/products/'' @ v) = Routed EP_update_product [v]"
    and "route DELETE (''/products/'' @ v) = Routed EP_delete_product [v]"
    unfolding route_def app_routes_def by (simp_all only: first_full.simps m n1 n2) simp_all
qed

lemma route_http_of:
  "serve_http pf pint (http_of req) st =
     (case serve_wire pf pint (wire_of req) st of (resp, st') \<Rightarrow> (HTTP_Response resp, st'))"
proof -
  have root: "route GET ''/'' = Routed EP_home []"
    and create: "route POST ''/products'' = Routed EP_create_product []"
    and list: "route GET ''/products'' = Routed EP_get_products []"
    by (simp_all add: route_def app_routes_def)
  note product = route_product [OF int_repr_nonempty int_repr_no_slash, simplified]
  show ?thesis
    by (cases req) (simp_all add: serve_http_def root create list product)
qed

text \<open>
  Requests that reach no endpoint: an unsupported method on a known path, a
  path with a trailing slash, an unknown path, and an id that is not an
  integer for the given parser, with the server unchanged in every case.
\<close>

lemma unrouted_requests:
  "serve_http pf pint \<lparr>req_method = HEAD, req_path = ''/'', req_body = None\<rparr> st =
     (HTTP_Response (405, Body_Detail ''Method Not Allowed''), st)"
  "serve_http pf pint \<lparr>req_method = PUT, req_path = ''/products/1'', req_body = b\<rparr> st =
     (HTTP_Response (405, Body_Detail ''Method Not Allowed''), st)"
  "serve_http pf pint \<lparr>req_method = GET, req_path = ''/products/'', req_body = None\<rparr> st =
     (HTTP_Redirect ''/products'', st)"
  "serve_http pf pint \<lparr>req_method = GET, req_path = ''/items'', req_body = None\<rparr> st =
     (HTTP_Response (404, Body_Detail ''Not Found''), st)"
  "serve_http pf pint \<lparr>req_method = GET, req_path = ''/products/1/2'', req_body = None\<rparr> st =
     (HTTP_Response (404, Body_Detail ''Not Found''), st)"
  "pint ''abc'' = None \<Longrightarrow> serve_http pf pint \<lparr>req_method = GET, req_path = ''/products/abc'', req_body = None\<rparr> st =
     (HTTP_Response (422, Body_Validation [(''product_id'', Int_Parsing)]), st)"
  by (simp_all add: serve_http_def route_def app_routes_def path_matches_def redirect_path_def Let_def serve_wire_invalid)

section \<open>Properties\<close>

text \<open>
  C21: the typed server is the application as clients call it. For every
  float parser and every integer parser that reads Python's decimal
  rendering of an integer back, the HTTP request a client sends for a typed
  request (method, path with the id in decimal, body as a JSON object of
  typed fields) is routed to its endpoint and answered exactly as
  \<open>serve\<close> answers the typed request, with the same table and sessions
  after it; so every theorem about \<open>serve\<close> holds of the application on
  the wire.
\<close>

theorem serve_http_typed:
  assumes "\<And>i. pint (int_repr i) = Some i"
  shows "serve_http pf pint (http_of req) st = (HTTP_Response (fst (serve req st)), snd (serve req st))"
  using route_http_of [of pf pint req st] serve_wire_typed [OF assms, of pf req st]
  by (simp split: prod.splits)

theorem serve_http_typed_witness:
  "(\<forall>i. parse_decimal (int_repr i) = Some i) \<and>
   serve_http (\<lambda>_. None) parse_decimal (http_of (PATCH_product 1 \<lparr>uj_price = Null, uj_stock_quantity = Val 5\<rparr>))
     \<lparr>store = widget_table, open_sessions = 0\<rparr> =
   (HTTP_Response (fst (serve (PATCH_product 1 \<lparr>uj_price = Null, uj_stock_quantity = Val 5\<rparr>)
      \<lparr>store = widget_table, open_sessions = 0\<rparr>)),
    snd (serve (PATCH_product 1 \<lparr>uj_price = Null, uj_stock_quantity = Val 5\<rparr>)
      \<lparr>store = widget_table, open_sessions = 0\<rparr>))"
  using serve_http_typed [of parse_decimal] parse_decimal_int_repr by blast

end
