(* ===== verification/Spec2Isabelle.thy ===== *)
theory Spec2Isabelle
  imports Pool Http_Routing
begin

text \<open>
  \<^bold>\<open>A verification development of the product-inventory HTTP service.\<close>

  \<^bold>\<open>The program.\<close> A FastAPI application (\<^verbatim>\<open>src/main.py\<close>) exposes create,
  list, get, partial update and delete over one table of products, declared
  with SQLAlchemy in \<^verbatim>\<open>src/models.py\<close> and stored in PostgreSQL through the
  session factory of \<^verbatim>\<open>src/database.py\<close>. Request bodies are validated by the
  pydantic models of \<^verbatim>\<open>src/schemas.py\<close> before an endpoint runs; every
  \<^verbatim>\<open>/products\<close> endpoint receives one session from the dependency
  \<^verbatim>\<open>get_db\<close>, performs one query and at most one commit, and returns a
  product, a list, a message, or raises an \<^verbatim>\<open>HTTPException\<close> (400 on a
  duplicate name, 404 on an absent id). Driver exceptions are not caught.

  \<^bold>\<open>The theories, leaf first.\<close>
  \<^item> \<open>Prelude\<close>: the collections \<open>model_defs\<close> (the definitions unfolded to
    evaluate a request) and \<open>inv_simps\<close>, the result type \<open>('e, 'a) result\<close>
    (\<open>Inl\<close> is the exception), and the generic lemmas on tables as keyed lists
    (lookup by \<open>find\<close>, replacement and deletion by key, their
    association-list abstraction) and on rational floors.
  \<^item> \<open>Schemas\<close> (schemas.py): Python's \<^verbatim>\<open>str.isspace\<close> and \<^verbatim>\<open>str.strip\<close>
    (\<open>py_isspace\<close>, \<open>py_strip\<close>), a JSON field as omitted, null or a value
    (\<open>json_field\<close>), pydantic's error kinds (\<open>verr\<close>), and the validation of
    \<^verbatim>\<open>ProductCreate\<close> (\<open>check_product_name\<close>, \<open>check_price\<close>,
    \<open>check_stock_quantity\<close>, \<open>ProductCreate_validate\<close>, with the
    \<^verbatim>\<open>field_validator\<close> as \<open>validate_product_name\<close>) and of
    \<^verbatim>\<open>ProductUpdate\<close> (\<open>ProductUpdate_validate\<close>); the outbound record
    \<open>ProductResponse\<close>.
  \<^item> \<open>Models\<close> (models.py and the writes of main.py): the row \<open>Product\<close>, the
    table \<open>products_table\<close> (rows in heap order and the \<^verbatim>\<open>SERIAL\<close>
    sequence), PostgreSQL's coercion of each column type (\<open>coerce_varchar\<close>,
    \<open>coerce_numeric\<close> with \<open>numeric_round\<close>, \<open>coerce_int4\<close>), the
    constraints (\<open>check_row\<close>), the two queries (\<open>query_by_name\<close>,
    \<open>query_by_id\<close>) and the three writes with their commit
    (\<open>insert_product\<close>, \<open>update_product_row\<close>, \<open>delete_product_row\<close>),
    each returning the driver's \<open>DataError\<close> or \<open>IntegrityError\<close> as a value;
    the storage invariant \<open>table_inv\<close>.
  \<^item> \<open>Database\<close> (database.py, \<^verbatim>\<open>get_db\<close>): the server state \<open>server\<close>
    (committed table, open sessions), \<open>SessionLocal\<close>, \<open>session_close\<close>,
    the generator's exit \<open>get_db_exit\<close> and the bracket \<open>run_with_db\<close>.
  \<^item> \<open>Handlers\<close> (the endpoint functions of main.py): \<open>home\<close>,
    \<open>create_product\<close>, \<open>get_products\<close>, \<open>get_product\<close>,
    \<open>update_product\<close>, \<open>delete_product\<close>, each a function from the validated
    payload and the committed table to a result or \<open>handler_error\<close> and the
    table after its commit; \<open>ProductResponse_of\<close> is \<^verbatim>\<open>from_attributes\<close>;
    the application invariant \<open>app_inv\<close> adds that stored names are stripped.
  \<^item> \<open>Routes\<close> (the FastAPI app of main.py): the requests, the JSON bodies
    and status codes, validation inside the session bracket (\<open>with_body\<close>),
    rendering (\<open>render\<close>, \<open>error_response\<close>), one request (\<open>serve\<close>) and a
    sequence of requests (\<open>serve_all\<close>).
  \<^item> \<open>Refinement\<close>: the specification's operation table as a nondeterministic
    relation \<open>spec_step\<close> on catalogues \<open>int \<rightharpoonup> item\<close>, the abstraction
    \<open>abs_table\<close>, and the simulation theorem for every handler call.
  \<^item> \<open>Concurrency\<close> (requests served at the same time): a session of
    \<^verbatim>\<open>get_db\<close> as a program counter over its handler's database round trips
    (\<open>session\<close>, \<open>session_step\<close>: query, write and commit, refresh), the
    column-wise \<^verbatim>\<open>UPDATE\<close> of SQLAlchemy's unit of work (\<open>dirty\<close>,
    \<open>update_write\<close>), \<^verbatim>\<open>db.refresh\<close> (\<open>refresh\<close>), the ORM errors
    \<^verbatim>\<open>StaleDataError\<close> and \<^verbatim>\<open>InvalidRequestError\<close>, the interleaving
    relation \<open>conc_step\<close> over the committed table and the sessions in flight,
    and its executable form along a schedule (\<open>run_schedule\<close>). The
    invariants about races are stated over ghost predicates of the proofs,
    not of the code: \<open>create_ok\<close> and \<open>claimed_id\<close> for racing creations,
    \<open>patch_phase\<close> and \<open>merge_table\<close> for racing PATCHes,
    \<open>delete_session\<close> for racing DELETEs; each is shown to hold along every
    interleaving by rule induction over \<open>conc_step\<^sup>*\<^sup>*\<close>.
  \<^item> \<open>Http_Concurrency\<close> (the FastAPI app serving overlapping requests): a
    request starts its session after body validation (\<open>start_request\<close>)
    and a finished session is rendered into status and body
    (\<open>session_response\<close>, ORM errors as 500); \<open>http_outcome\<close> is the
    sequential server's answer in the same terms.
  \<^item> \<open>Pool\<close> (the engine of database.py): the default \<^verbatim>\<open>QueuePool\<close> of
    \<^verbatim>\<open>create_engine\<close> (\<open>pool_size\<close>, \<open>max_overflow\<close>,
    \<open>pool_capacity\<close> = 15), the sessions that hold a connection because
    their transaction is open (\<open>holds_connection\<close>, \<open>checked_out\<close>), the
    pooled interleaving \<open>pool_step\<close>, in which a session needs a free
    connection to begin a transaction and may instead fail with the pool's
    \<^verbatim>\<open>TimeoutError\<close> (a 500) when none is free, and its executable form
    \<open>pool_run\<close>.
  \<^item> \<open>Wire\<close> (main.py and schemas.py as clients call them): the body as the
    Python value \<^verbatim>\<open>json.loads\<close> returns (\<open>json\<close>, a \<^verbatim>\<open>dict\<close> keeping the
    last of two equal keys, \<open>dict_get\<close>), pydantic's lax coercion of a value
    to \<^verbatim>\<open>str\<close>, \<^verbatim>\<open>float\<close> and \<^verbatim>\<open>int\<close> (\<open>coerce_str\<close>,
    \<open>coerce_float\<close>, \<open>coerce_int\<close>), the field-by-field validation of the
    two models from a body (\<open>ProductCreate_validate_body\<close>,
    \<open>ProductUpdate_validate_body\<close>, \<open>body_validate\<close>), the path parameter
    \<^verbatim>\<open>product_id: int\<close> (\<open>path_validate\<close>, \<open>patch_validate\<close>), and the
    application serving such requests (\<open>serve_wire\<close>). Python's parsing of
    a number from a string is a parameter: the theorems hold for every parser,
    or for every parser that reads Python's decimal rendering of an integer
    (\<open>int_repr\<close>) back; \<open>parse_decimal\<close> is such a parser, used to run
    the examples.
  \<^item> \<open>Http_Routing\<close> (the route decorators of main.py and Starlette's
    router): the route table \<open>app_routes\<close> of path templates and methods in
    declaration order, template matching (\<open>match_template\<close>), the router
    (\<open>route\<close>: the first full match, else 405 for a known path, else the
    redirect of \<^verbatim>\<open>redirect_slashes\<close>, else 404), and the whole
    application on an HTTP request (\<open>serve_http\<close>).

  \<^bold>\<open>What is proved.\<close> The properties of the specification's section on
  testable properties: create then get returns the created product (C1); a
  duplicate name after stripping is a 400 and no write (C2); get, update and
  delete of an absent id are a 404 and no write (C3); a PATCH changes exactly
  the fields present (C4); get after delete is a 404 (C5); a non-positive
  price or negative stock is a 422 before any write (C6). Invariants: every
  sequence of requests keeps the application invariant and releases every
  session (C7); every write keeps the storage invariant whatever the values
  (C8). Functional and error behaviour: a valid fresh creation succeeds with
  the next sequence value (C9); the handlers refine the contract on the
  payloads the price column stores exactly, names stripped and prices of at
  most two decimals (C10); the session bracket is transparent (C11);
  what a validated creation payload guarantees (C12); values the driver
  rejects are a 500
  and no row (C17); the listing returns every stored product (C18).
  Concurrency: every interleaving keeps the application invariant (C19);
  racing creations never both succeed with one name (C20). The wire: the
  HTTP request a client sends for a typed request is routed to its endpoint
  and answered exactly as \<open>serve\<close> answers it (C21), so the theorems
  about \<open>serve\<close> hold of the application as clients call it; requests that
  reach no endpoint are 404, 405 or a redirect and change nothing
  (\<open>unrouted_requests\<close>). Serial schedules give exactly the sequential
  handlers' results (C22), which ties the theorems about the handlers to the
  concurrent system. Races, for every table and every interleaving: two
  PATCHes of one row, one of the price and one of the stock, both take effect
  and each response shows its own field (C23); racing DELETEs are each
  answered 200 or 404, never 500, so two of them can both report success
  (C24); a PATCH whose row is deleted under it is a 500 and writes nothing
  (C25). Composition and typing: every body the sequential server sends is a
  well-formed outbound representation (C26); on serial schedules the
  concurrent HTTP server sends exactly what \<open>serve_all\<close> sends (C27); under
  every interleaving every response is well typed (C28); without overlapping
  requests no client ever receives an \<^verbatim>\<open>IntegrityError\<close> (C29), while from
  any consistent table two overlapping POSTs of a new product can be answered
  200 and 500 instead of 200 and 400: the documented race ends in an
  \<^verbatim>\<open>IntegrityError\<close> (C30). Once the id sequence is exhausted, no sequence
  of requests stores a row with a new id, whatever was deleted (C31).
  The connection pool (\<open>Pool\<close>) is modelled with its lemmas but carries no
  property: no run has more than fifteen connections checked out
  (\<open>pool_bound\<close>), every pooled step is an unrestricted step or a timeout
  that changes no row (\<open>pool_step_refines\<close>), pooled runs keep the
  application invariant (\<open>pool_steps_app_inv\<close>), the pool cannot deadlock
  (\<open>pool_can_finish\<close>), and more requests than the capacity can end in a
  \<^verbatim>\<open>TimeoutError\<close> (\<open>pool_exhaustion_500\<close>); these follow from the
  shape of \<open>pool_step\<close> and of its timeout rule.
  Findings, proved as theorems: lax coercion validates a price given as a
  boolean as 1 or 0 and a stock given as an integral float as that integer,
  for every body and every string parser, and rejects a name that is not a
  string (C13); an explicit null in a PATCH is indistinguishable from an
  omitted field (C14); a price below half a cent passes validation and is
  stored and returned as 0 (C15); every price the column stores is rounded
  to cents, below \<open>10\<^sup>8\<close> in absolute value, and within half a cent of
  the price sent (C16).

  \<^bold>\<open>Representation choices.\<close> Python floats are modelled as the exact
  rationals they denote (\<open>rat\<close>); the rounding that matters is the
  database's, \<^verbatim>\<open>Numeric(10, 2)\<close>, modelled exactly (half away from zero,
  overflow at \<open>10\<^sup>8\<close>). Python integers are \<open>int\<close>, checked against the
  32-bit column range where they are stored. Strings are lists of code points
  below 256. No definition needs fuel: every function is total by structural
  recursion, or, for the interleavings, by the measure \<open>work\<close> (the round
  trips left, three at most per request), which every step decreases; the
  schedules of the examples are explicit lists of session indices.
  Concurrency is at the granularity of statements: each write of a handler is
  committed at once, so its statement and its commit are one step, and
  PostgreSQL's row locks and \<^verbatim>\<open>READ COMMITTED\<close> visibility make each
  statement atomic with respect to the others.
  The order of \<^verbatim>\<open>db.query(Product).all()\<close>, a query without
  \<^verbatim>\<open>ORDER BY\<close>, is PostgreSQL's scan order, which SQL leaves unspecified; it is
  modelled as the order of the table's list, and the theorems about the
  listing (C10, C18) do not depend on it: they speak of the set of entries
  and of the map from ids to products.

  \<^bold>\<open>Not modelled.\<close> Process start-up (the connection
  string and the \<^verbatim>\<open>echo\<close> logging of \<^verbatim>\<open>src/database.py\<close>, which have no
  effect on the answers; \<^verbatim>\<open>create_all\<close>, which keeps the rows of an existing
  table: the general theorems assume only the invariant of the table, and the
  examples start from the empty one); HTTP parsing and the text of a JSON
  document (\<open>Wire\<close> starts from the value \<^verbatim>\<open>json.loads\<close> returns; a body
  that is not JSON, and the non-finite floats \<^verbatim>\<open>NaN\<close> and
  \<^verbatim>\<open>Infinity\<close> that Python's decoder admits, are not represented); Python's
  parsing of numbers from strings, which is a parameter of \<open>Wire\<close>; the
  rounding of a Python \<^verbatim>\<open>int\<close> converted to \<^verbatim>\<open>float\<close>; headers,
  and the absolute URL of a redirect (modelled as its path); the response's float conversion of the stored decimal. Time: the pool's 30-second \<^verbatim>\<open>pool_timeout\<close> is not
  measured; the timeout is a possible step whenever the pool is exhausted,
  which includes every run in which no connection comes back in time, so
  the lemmas of \<open>Pool\<close> hold whatever the timing. Python's exact comparison of the loaded \<^verbatim>\<open>Decimal\<close>
  with the assigned float, which decides whether SQLAlchemy writes a column,
  is modelled as equality of the rationals the two denote. The concurrent model
  counts the connections a session holds (\<open>Pool\<close>), not the session objects
  (C11 covers their release), and a session
  is not interrupted between its statements by a client disconnect.
\<close>

abbreviation start_server :: server where
  "start_server \<equiv> \<lparr>store = empty_table, open_sessions = 0\<rparr>"

text \<open>
  C17. A price that passes validation (\<open>gt=0\<close>) but is below half a cent
  is stored by \<^verbatim>\<open>Numeric(10, 2)\<close> as 0: whenever such a creation is
  answered 200, the product returned and the row stored have price 0,
  although the specification requires the price of a created product to be
  strictly positive.
\<close>

theorem sub_cent_price_stored_as_zero:
  assumes "cj_price j = Val p" and "0 < p" and "p < 1 / 200"
    and ok: "fst (serve (POST_products j) st) = (200, Body_Product resp)"
  shows "resp_price resp = 0 \<and>
    (\<exists>r. r \<in> set (rows (store (snd (serve (POST_products j) st)))) \<and> id' r = resp_id resp \<and> price r = 0)"
proof -
  obtain pc where v: "ProductCreate_validate j = Inr pc"
    and c: "create_product pc (store st) = (Inr resp, store (snd (serve (POST_products j) st)))"
    using serve_create_200 [OF ok] by blast
  have pp: "pc_price pc = p"
    using v assms(1,2) by (auto simp: ProductCreate_validate_Inr check_price_def split: if_splits)
  obtain r where ins: "insert_product (py_strip (pc_product_name pc)) (pc_price pc) (pc_stock_quantity pc) (store st)
      = (Inr r, store (snd (serve (POST_products j) st)))" and resp: "resp = ProductResponse_of r"
    using c by (auto simp: create_product_Inr)
  have "numeric_round 2 p = 0" using assms(2,3) by (intro numeric_round_small) simp
  then show ?thesis
    using insert_product_Inr_row [OF ins] pp resp by (auto simp: ProductResponse_of_def)
qed

theorem sub_cent_price_stored_as_zero_witness:
  "cj_price \<lparr>cj_product_name = Val ''Widget'', cj_price = Val (1 / 1000), cj_stock_quantity = Val 10\<rparr> = Val (1 / 1000) \<and>
   (0 :: rat) < 1 / 1000 \<and> (1 / 1000 :: rat) < 1 / 200 \<and>
   fst (serve (POST_products \<lparr>cj_product_name = Val ''Widget'', cj_price = Val (1 / 1000), cj_stock_quantity = Val 10\<rparr>)
     start_server) =
     (200, Body_Product \<lparr>resp_id = 1, resp_product_name = ''Widget'', resp_price = 0, resp_stock_quantity = 10\<rparr>) \<and>
   resp_price \<lparr>resp_id = 1, resp_product_name = ''Widget'', resp_price = 0, resp_stock_quantity = 10\<rparr> = 0 \<and>
   (\<exists>r. r \<in> set (rows (store (snd (serve (POST_products
       \<lparr>cj_product_name = Val ''Widget'', cj_price = Val (1 / 1000), cj_stock_quantity = Val 10\<rparr>) start_server)))) \<and>
     id' r = 1 \<and> price r = 0)"
proof -
  have ok: "fst (serve (POST_products \<lparr>cj_product_name = Val ''Widget'', cj_price = Val (1 / 1000), cj_stock_quantity = Val 10\<rparr>)
     start_server) =
     (200, Body_Product \<lparr>resp_id = 1, resp_product_name = ''Widget'', resp_price = 0, resp_stock_quantity = 10\<rparr>)"
    by (simp add: model_defs Let_def py_isspace_def)
  show ?thesis
    using sub_cent_price_stored_as_zero [OF _ _ _ ok, of "1 / 1000"] ok by simp
qed


end
